(* ===== verification/Prelude.thy ===== *)
theory Prelude
  imports Main "HOL-Library.Word" "HOL-Library.Signed_Division"
begin

text \<open>
  Shared vocabulary of the development: the machine integers of the Rust sources, Rust's
  \<open>Result\<close> as a sum, byte order conversions, decimal printing, and the two interfaces that
  several components instantiate (a keyed store with insert and lookup, and a transition
  system with an inductive invariant). Nothing here is specific to one component.
\<close>

unbundle bit_operations_syntax

section \<open>Collections\<close>

named_theorems wire_simps \<open>unfolding rules for the byte-level codec\<close>
named_theorems route_simps \<open>unfolding rules for cursor routing\<close>
named_theorems file_simps \<open>unfolding rules for the file receiver\<close>
named_theorems clip_simps \<open>unfolding rules for clipboard synchronisation\<close>
named_theorems daemon_simps \<open>unfolding rules for daemon control\<close>

section \<open>Machine integers\<close>

text \<open>
  Unsigned and signed integers of the same width share a word type: the operations that
  differ (comparison, division) are the signed ones where the source type is signed.
  Arithmetic wraps, as in the release profile of the workspace (overflow checks are off there).
\<close>

type_synonym u8 = "8 word"
type_synonym u16 = "16 word"
type_synonym i16 = "16 word"
type_synonym u32 = "32 word"
type_synonym i32 = "32 word"
type_synonym u64 = "64 word"
type_synonym u128 = "128 word"
type_synonym bytes = "8 word list"

text \<open>Rust's \<open>/\<close> on \<open>i32\<close> truncates towards zero.\<close>

definition i32_div :: "i32 \<Rightarrow> i32 \<Rightarrow> i32" where
  "i32_div a b = word_of_int (sint a sdiv sint b)"

text \<open>Rust's \<open>max\<close> on \<open>i32\<close>, a signed comparison.\<close>

definition i32_max :: "i32 \<Rightarrow> i32 \<Rightarrow> i32" where
  "i32_max a b = (if a <=s b then b else a)"

lemma sint_word_of_int32:
  "- (2 ^ 31) \<le> k \<Longrightarrow> k < 2 ^ 31 \<Longrightarrow> sint (word_of_int k :: i32) = k"
  by (simp add: sint_sbintrunc' signed_take_bit_int_eq_self)

lemma sint_diff32:
  fixes a b :: i32
  assumes "- (2 ^ 31) \<le> sint a - sint b" and "sint a - sint b < 2 ^ 31"
  shows "sint (a - b) = sint a - sint b"
proof -
  have "a - b = word_of_int (sint a - sint b)" by simp
  also have "sint \<dots> = sint a - sint b" using assms by (rule sint_word_of_int32)
  finally show ?thesis .
qed

lemma i32_bounds: "- (2 ^ 31) \<le> sint (w :: i32)" "sint (w :: i32) < 2 ^ 31"
  using sint_ge [of w] sint_lt [of w] by simp_all

lemma sint_i32_half:
  fixes w :: i32
  assumes "0 \<le> sint w"
  shows "sint (i32_div w 2) = sint w div 2"
proof -
  have "sint w sdiv 2 = sint w div 2"
    using assms by (auto simp: signed_divide_int_def sgn_if)
  moreover have "- (2 ^ 31) \<le> sint w div 2" "sint w div 2 < 2 ^ 31"
    using assms i32_bounds [of w] by auto
  ultimately show ?thesis
    by (simp add: i32_div_def sint_word_of_int32)
qed

section \<open>Big-endian byte order\<close>

definition u16_to_be_bytes :: "u16 \<Rightarrow> bytes" where
  "u16_to_be_bytes w = [ucast (drop_bit 8 w), ucast w]"

definition u16_from_be_bytes :: "u8 \<Rightarrow> u8 \<Rightarrow> u16" where
  "u16_from_be_bytes a b = push_bit 8 (ucast a) OR ucast b"

definition u32_to_be_bytes :: "u32 \<Rightarrow> bytes" where
  "u32_to_be_bytes w =
     [ucast (drop_bit 24 w), ucast (drop_bit 16 w), ucast (drop_bit 8 w), ucast w]"

definition u32_from_be_bytes :: "u8 \<Rightarrow> u8 \<Rightarrow> u8 \<Rightarrow> u8 \<Rightarrow> u32" where
  "u32_from_be_bytes a b c d =
     push_bit 24 (ucast a) OR push_bit 16 (ucast b) OR push_bit 8 (ucast c) OR ucast d"

lemma u16_from_to_be [wire_simps]:
  "u16_from_be_bytes (ucast (drop_bit 8 w)) (ucast w) = w"
  unfolding u16_from_be_bytes_def
  by (rule bit_eqI) (auto simp: bit_simps not_less)

lemma u32_from_to_be [wire_simps]:
  "u32_from_be_bytes (ucast (drop_bit 24 w)) (ucast (drop_bit 16 w))
     (ucast (drop_bit 8 w)) (ucast w) = w"
  unfolding u32_from_be_bytes_def
proof (rule bit_word_eqI)
  fix n assume "n < LENGTH(32)"
  then consider "n < 8" | "8 \<le> n" "n < 16" | "16 \<le> n" "n < 24" | "24 \<le> n" "n < 32"
    by fastforce
  then show "bit (push_bit 24 (ucast (ucast (drop_bit 24 w) :: u8)) OR
      push_bit 16 (ucast (ucast (drop_bit 16 w) :: u8)) OR
      push_bit 8 (ucast (ucast (drop_bit 8 w) :: u8)) OR ucast (ucast w :: u8) :: u32) n = bit w n"
    by cases (auto simp: bit_simps)
qed

lemma u8_bit_high: "8 \<le> n \<Longrightarrow> \<not> bit (b :: u8) n"
  by (auto dest: bit_imp_le_length)

lemma u16_to_from_be [wire_simps]: "u16_to_be_bytes (u16_from_be_bytes a b) = [a, b]"
  unfolding u16_to_be_bytes_def u16_from_be_bytes_def
  by (auto intro!: bit_word_eqI simp: bit_simps u8_bit_high)

lemma u32_to_from_be [wire_simps]:
  "u32_to_be_bytes (u32_from_be_bytes a b c d) = [a, b, c, d]"
  unfolding u32_to_be_bytes_def u32_from_be_bytes_def
  by (auto intro!: bit_word_eqI simp: bit_simps u8_bit_high)

lemma length_u16_to_be [simp]: "length (u16_to_be_bytes w) = 2"
  by (simp add: u16_to_be_bytes_def)

lemma length_u32_to_be [simp]: "length (u32_to_be_bytes w) = 4"
  by (simp add: u32_to_be_bytes_def)

section \<open>Results\<close>

text \<open>Rust's \<open>Result<T, E>\<close> is \<open>'e + 'a\<close>: \<open>Err\<close> on the left, \<open>Ok\<close> on the right.\<close>

abbreviation Err :: "'e \<Rightarrow> 'e + 'a" where "Err \<equiv> Inl"
abbreviation Ok :: "'a \<Rightarrow> 'e + 'a" where "Ok \<equiv> Inr"

definition is_ok :: "'e + 'a \<Rightarrow> bool" where
  "is_ok r = (case r of Inl _ \<Rightarrow> False | Inr _ \<Rightarrow> True)"

lemma is_ok_simps [simp]: "is_ok (Ok x)" "\<not> is_ok (Err e)"
  by (simp_all add: is_ok_def)

lemma is_okE [elim]: "is_ok r \<Longrightarrow> (\<And>x. r = Ok x \<Longrightarrow> P) \<Longrightarrow> P"
  by (cases r) simp_all

text \<open>The \<open>?\<close> operator: pass an error on, or continue with the value.\<close>

fun try_then :: "'e + 'a \<Rightarrow> ('a \<Rightarrow> 'e + 'b) \<Rightarrow> 'e + 'b" where
  "try_then (Inl e) f = Inl e"
| "try_then (Inr x) f = f x"

lemma try_then_Ok: "try_then r f = Ok y \<longleftrightarrow> (\<exists>x. r = Ok x \<and> f x = Ok y)"
  by (cases r) simp_all

text \<open>\<open>map_err\<close> and \<open>ok_or\<close> of the standard library.\<close>

fun map_err :: "('e \<Rightarrow> 'f) \<Rightarrow> 'e + 'a \<Rightarrow> 'f + 'a" where
  "map_err f (Inl e) = Inl (f e)"
| "map_err f (Inr x) = Inr x"

fun ok_or :: "'e \<Rightarrow> 'a option \<Rightarrow> 'e + 'a" where
  "ok_or e None = Inl e"
| "ok_or e (Some x) = Inr x"

lemma map_err_Ok [simp]: "map_err f r = Ok x \<longleftrightarrow> r = Ok x"
  by (cases r) simp_all

lemma ok_or_Ok [simp]: "ok_or e r = Ok x \<longleftrightarrow> r = Some x"
  by (cases r) simp_all

section \<open>Decimal printing\<close>

text \<open>\<open>Display\<close> of an unsigned integer: decimal digits, no leading zero.\<close>

definition digit_char :: "nat \<Rightarrow> char" where
  "digit_char d = char_of (48 + d)"

fun show_nat :: "nat \<Rightarrow> string" where
  "show_nat n = (if n < 10 then [digit_char n] else show_nat (n div 10) @ [digit_char (n mod 10)])"

declare show_nat.simps [simp del]

lemma show_nat_nonempty: "show_nat n \<noteq> []"
  by (subst show_nat.simps) simp

section \<open>Lists\<close>

lemma append_split_prefix:
  "h @ p = q @ z \<Longrightarrow> length h \<le> length q \<Longrightarrow> \<exists>r. q = h @ r \<and> p = r @ z"
  by (auto simp: append_eq_append_conv2)

section \<open>Keyed stores\<close>

text \<open>
  The promise of a map with insert and lookup. The \<open>HashMap\<close>s of the originator registry, of
  the sender and of the receiver are instances.
\<close>

locale key_store =
  fixes put :: "'k \<Rightarrow> 'v \<Rightarrow> 's \<Rightarrow> 's"
    and get :: "'s \<Rightarrow> 'k \<Rightarrow> 'v option"
  assumes get_put_same: "get (put k v s) k = Some v"
    and get_put_other: "j \<noteq> k \<Longrightarrow> get (put k v s) j = get s j"
begin

lemma get_put: "get (put k v s) j = (if j = k then Some v else get s j)"
  by (simp add: get_put_same get_put_other)

lemma put_keeps_key: "get s j \<noteq> None \<Longrightarrow> get (put k v s) j \<noteq> None"
  by (simp add: get_put)

lemma puts_keep_key: "get s j \<noteq> None \<Longrightarrow> get (fold (\<lambda>(k, v). put k v) kvs s) j \<noteq> None"
  by (induction kvs arbitrary: s) (auto simp: get_put split: prod.split)

lemma put_last_wins: "get (put k v (put k w s)) = get (put k v s)"
  by (rule ext) (simp add: get_put)

end

section \<open>Channels of records\<close>

text \<open>
  The promise of a framing: reading returns the record that was written and leaves what follows.
  \<open>None\<close> is a reader that waits for more bytes. The frames of the network and the lines of the
  local socket are instances. Then a sequence of records written one behind the other is read back
  one by one, in order.
\<close>

fun read_records :: "nat \<Rightarrow> (bytes \<Rightarrow> (('e + 'm) \<times> bytes) option) \<Rightarrow> bytes \<Rightarrow> ('e + 'm) list \<times> bytes" where
  "read_records 0 rd bs = ([], bs)"
| "read_records (Suc n) rd bs =
     (case rd bs of
        None \<Rightarrow> ([], bs)
      | Some (r, rest) \<Rightarrow> (case read_records n rd rest of (rs, rest') \<Rightarrow> (r # rs, rest')))"

locale record_channel =
  fixes wr :: "'m \<Rightarrow> 'e + bytes"
    and rd :: "bytes \<Rightarrow> (('f + 'm) \<times> bytes) option"
    and sendable :: "'m \<Rightarrow> bool"
  assumes wr_sendable: "sendable m \<Longrightarrow> \<exists>bs. wr m = Ok bs"
    and rd_wr: "sendable m \<Longrightarrow> wr m = Ok bs \<Longrightarrow> rd (bs @ rest) = Some (Ok m, rest)"
begin

lemma read_written:
  assumes "list_all2 (\<lambda>m bs. sendable m \<and> wr m = Ok bs) ms bss"
  shows "read_records (length ms) rd (concat bss @ rest) = (map Ok ms, rest)"
  using assms
proof (induction ms bss rule: list_all2_induct)
  case (Cons m ms bs bss)
  then show ?case using rd_wr [of m bs "concat bss @ rest"] by simp
qed simp

end

section \<open>Transition systems with an invariant\<close>

text \<open>
  A component with concurrent tasks is a step relation; \<open>runs\<close> is its reflexive transitive
  closure. A predicate that holds initially and is kept by every step holds along every run.
\<close>

locale invariant_system =
  fixes start :: "'s \<Rightarrow> bool"
    and step :: "'s \<Rightarrow> 's \<Rightarrow> bool"
    and inv :: "'s \<Rightarrow> bool"
  assumes inv_start: "start s \<Longrightarrow> inv s"
    and inv_step: "inv s \<Longrightarrow> step s t \<Longrightarrow> inv t"
begin

lemma inv_steps: "step\<^sup>*\<^sup>* s t \<Longrightarrow> inv s \<Longrightarrow> inv t"
  by (induction rule: rtranclp_induct) (auto intro: inv_step)

lemma inv_reachable: "start s \<Longrightarrow> step\<^sup>*\<^sup>* s t \<Longrightarrow> inv t"
  by (blast intro: inv_start inv_steps)

end

end
