(* ===== verification/CoreTypes.thy ===== *)
theory CoreTypes
  imports Prelude
begin

text \<open>
  Identifiers, screens and errors of the core crate (\<open>crates/core/src/id.rs\<close>,
  \<open>screen.rs\<close>, \<open>error.rs\<close>). Newtypes of the source are datatypes with one constructor,
  structs are records whose field names carry a short prefix.
\<close>

section \<open>Identifiers\<close>

datatype PeerId = PeerId (peer_uuid: u128)

definition peer_nil :: PeerId where
  "peer_nil = PeerId 0"

text \<open>A new identifier from a random UUID, the default, and the display of the UUID.\<close>

definition peer_new :: "u128 \<Rightarrow> PeerId" where
  "peer_new v4 = PeerId v4"

definition peer_default :: PeerId where
  "peer_default = peer_nil"

definition peer_id_display :: "(u128 \<Rightarrow> string) \<Rightarrow> PeerId \<Rightarrow> string" where
  "peer_id_display show_uuid p = show_uuid (peer_uuid p)"

datatype ScreenId = ScreenId (screen_u32: u32)

datatype ClientId = ClientId (client_u64: u64)

definition client_id_display :: "ClientId \<Rightarrow> string" where
  "client_id_display c = ''client#'' @ show_nat (unat (client_u64 c))"

definition screen_id_display :: "ScreenId \<Rightarrow> string" where
  "screen_id_display s = ''screen#'' @ show_nat (unat (screen_u32 s))"

section \<open>Screens\<close>

record Point =
  pt_x :: i32
  pt_y :: i32

definition mk_point :: "i32 \<Rightarrow> i32 \<Rightarrow> Point" where
  "mk_point a b = \<lparr>pt_x = a, pt_y = b\<rparr>"

lemma mk_point_sel [simp]: "pt_x (mk_point a b) = a" "pt_y (mk_point a b) = b"
  by (simp_all add: mk_point_def)

lemma mk_point_eq [simp]: "mk_point a b = mk_point c d \<longleftrightarrow> a = c \<and> b = d"
  by (simp add: mk_point_def)

datatype EdgeSide = EdgeTop | EdgeBottom | EdgeLeft | EdgeRight

fun opposite :: "EdgeSide \<Rightarrow> EdgeSide" where
  "opposite EdgeTop = EdgeBottom"
| "opposite EdgeBottom = EdgeTop"
| "opposite EdgeLeft = EdgeRight"
| "opposite EdgeRight = EdgeLeft"

record ScreenInfo =
  si_id :: ScreenId
  si_name :: string
  si_width :: i32
  si_height :: i32

record Neighbour =
  nb_from :: ScreenId
  nb_side :: EdgeSide
  nb_to :: ScreenId

record ScreenLayout =
  sl_screens :: "ScreenInfo list"
  sl_neighbours :: "Neighbour list"

definition layout_default :: ScreenLayout where
  "layout_default = \<lparr>sl_screens = [], sl_neighbours = []\<rparr>"

text \<open>The first neighbour entry that matches wins, as \<open>Iterator::find\<close> has it.\<close>

definition neighbour_of :: "ScreenLayout \<Rightarrow> ScreenId \<Rightarrow> EdgeSide \<Rightarrow> ScreenId option" where
  "neighbour_of l from side =
     map_option nb_to (find (\<lambda>n. nb_from n = from \<and> nb_side n = side) (sl_neighbours l))"

lemma neighbour_of_default [simp]: "neighbour_of layout_default from side = None"
  by (simp add: neighbour_of_def layout_default_def)

section \<open>Errors\<close>

text \<open>
  \<open>inputsync_core::Error\<close>. The payloads that come from the operating system or from a
  library (\<open>io::Error\<close>, the toml errors) are opaque strings.
\<close>

datatype Error =
    EIo string
  | EConfig string
  | EConfigMissing string
  | ETomlDe string
  | ETomlSer string
  | EProtocol string
  | ENetwork string
  | EPlatform string
  | EIpc string
  | EPeerRejected string
  | EVersionMismatch u16 u16
  | EEmergencyStop
  | ECancelled
  | ENotConnected
  | EOther string

fun error_display :: "Error \<Rightarrow> string" where
  "error_display (EIo e) = ''io error: '' @ e"
| "error_display (EConfig e) = ''config error: '' @ e"
| "error_display (EConfigMissing p) = ''config file not found at '' @ p"
| "error_display (ETomlDe e) = ''toml parse error: '' @ e"
| "error_display (ETomlSer e) = ''toml serialize error: '' @ e"
| "error_display (EProtocol e) = ''protocol error: '' @ e"
| "error_display (ENetwork e) = ''network error: '' @ e"
| "error_display (EPlatform e) = ''platform error: '' @ e"
| "error_display (EIpc e) = ''ipc error: '' @ e"
| "error_display (EPeerRejected e) = ''peer rejected: '' @ e"
| "error_display (EVersionMismatch local remote) =
     ''version mismatch: local='' @ show_nat (unat local) @ '' remote='' @ show_nat (unat remote)"
| "error_display EEmergencyStop = ''emergency stop activated''"
| "error_display ECancelled = ''operation cancelled''"
| "error_display ENotConnected = ''not connected''"
| "error_display (EOther e) = e"

end
