(* ===== verification/WireHeader.thy ===== *)
theory WireHeader
  imports Prelude
begin

text \<open>
  The frame header (\<open>crates/protocol/src/header.rs\<close>): magic, version, message type and payload
  length in twelve big-endian bytes, and the table of message type identifiers.
\<close>

section \<open>Header\<close>

definition MAGIC :: bytes where
  "MAGIC = [0x49, 0x53, 0x59, 0x4E]"

definition PROTOCOL_VERSION :: u16 where
  "PROTOCOL_VERSION = 1"

definition HEADER_SIZE :: nat where
  "HEADER_SIZE = 12"

record Header =
  hd_magic :: bytes
  hd_version :: u16
  hd_message_type :: u16
  hd_length :: u32

text \<open>The magic is a four-byte array in the source; here that is a well-formedness condition.\<close>

definition header_wf :: "Header \<Rightarrow> bool" where
  "header_wf h \<longleftrightarrow> length (hd_magic h) = 4"

definition header_encode :: "Header \<Rightarrow> bytes" where
  "header_encode h =
     hd_magic h @ u16_to_be_bytes (hd_version h) @ u16_to_be_bytes (hd_message_type h) @
     u32_to_be_bytes (hd_length h)"

text \<open>The argument is a twelve-byte array in the source.\<close>

definition header_decode :: "bytes \<Rightarrow> Header" where
  "header_decode bs =
     \<lparr>hd_magic = take 4 bs,
      hd_version = u16_from_be_bytes (bs ! 4) (bs ! 5),
      hd_message_type = u16_from_be_bytes (bs ! 6) (bs ! 7),
      hd_length = u32_from_be_bytes (bs ! 8) (bs ! 9) (bs ! 10) (bs ! 11)\<rparr>"

section \<open>Message types\<close>

datatype MessageType =
    T_Hello
  | T_Welcome
  | T_Goodbye
  | T_MouseMove
  | T_MouseMoveRelative
  | T_MouseButton
  | T_MouseScroll
  | T_KeyEvent
  | T_ScreenEnter
  | T_ScreenLeave
  | T_ModifierSync
  | T_ClipboardFormats
  | T_ClipboardRequest
  | T_ClipboardData
  | T_FileOfferStart
  | T_FileChunk
  | T_FileAck
  | T_FileTransferCancel
  | T_Ping
  | T_Pong
  | T_Error

text \<open>The discriminants, \<open>ty as u16\<close>.\<close>

primrec message_type_u16 :: "MessageType \<Rightarrow> u16" where
  "message_type_u16 T_Hello = 0x0001"
| "message_type_u16 T_Welcome = 0x0002"
| "message_type_u16 T_Goodbye = 0x0003"
| "message_type_u16 T_MouseMove = 0x0100"
| "message_type_u16 T_MouseMoveRelative = 0x0104"
| "message_type_u16 T_MouseButton = 0x0101"
| "message_type_u16 T_MouseScroll = 0x0102"
| "message_type_u16 T_KeyEvent = 0x0103"
| "message_type_u16 T_ScreenEnter = 0x0110"
| "message_type_u16 T_ScreenLeave = 0x0111"
| "message_type_u16 T_ModifierSync = 0x0112"
| "message_type_u16 T_ClipboardFormats = 0x0200"
| "message_type_u16 T_ClipboardRequest = 0x0201"
| "message_type_u16 T_ClipboardData = 0x0202"
| "message_type_u16 T_FileOfferStart = 0x0300"
| "message_type_u16 T_FileChunk = 0x0301"
| "message_type_u16 T_FileAck = 0x0302"
| "message_type_u16 T_FileTransferCancel = 0x0303"
| "message_type_u16 T_Ping = 0x0F00"
| "message_type_u16 T_Pong = 0x0F01"
| "message_type_u16 T_Error = 0x0F02"

definition message_type_from_u16 :: "u16 \<Rightarrow> MessageType option" where
  "message_type_from_u16 v =
    (if v = 0x0001 then Some T_Hello
     else if v = 0x0002 then Some T_Welcome
     else if v = 0x0003 then Some T_Goodbye
     else if v = 0x0100 then Some T_MouseMove
     else if v = 0x0104 then Some T_MouseMoveRelative
     else if v = 0x0101 then Some T_MouseButton
     else if v = 0x0102 then Some T_MouseScroll
     else if v = 0x0103 then Some T_KeyEvent
     else if v = 0x0110 then Some T_ScreenEnter
     else if v = 0x0111 then Some T_ScreenLeave
     else if v = 0x0112 then Some T_ModifierSync
     else if v = 0x0200 then Some T_ClipboardFormats
     else if v = 0x0201 then Some T_ClipboardRequest
     else if v = 0x0202 then Some T_ClipboardData
     else if v = 0x0300 then Some T_FileOfferStart
     else if v = 0x0301 then Some T_FileChunk
     else if v = 0x0302 then Some T_FileAck
     else if v = 0x0303 then Some T_FileTransferCancel
     else if v = 0x0F00 then Some T_Ping
     else if v = 0x0F01 then Some T_Pong
     else if v = 0x0F02 then Some T_Error
     else None)"

definition header_new :: "MessageType \<Rightarrow> u32 \<Rightarrow> Header" where
  "header_new ty len =
     \<lparr>hd_magic = MAGIC, hd_version = PROTOCOL_VERSION,
      hd_message_type = message_type_u16 ty, hd_length = len\<rparr>"

section \<open>Facts\<close>

lemma length_MAGIC [simp]: "length MAGIC = 4"
  by (simp add: MAGIC_def)

lemma header_wf_new [simp]: "header_wf (header_new ty len)"
  by (simp add: header_wf_def header_new_def)

lemma length_header_encode [simp]: "header_wf h \<Longrightarrow> length (header_encode h) = HEADER_SIZE"
  by (simp add: header_wf_def header_encode_def HEADER_SIZE_def)

text \<open>The header is read from the first twelve bytes; what follows does not matter.\<close>

lemma header_decode_append:
  "HEADER_SIZE \<le> length bs \<Longrightarrow> header_decode (bs @ rest) = header_decode bs"
  by (simp add: header_decode_def nth_append HEADER_SIZE_def)

lemma header_decode_take:
  "HEADER_SIZE \<le> n \<Longrightarrow> header_decode (take n bs) = header_decode bs"
  by (simp add: header_decode_def HEADER_SIZE_def min_def)

lemma four_bytes: "length bs = 4 \<Longrightarrow> \<exists>a b c d. bs = [a, b, c, d]"
  by (auto simp: length_Suc_conv numeral_eq_Suc)

lemma header_decode_encode [wire_simps]:
  assumes "header_wf h"
  shows "header_decode (header_encode h @ rest) = h"
proof -
  obtain a b c d where "hd_magic h = [a, b, c, d]"
    using assms four_bytes unfolding header_wf_def by blast
  then show ?thesis
    by (simp add: header_decode_def header_encode_def u16_to_be_bytes_def u32_to_be_bytes_def
        u16_from_to_be u32_from_to_be)
qed

lemma header_encode_decode [wire_simps]:
  assumes "length bs = HEADER_SIZE"
  shows "header_encode (header_decode bs) = bs"
proof -
  have "\<exists>a b c d e f g h i j k l. bs = [a, b, c, d, e, f, g, h, i, j, k, l]"
    using assms by (auto simp: HEADER_SIZE_def length_Suc_conv numeral_eq_Suc)
  then show ?thesis
    by (auto simp: header_decode_def header_encode_def u16_to_from_be u32_to_from_be)
qed

lemma message_type_from_to [simp]: "message_type_from_u16 (message_type_u16 t) = Some t"
  by (cases t) (simp_all add: message_type_from_u16_def)

lemma message_type_to_from: "message_type_from_u16 v = Some t \<Longrightarrow> message_type_u16 t = v"
  by (auto simp: message_type_from_u16_def split: if_splits)

lemma inj_message_type_u16: "inj message_type_u16"
  by (rule injI) (metis message_type_from_to option.inject)

end
