(* ===== verification/WireMessage.thy ===== *)
theory WireMessage
  imports InputEvents WireHeader
begin

text \<open>
  Wire messages (\<open>crates/protocol/src/message.rs\<close>): the payload structs, the message enum, its
  type tag, the translation of input events and the negotiation of capabilities.
\<close>

section \<open>Capabilities\<close>

datatype Capabilities = Capabilities
  (clipboard_text: bool) (clipboard_html: bool) (clipboard_image: bool)
  (clipboard_files: bool) (cap_file_transfer: bool) (zstd_compression: bool)

definition capabilities_full :: Capabilities where
  "capabilities_full = Capabilities True True True True True True"

definition negotiate :: "Capabilities \<Rightarrow> Capabilities \<Rightarrow> Capabilities" where
  "negotiate a b = Capabilities
     (clipboard_text a \<and> clipboard_text b)
     (clipboard_html a \<and> clipboard_html b)
     (clipboard_image a \<and> clipboard_image b)
     (clipboard_files a \<and> clipboard_files b)
     (cap_file_transfer a \<and> cap_file_transfer b)
     (zstd_compression a \<and> zstd_compression b)"

text \<open>
  Capability sets ordered by inclusion of features: negotiation is the greatest set both sides
  support, the meet of this order, and \<open>full\<close> its top element.
\<close>

instantiation Capabilities :: "{semilattice_inf, order_top}"
begin

definition less_eq_Capabilities :: "Capabilities \<Rightarrow> Capabilities \<Rightarrow> bool" where
  "less_eq_Capabilities a b \<longleftrightarrow>
     (clipboard_text a \<longrightarrow> clipboard_text b) \<and> (clipboard_html a \<longrightarrow> clipboard_html b) \<and>
     (clipboard_image a \<longrightarrow> clipboard_image b) \<and> (clipboard_files a \<longrightarrow> clipboard_files b) \<and>
     (cap_file_transfer a \<longrightarrow> cap_file_transfer b) \<and>
     (zstd_compression a \<longrightarrow> zstd_compression b)"

definition less_Capabilities :: "Capabilities \<Rightarrow> Capabilities \<Rightarrow> bool" where
  "less_Capabilities a b \<longleftrightarrow> a \<le> b \<and> \<not> b \<le> (a :: Capabilities)"

definition inf_Capabilities :: "Capabilities \<Rightarrow> Capabilities \<Rightarrow> Capabilities" where
  "inf_Capabilities a b = negotiate a b"

definition top_Capabilities :: Capabilities where
  "top_Capabilities = capabilities_full"

instance
proof
  fix a b c :: Capabilities
  show "a < b \<longleftrightarrow> a \<le> b \<and> \<not> b \<le> a" by (rule less_Capabilities_def)
  show "a \<le> a" by (simp add: less_eq_Capabilities_def)
  show "a \<le> b \<Longrightarrow> b \<le> c \<Longrightarrow> a \<le> c" by (simp add: less_eq_Capabilities_def)
  show "a \<le> b \<Longrightarrow> b \<le> a \<Longrightarrow> a = b"
    by (cases a; cases b) (simp add: less_eq_Capabilities_def; blast)
  show "inf a b \<le> a" and "inf a b \<le> b"
    by (simp_all add: less_eq_Capabilities_def inf_Capabilities_def negotiate_def)
  show "a \<le> b \<Longrightarrow> a \<le> c \<Longrightarrow> a \<le> inf b c"
    by (simp add: less_eq_Capabilities_def inf_Capabilities_def negotiate_def)
  show "a \<le> top"
    by (simp add: less_eq_Capabilities_def top_Capabilities_def capabilities_full_def)
qed

end

lemma negotiate_inf: "negotiate a b = inf a b"
  by (simp add: inf_Capabilities_def)

lemma full_top: "capabilities_full = top"
  by (simp add: top_Capabilities_def)

section \<open>Payload structs\<close>

type_synonym hash = bytes

record Hello =
  hello_peer_id :: PeerId
  hello_peer_name :: string
  hello_protocol_version :: u16
  hello_capabilities :: Capabilities

record Welcome =
  wel_peer_id :: PeerId
  wel_peer_name :: string
  wel_accepted_capabilities :: Capabilities
  wel_assigned_screen :: ScreenId

record Goodbye =
  bye_reason :: string

datatype ClipboardFormat = CF_PlainText | CF_Html | CF_Rtf | CF_Png | CF_UriList

record ClipboardPayload =
  cp_format :: ClipboardFormat
  cp_bytes :: bytes
  cp_originator :: PeerId
  cp_hash :: hash

record FileEntry =
  fe_relative_path :: string
  fe_size :: u64
  fe_blake3 :: hash

record FileManifest =
  fm_files :: "FileEntry list"
  fm_total_bytes :: u64

record FileOffer =
  fo_transfer_id :: u64
  fo_manifest :: FileManifest
  fo_compressed :: bool

record FileChunk =
  fc_transfer_id :: u64
  fc_file_index :: u32
  fc_offset :: u64
  fc_data :: bytes
  fc_is_last :: bool

section \<open>Messages\<close>

datatype Message =
    M_Hello Hello
  | M_Welcome Welcome
  | M_Goodbye Goodbye
  | M_MouseMove i32 i32
  | M_MouseMoveRelative i32 i32
  | M_MouseButton MouseEvent
  | M_MouseScroll MouseEvent
  | M_KeyEvent KeyEvent
  | M_ScreenEnter i32 i32 ModifierState
  | M_ScreenLeave u32
  | M_ModifierSync ModifierState
  | M_ClipboardFormats "ClipboardFormat list" hash
  | M_ClipboardRequest ClipboardFormat
  | M_ClipboardData ClipboardPayload
  | M_FileOfferStart FileOffer
  | M_FileChunk FileChunk
  | M_FileAck u64 u64
  | M_FileTransferCancel u64 string
  | M_Ping u64 u64
  | M_Pong u64 u64
  | M_Error u32 string

fun message_type :: "Message \<Rightarrow> MessageType" where
  "message_type (M_Hello _) = T_Hello"
| "message_type (M_Welcome _) = T_Welcome"
| "message_type (M_Goodbye _) = T_Goodbye"
| "message_type (M_MouseMove _ _) = T_MouseMove"
| "message_type (M_MouseMoveRelative _ _) = T_MouseMoveRelative"
| "message_type (M_MouseButton _) = T_MouseButton"
| "message_type (M_MouseScroll _) = T_MouseScroll"
| "message_type (M_KeyEvent _) = T_KeyEvent"
| "message_type (M_ScreenEnter _ _ _) = T_ScreenEnter"
| "message_type (M_ScreenLeave _) = T_ScreenLeave"
| "message_type (M_ModifierSync _) = T_ModifierSync"
| "message_type (M_ClipboardFormats _ _) = T_ClipboardFormats"
| "message_type (M_ClipboardRequest _) = T_ClipboardRequest"
| "message_type (M_ClipboardData _) = T_ClipboardData"
| "message_type (M_FileOfferStart _) = T_FileOfferStart"
| "message_type (M_FileChunk _) = T_FileChunk"
| "message_type (M_FileAck _ _) = T_FileAck"
| "message_type (M_FileTransferCancel _ _) = T_FileTransferCancel"
| "message_type (M_Ping _ _) = T_Ping"
| "message_type (M_Pong _ _) = T_Pong"
| "message_type (M_Error _ _) = T_Error"

text \<open>The translation of an input event to a message, in the order of the source's match.\<close>

fun from_input :: "InputEvent \<Rightarrow> Message" where
  "from_input (Mouse (MoveAbs x y)) = M_MouseMove x y"
| "from_input (Mouse (MoveRelative dx dy)) = M_MouseMoveRelative dx dy"
| "from_input (Mouse (MButton b s)) = M_MouseButton (MButton b s)"
| "from_input (Mouse (MScroll d)) = M_MouseScroll (MScroll d)"
| "from_input (Key k) = M_KeyEvent k"
| "from_input (EvScreenEnter x y m) = M_ScreenEnter x y m"
| "from_input (EvScreenLeave p) = M_ScreenLeave p"
| "from_input (EvModifierSync m) = M_ModifierSync m"

fun_cases from_input_PingE: "from_input ev = M_Ping n t"
fun_cases from_input_PongE: "from_input ev = M_Pong n t"

lemma inj_from_input: "inj from_input"
proof (rule injI)
  fix a b assume "from_input a = from_input b"
  then show "a = b"
    by (cases a rule: from_input.cases; cases b rule: from_input.cases) simp_all
qed

end
