(* ===== verification/FrameCodec.thy ===== *)
theory FrameCodec
  imports WireMessage "HOL-Library.Sublist"
begin

text \<open>
  The framed codec (\<open>crates/protocol/src/codec.rs\<close>). The payload serializer is the bincode
  crate: it is a pair of parameters \<open>ser\<close> and \<open>de\<close> of the definitions, with a string for its
  error value.
\<close>

section \<open>Interface of a frame codec\<close>

text \<open>
  What a user of the codec may rely on: a sendable message encodes, its frame decodes to it
  whatever follows in the buffer, and a proper prefix of its frame asks for more bytes.
\<close>

locale frame_codec =
  fixes enc :: "'m \<Rightarrow> 'e + bytes"
    and dec :: "bytes \<Rightarrow> 'f + ('m \<times> nat) option"
    and sendable :: "'m \<Rightarrow> bool"
  assumes enc_sendable: "sendable m \<Longrightarrow> \<exists>bs. enc m = Ok bs"
    and dec_enc: "sendable m \<Longrightarrow> enc m = Ok bs \<Longrightarrow> dec (bs @ rest) = Ok (Some (m, length bs))"
    and dec_prefix: "sendable m \<Longrightarrow> enc m = Ok bs \<Longrightarrow> strict_prefix p bs \<Longrightarrow> dec p = Ok None"
begin

text \<open>No frame is a proper prefix of another: two frames that start a buffer are the same.\<close>

lemma frames_agree:
  assumes "sendable m" "enc m = Ok a" "sendable n" "enc n = Ok b" and eq: "a @ x = b @ y"
  shows "m = n \<and> a = b"
proof -
  have "dec (a @ x) = Ok (Some (m, length a))" "dec (b @ y) = Ok (Some (n, length b))"
    by (rule dec_enc, fact, fact)+
  with eq have "m = n" and "length a = length b" by simp_all
  with eq show ?thesis by simp
qed

text \<open>Hence a byte stream splits into frames in one way only.\<close>

lemma unique_parse:
  assumes "list_all sendable ms" "list_all sendable ns"
    and "list_all2 (\<lambda>m bs. enc m = Ok bs) ms as" "list_all2 (\<lambda>m bs. enc m = Ok bs) ns bss"
    and "concat as = concat bss" and "\<And>m bs. sendable m \<Longrightarrow> enc m = Ok bs \<Longrightarrow> bs \<noteq> []"
  shows "ms = ns"
  using assms
proof (induction ms arbitrary: ns as bss)
  case Nil
  then show ?case by (cases ns) (auto simp: list_all2_Cons1)
next
  case (Cons m ms)
  then obtain a as' where as: "as = a # as'" "enc m = Ok a" and rest: "list_all2 (\<lambda>m bs. enc m = Ok bs) ms as'"
    by (auto simp: list_all2_Cons1)
  from Cons.prems as obtain n ns' where ns: "ns = n # ns'" by (cases ns) auto
  with Cons.prems obtain b bs' where bss: "bss = b # bs'" "enc n = Ok b"
    and rest': "list_all2 (\<lambda>m bs. enc m = Ok bs) ns' bs'" by (auto simp: list_all2_Cons1)
  have "m = n \<and> a = b"
    by (rule frames_agree [where x = "concat as'" and y = "concat bs'"])
      (use Cons.prems as ns bss in auto)
  with Cons.IH [of ns' as' bs'] Cons.prems as ns bss rest rest' show ?case by auto
qed

end

section \<open>Errors\<close>

definition MAX_PAYLOAD_SIZE :: nat where
  "MAX_PAYLOAD_SIZE = 64 * 1024 * 1024"

datatype FrameError =
    FIncomplete nat
  | FBadMagic bytes
  | FUnsupportedVersion u16 u16
  | FUnknownMessageType u16
  | FPayloadTooLarge u32
  | FBincode string

definition hex_char :: "nat \<Rightarrow> char" where
  "hex_char d = char_of (if d < 10 then 48 + d else 87 + d)"

definition show_hex4 :: "u16 \<Rightarrow> string" where
  "show_hex4 w = map (\<lambda>k. hex_char (unat (w div 16 ^ k) mod 16)) [3, 2, 1, 0]"

fun show_bytes_body :: "bytes \<Rightarrow> string" where
  "show_bytes_body [] = ''''"
| "show_bytes_body [b] = show_nat (unat b)"
| "show_bytes_body (b # bs) = show_nat (unat b) @ '', '' @ show_bytes_body bs"

fun frame_error_display :: "FrameError \<Rightarrow> string" where
  "frame_error_display (FIncomplete needed) =
     ''incomplete frame: need '' @ show_nat needed @ '' more bytes''"
| "frame_error_display (FBadMagic m) = ''bad magic bytes: ['' @ show_bytes_body m @ '']''"
| "frame_error_display (FUnsupportedVersion local remote) =
     ''unsupported protocol version: local='' @ show_nat (unat local) @
     '' remote='' @ show_nat (unat remote)"
| "frame_error_display (FUnknownMessageType t) = ''unknown message type id 0x'' @ show_hex4 t"
| "frame_error_display (FPayloadTooLarge n) =
     ''payload too large: '' @ show_nat (unat n) @ '' > '' @ show_nat MAX_PAYLOAD_SIZE"
| "frame_error_display (FBincode e) = ''bincode error: '' @ e"

section \<open>Encoding and decoding\<close>

definition encode_frame :: "(Message \<Rightarrow> string + bytes) \<Rightarrow> Message \<Rightarrow> FrameError + bytes" where
  "encode_frame ser msg =
     (case ser msg of
        Inl e \<Rightarrow> Err (FBincode e)
      | Inr payload \<Rightarrow>
          if MAX_PAYLOAD_SIZE < length payload
          then Err (FPayloadTooLarge (word_of_nat (length payload)))
          else Ok (header_encode (header_new (message_type msg) (word_of_nat (length payload)))
                   @ payload))"

text \<open>The appending variant returns the buffer; an error leaves it as it was.\<close>

definition write_frame ::
  "(Message \<Rightarrow> string + bytes) \<Rightarrow> bytes \<Rightarrow> Message \<Rightarrow> (FrameError + unit) \<times> bytes" where
  "write_frame ser buf msg =
     (case ser msg of
        Inl e \<Rightarrow> (Err (FBincode e), buf)
      | Inr payload \<Rightarrow>
          if MAX_PAYLOAD_SIZE < length payload
          then (Err (FPayloadTooLarge (word_of_nat (length payload))), buf)
          else (let header = header_new (message_type msg) (word_of_nat (length payload))
                in (Ok (), (buf @ header_encode header) @ payload)))"

definition decode_frame ::
  "(bytes \<Rightarrow> string + Message) \<Rightarrow> bytes \<Rightarrow> FrameError + (Message \<times> nat) option" where
  "decode_frame de buf =
     (if length buf < HEADER_SIZE then Ok None
      else let header = header_decode (take HEADER_SIZE buf) in
        if hd_magic header \<noteq> MAGIC then Err (FBadMagic (hd_magic header))
        else if hd_version header \<noteq> PROTOCOL_VERSION
        then Err (FUnsupportedVersion PROTOCOL_VERSION (hd_version header))
        else if MAX_PAYLOAD_SIZE < unat (hd_length header)
        then Err (FPayloadTooLarge (hd_length header))
        else let total = HEADER_SIZE + unat (hd_length header) in
          if length buf < total then Ok None
          else (case message_type_from_u16 (hd_message_type header) of
                  None \<Rightarrow> Err (FUnknownMessageType (hd_message_type header))
                | Some ty \<Rightarrow>
                    (case de (drop HEADER_SIZE (take total buf)) of
                       Inl e \<Rightarrow> Err (FBincode e)
                     | Inr msg \<Rightarrow> Ok (Some (msg, total)))))"

text \<open>
  A message the serializer accepts within the size cap and reads back: the round trip is the
  documented promise of bincode, and holds here message by message.
\<close>

definition wire_ok ::
  "(Message \<Rightarrow> string + bytes) \<Rightarrow> (bytes \<Rightarrow> string + Message) \<Rightarrow> Message \<Rightarrow> bool" where
  "wire_ok ser de m \<longleftrightarrow>
     (case ser m of Inl _ \<Rightarrow> False | Inr p \<Rightarrow> length p \<le> MAX_PAYLOAD_SIZE \<and> de p = Ok m)"

lemma wire_okE:
  assumes "wire_ok ser de m"
  obtains p where "ser m = Ok p" "length p \<le> MAX_PAYLOAD_SIZE" "de p = Ok m"
  using assms by (auto simp: wire_ok_def split: sum.splits)

section \<open>Decoding lemmas\<close>

lemma unat_payload_length:
  "n \<le> MAX_PAYLOAD_SIZE \<Longrightarrow> unat (word_of_nat n :: u32) = n"
  by (simp add: MAX_PAYLOAD_SIZE_def unsigned_of_nat take_bit_nat_eq_self)

lemma encode_frame_Ok:
  assumes "ser m = Ok p" "length p \<le> MAX_PAYLOAD_SIZE"
  shows "encode_frame ser m =
    Ok (header_encode (header_new (message_type m) (word_of_nat (length p))) @ p)"
  using assms by (simp add: encode_frame_def)

text \<open>What the decoder reads in a buffer that starts with a header the encoder makes.\<close>

lemma decode_header_prefix:
  assumes "length p \<le> MAX_PAYLOAD_SIZE"
  shows "decode_frame de
           (header_encode (header_new ty (word_of_nat (length p))) @ q) =
         (if length q < length p then Ok None
          else (case de (take (length p) q) of
                  Inl e \<Rightarrow> Err (FBincode e)
                | Inr msg \<Rightarrow> Ok (Some (msg, HEADER_SIZE + length p))))"
proof -
  let ?h = "header_new ty (word_of_nat (length p))"
  have hd: "header_decode (take HEADER_SIZE (header_encode ?h @ q)) = ?h"
    and hd': "header_decode (header_encode ?h) = ?h"
    using header_decode_encode [of ?h "[]"] by simp_all
  have fields: "hd_magic ?h = MAGIC" "hd_version ?h = PROTOCOL_VERSION"
    "unat (hd_length ?h) = length p" "hd_message_type ?h = message_type_u16 ty"
    using assms by (simp_all add: header_new_def unat_payload_length)
  show ?thesis
    using assms
    by (simp add: decode_frame_def Let_def hd hd' fields not_less drop_take)
qed

lemma decode_short: "length buf < HEADER_SIZE \<Longrightarrow> decode_frame de buf = Ok None"
  by (simp add: decode_frame_def)

lemma decode_encode:
  assumes "wire_ok ser de m" and "encode_frame ser m = Ok bs"
  shows "decode_frame de (bs @ rest) = Ok (Some (m, length bs))"
proof -
  from assms(1) obtain p where p: "ser m = Ok p" "length p \<le> MAX_PAYLOAD_SIZE" "de p = Ok m"
    by (rule wire_okE)
  then have "bs = header_encode (header_new (message_type m) (word_of_nat (length p))) @ p"
    using assms(2) by (simp add: encode_frame_Ok)
  with p show ?thesis by (simp add: decode_header_prefix)
qed

lemma decode_strict_prefix:
  assumes "wire_ok ser de m" and "encode_frame ser m = Ok bs" and "strict_prefix q bs"
  shows "decode_frame de q = Ok None"
proof -
  from assms(1) obtain p where p: "ser m = Ok p" "length p \<le> MAX_PAYLOAD_SIZE" by (rule wire_okE)
  let ?h = "header_encode (header_new (message_type m) (word_of_nat (length p)))"
  have bs: "bs = ?h @ p" using p assms(2) by (simp add: encode_frame_Ok)
  show ?thesis
  proof (cases "length q < HEADER_SIZE")
    case True
    then show ?thesis by (rule decode_short)
  next
    case False
    from assms(3) bs obtain z where z: "?h @ p = q @ z" "z \<noteq> []"
      by (auto elim!: strict_prefixE')
    have "length ?h \<le> length q" using False by simp
    with z(1) obtain r where r: "q = ?h @ r" "p = r @ z"
      using append_split_prefix by blast
    with z(2) have "length r < length p" by simp
    with p(2) show ?thesis by (simp add: r(1) decode_header_prefix)
  qed
qed

interpretation frames: frame_codec "encode_frame ser" "decode_frame de" "wire_ok ser de"
  for ser de
proof
  show "\<exists>bs. encode_frame ser m = Ok bs" if "wire_ok ser de m" for m
    using that by (auto elim!: wire_okE simp: encode_frame_Ok)
qed (simp_all add: decode_encode decode_strict_prefix)

lemma encode_frame_nonempty: "encode_frame ser m = Ok bs \<Longrightarrow> bs \<noteq> []"
  by (auto simp: encode_frame_def header_encode_def header_new_def MAGIC_def
      split: sum.splits if_splits)

text \<open>A frame is twelve header bytes that announce the length of the rest.\<close>

lemma encode_frame_shape:
  assumes "wire_ok ser de m" and "encode_frame ser m = Ok bs"
  obtains h p where "bs = h @ p" "length h = HEADER_SIZE"
    "unat (hd_length (header_decode h)) = length p"
proof -
  from assms(1) obtain p where p: "ser m = Ok p" "length p \<le> MAX_PAYLOAD_SIZE" by (rule wire_okE)
  let ?h = "header_new (message_type m) (word_of_nat (length p))"
  have "bs = header_encode ?h @ p" using p assms(2) by (simp add: encode_frame_Ok)
  moreover have "header_decode (header_encode ?h) = ?h"
    using header_decode_encode [of ?h "[]"] by simp
  then have "unat (hd_length (header_decode (header_encode ?h))) = length p"
    using p(2) by (simp add: header_new_def unat_payload_length)
  ultimately show ?thesis by (intro that) simp_all
qed

text \<open>More input never changes a verdict that was reached.\<close>

lemma decode_frame_append:
  assumes "decode_frame de buf \<noteq> Ok None"
  shows "decode_frame de (buf @ rest) = decode_frame de buf"
proof -
  have len: "\<not> length buf < HEADER_SIZE" using assms decode_short by blast
  then have tk: "take HEADER_SIZE (buf @ rest) = take HEADER_SIZE buf" by simp
  show ?thesis
    using assms len
    by (auto simp: decode_frame_def Let_def tk split: if_splits option.splits sum.splits)
qed

lemma decode_frame_consumed:
  assumes "decode_frame de buf = Ok (Some (m, n))"
  shows "HEADER_SIZE \<le> n \<and> n \<le> length buf \<and> n \<le> HEADER_SIZE + MAX_PAYLOAD_SIZE"
  using assms
  by (auto simp: decode_frame_def Let_def split: if_splits option.splits sum.splits)

lemma decode_frame_take:
  assumes "decode_frame de buf = Ok (Some (m, n))"
  shows "decode_frame de (take n buf) = Ok (Some (m, n))"
  using assms
  by (auto simp: decode_frame_def Let_def min_def split: if_splits option.splits sum.splits)

section \<open>A concrete serialiser\<close>

text \<open>
  A serialiser of finitely many messages, by their position in a table: the parameters of the
  properties can be instantiated with it.
\<close>

fun table_ser :: "Message list \<Rightarrow> Message \<Rightarrow> string + bytes" where
  "table_ser [] m = Err ''unknown message''"
| "table_ser (x # xs) m = (if m = x then Ok [] else try_then (table_ser xs m) (\<lambda>b. Ok (0 # b)))"

fun table_de :: "Message list \<Rightarrow> bytes \<Rightarrow> string + Message" where
  "table_de [] b = Err ''unknown message''"
| "table_de (x # xs) b = (case b of [] \<Rightarrow> Ok x | _ # b' \<Rightarrow> table_de xs b')"

lemma table_round:
  "m \<in> set ms \<Longrightarrow> \<exists>b. table_ser ms m = Ok b \<and> length b < length ms \<and> table_de ms b = Ok m"
  by (induction ms) auto

lemma table_wire_ok: "m \<in> set ms \<Longrightarrow> length ms \<le> MAX_PAYLOAD_SIZE \<Longrightarrow> wire_ok (table_ser ms) (table_de ms) m"
  using table_round [of m ms] by (auto simp: wire_ok_def)

end
