(* ===== verification/MessageStream.thy ===== *)
theory MessageStream
  imports FrameCodec
begin

text \<open>
  Messages on a QUIC stream (\<open>crates/network/src/stream.rs\<close>) and the loops that pump them
  (\<open>crates/network/src/peer_loop.rs\<close>). A receive stream is the byte sequence it will deliver
  before it ends; \<open>read_exact\<close> fails when the stream ends early, with the error text \<open>eof\<close> of
  the I/O library. A stream that is written is a function from what it has taken to the outcome of the
  next \<open>write_all\<close>.
\<close>

section \<open>Interface of a message channel\<close>

text \<open>
  Reading returns the message that was written and leaves what follows; reading a stream that
  was cut inside a message fails.
\<close>

locale message_channel = records: record_channel wr "\<lambda>bs. Some (rd bs)" sendable
  for wr :: "'m \<Rightarrow> 'e + bytes"
    and rd :: "bytes \<Rightarrow> ('e + 'm) \<times> bytes"
    and sendable :: "'m \<Rightarrow> bool" +
  assumes rd_cut: "sendable m \<Longrightarrow> wr m = Ok bs \<Longrightarrow> strict_prefix p bs \<Longrightarrow> \<not> is_ok (fst (rd p))"
begin

lemmas wr_sendable = records.wr_sendable

lemma rd_wr: "sendable m \<Longrightarrow> wr m = Ok bs \<Longrightarrow> rd (bs @ rest) = (Ok m, rest)"
  using records.rd_wr by simp

lemma rd_cutE:
  assumes "sendable m" "wr m = Ok bs" "strict_prefix p bs"
  obtains e rest where "rd p = (Err e, rest)"
  using rd_cut [OF assms] by (cases "rd p"; cases "fst (rd p)") auto

end

section \<open>One message\<close>

text \<open>The bytes of a message, or why it cannot be encoded.\<close>

definition message_bytes :: "(Message \<Rightarrow> string + bytes) \<Rightarrow> Message \<Rightarrow> Error + bytes" where
  "message_bytes ser msg =
     map_err (\<lambda>e. EProtocol (''encode: '' @ frame_error_display e)) (encode_frame ser msg)"

text \<open>
  A stream that is written: from what it has taken so far and the bytes of a \<open>write_all\<close>, the outcome
  of the call and the bytes it took. By its documentation \<open>write_all\<close> takes all bytes when it succeeds;
  when it fails it may have taken the first of them.
\<close>

type_synonym writer = "bytes \<Rightarrow> bytes \<Rightarrow> (string + unit) \<times> bytes"

definition write_all_law :: "writer \<Rightarrow> bool" where
  "write_all_law wr \<longleftrightarrow>
     (\<forall>out bs. if is_ok (fst (wr out bs)) then snd (wr out bs) = bs else prefix (snd (wr out bs)) bs)"

definition write_everything :: writer where
  "write_everything out bs = (Ok (), bs)"

definition write_message ::
  "(Message \<Rightarrow> string + bytes) \<Rightarrow> writer \<Rightarrow> Message \<Rightarrow> bytes \<Rightarrow> (Error + unit) \<times> bytes" where
  "write_message ser wr msg out =
     (case message_bytes ser msg of
        Inl e \<Rightarrow> (Err e, out)
      | Inr bs \<Rightarrow>
          (case wr out bs of
             (Inl e, taken) \<Rightarrow> (Err (ENetwork (''write: '' @ e)), out @ taken)
           | (Inr _, taken) \<Rightarrow> (Ok (), out @ taken)))"

text \<open>\<open>read_exact\<close>: the bytes and the rest of the stream, or the error and nothing left.\<close>

definition read_exact :: "string \<Rightarrow> nat \<Rightarrow> bytes \<Rightarrow> (string + bytes) \<times> bytes" where
  "read_exact eof n input =
     (if n \<le> length input then (Ok (take n input), drop n input) else (Err eof, []))"

text \<open>
  The message and the rest of the stream. The payload buffer is allocated and filled before the
  header is checked, as in the source.
\<close>

definition read_message ::
  "string \<Rightarrow> (bytes \<Rightarrow> string + Message) \<Rightarrow> bytes \<Rightarrow> (Error + Message) \<times> bytes" where
  "read_message eof de input =
     (case read_exact eof HEADER_SIZE input of
        (Inl e, rest) \<Rightarrow> (Err (ENetwork (''read header: '' @ e)), rest)
      | (Inr header_buf, rest) \<Rightarrow>
          (let n = unat (hd_length (header_decode header_buf)) in
           case (if n = 0 then (Ok [], rest) else read_exact eof n rest) of
             (Inl e, rest') \<Rightarrow> (Err (ENetwork (''read payload: '' @ e)), rest')
           | (Inr payload, rest') \<Rightarrow>
               (case decode_frame de (header_buf @ payload) of
                  Inl e \<Rightarrow> (Err (EProtocol (''decode: '' @ frame_error_display e)), rest')
                | Inr None \<Rightarrow> (Err (EProtocol ''decode produced no message''), rest')
                | Inr (Some (msg, consumed)) \<Rightarrow> (Ok msg, rest'))))"

text \<open>The bytes of payload buffer that a call of \<open>read_message\<close> allocates.\<close>

definition read_message_alloc :: "bytes \<Rightarrow> nat" where
  "read_message_alloc input =
     (if HEADER_SIZE \<le> length input
      then unat (hd_length (header_decode (take HEADER_SIZE input))) else 0)"

section \<open>The loops of a connection\<close>

text \<open>
  \<open>read_loop\<close> forwards messages to the inbound channel until a read fails; the loops of the
  auxiliary streams have the same body.
\<close>

lemma read_message_progress:
  assumes "read_message eof de input = (Ok m, rest)"
  shows "length rest < length input"
  using assms
  by (auto simp: read_message_def read_exact_def Let_def HEADER_SIZE_def
      split: sum.splits prod.splits option.splits if_splits)

function read_loop :: "string \<Rightarrow> (bytes \<Rightarrow> string + Message) \<Rightarrow> bytes \<Rightarrow> Message list" where
  "read_loop eof de input =
     (case read_message eof de input of
        (Inr msg, rest) \<Rightarrow> msg # read_loop eof de rest
      | (Inl e, rest) \<Rightarrow> [])"
  by pat_completeness auto
termination
  by (relation "measure (\<lambda>(eof, de, input). length input)")
    (auto dest: read_message_progress [OF sym])

declare read_loop.simps [simp del]

text \<open>
  The loop of the writer over the messages that come out of its queue: it stops at the first one that
  cannot be encoded or written. \<open>write_loop\<close> is what it writes on a stream that takes everything.
\<close>

fun write_loop_io :: "(Message \<Rightarrow> string + bytes) \<Rightarrow> writer \<Rightarrow> Message list \<Rightarrow> bytes \<Rightarrow> bytes" where
  "write_loop_io ser wr [] out = out"
| "write_loop_io ser wr (m # ms) out =
     (case write_message ser wr m out of
        (Inl e, out') \<Rightarrow> out'
      | (Inr _, out') \<Rightarrow> write_loop_io ser wr ms out')"

fun write_loop :: "(Message \<Rightarrow> string + bytes) \<Rightarrow> Message list \<Rightarrow> bytes" where
  "write_loop ser [] = []"
| "write_loop ser (m # ms) =
     (case message_bytes ser m of
        Inl e \<Rightarrow> []
      | Inr bs \<Rightarrow> bs @ write_loop ser ms)"

section \<open>Facts\<close>

lemma write_everything_law [simp]: "write_all_law write_everything"
  by (simp add: write_all_law_def write_everything_def)

lemma write_message_everything [simp]:
  "write_message ser write_everything m out =
     (case message_bytes ser m of Inl e \<Rightarrow> (Err e, out) | Inr bs \<Rightarrow> (Ok (), out @ bs))"
  by (simp add: write_message_def write_everything_def split: sum.split)

lemma write_message_cases:
  assumes "write_all_law wr"
  obtains (encoding) e where "message_bytes ser m = Inl e" "write_message ser wr m out = (Err e, out)"
    | (failed) bs p e where "message_bytes ser m = Ok bs" "prefix p bs"
        "write_message ser wr m out = (Err (ENetwork (''write: '' @ e)), out @ p)"
    | (written) bs where "message_bytes ser m = Ok bs" "write_message ser wr m out = (Ok (), out @ bs)"
proof (cases "message_bytes ser m")
  case (Inl e)
  then show ?thesis by (intro encoding) (simp_all add: write_message_def)
next
  case (Inr bs)
  obtain r p where w: "wr out bs = (r, p)" by fastforce
  have "if is_ok (fst (wr out bs)) then snd (wr out bs) = bs else prefix (snd (wr out bs)) bs"
    using assms by (simp add: write_all_law_def)
  then show ?thesis
    using Inr w by (cases r) (auto simp: write_message_def intro: failed written)
qed

lemma write_message_written:
  assumes "write_all_law wr" and "write_message ser wr m out = (Ok (), out')"
  shows "\<exists>bs. message_bytes ser m = Ok bs \<and> out' = out @ bs"
  using assms(1)
  by (cases rule: write_message_cases [where ser = ser and m = m and out = out]) (use assms(2) in simp_all)

lemma write_message_failed:
  assumes "write_all_law wr" and "write_message ser wr m out = (Inl e, out')"
  shows "\<exists>p. out' = out @ p \<and> prefix p (write_loop ser [m])"
  using assms(1)
  by (cases rule: write_message_cases [where ser = ser and m = m and out = out]) (use assms(2) in simp_all)

lemma write_loop_io_everything: "write_loop_io ser write_everything ms out = out @ write_loop ser ms"
  by (induction ms arbitrary: out) (auto split: sum.split)

lemma write_loop_io_prefix:
  assumes "write_all_law wr"
  shows "\<exists>p. write_loop_io ser wr ms out = out @ p \<and> prefix p (write_loop ser ms)"
proof (induction ms arbitrary: out)
  case (Cons m ms)
  from assms show ?case
  proof (cases rule: write_message_cases [where ser = ser and m = m and out = out])
    case (written bs)
    with Cons.IH [of "out @ bs"] show ?thesis by auto
  qed auto
qed simp

lemma message_bytes_Ok: "message_bytes ser m = Ok bs \<longleftrightarrow> encode_frame ser m = Ok bs"
  by (simp add: message_bytes_def)

lemma read_message_decode:
  assumes "wire_ok ser de m" and "message_bytes ser m = Ok bs"
  shows "read_message eof de (bs @ rest) = (Ok m, rest)"
proof -
  have enc: "encode_frame ser m = Ok bs" using assms(2) by (simp add: message_bytes_Ok)
  obtain h p where hp: "bs = h @ p" "length h = HEADER_SIZE"
    "unat (hd_length (header_decode h)) = length p"
    using encode_frame_shape [OF assms(1) enc] .
  have "decode_frame de (h @ p) = Ok (Some (m, length bs))"
    using decode_encode [OF assms(1) enc, of "[]"] hp by simp
  then show ?thesis
    using hp by (cases "p = []") (simp_all add: read_message_def read_exact_def Let_def)
qed

lemma read_message_cut:
  assumes "wire_ok ser de m" and "message_bytes ser m = Ok bs" and "strict_prefix q bs"
  shows "\<not> is_ok (fst (read_message eof de q))"
proof (cases "length q < HEADER_SIZE")
  case True
  then show ?thesis by (simp add: read_message_def read_exact_def)
next
  case False
  have enc: "encode_frame ser m = Ok bs" using assms(2) by (simp add: message_bytes_Ok)
  obtain h p where hp: "bs = h @ p" "length h = HEADER_SIZE"
    "unat (hd_length (header_decode h)) = length p"
    using encode_frame_shape [OF assms(1) enc] .
  from assms(3) hp obtain z where z: "h @ p = q @ z" "z \<noteq> []"
    by (auto elim!: strict_prefixE')
  moreover have "length h \<le> length q" using False hp by simp
  ultimately obtain r where "q = h @ r" "p = r @ z"
    using append_split_prefix by blast
  then show ?thesis
    using hp z(2) by (simp add: read_message_def read_exact_def Let_def)
qed

interpretation stream: message_channel
  "message_bytes ser" "read_message eof de" "wire_ok ser de" for ser eof de
proof
  show "\<exists>bs. message_bytes ser m = Ok bs" if "wire_ok ser de m" for m
    using frames.enc_sendable [OF that] by (simp add: message_bytes_Ok)
qed (simp_all add: read_message_decode read_message_cut)

lemma read_loop_Ok: "read_message eof de input = (Ok m, rest) \<Longrightarrow>
    read_loop eof de input = m # read_loop eof de rest"
  by (subst read_loop.simps) simp

lemma read_loop_Err: "\<not> is_ok (fst (read_message eof de input)) \<Longrightarrow> read_loop eof de input = []"
  by (subst read_loop.simps) (auto split: prod.splits sum.splits)

lemma read_loop_Nil: "read_loop eof de [] = []"
  by (rule read_loop_Err) (simp add: read_message_def read_exact_def HEADER_SIZE_def)

lemma read_write_loop_append:
  assumes "list_all (wire_ok ser de) ms"
  shows "read_loop eof de (write_loop ser ms @ rest) = ms @ read_loop eof de rest"
  using assms
proof (induction ms)
  case (Cons m ms)
  then obtain bs where bs: "message_bytes ser m = Ok bs"
    using stream.wr_sendable by fastforce
  with Cons.prems have
    "read_message eof de (bs @ write_loop ser ms @ rest) = (Ok m, write_loop ser ms @ rest)"
    by (intro stream.rd_wr [of ser]) simp_all
  with Cons bs show ?case by (simp add: read_loop_Ok)
qed simp

end
