(* ===== verification/WireProperties.thy ===== *)
theory WireProperties
  imports MessageStream
begin

text \<open>
  The properties of the wire: header, frames and streams together. The serialiser is a pair of
  parameters throughout; the witnesses instantiate it with the table serialiser.
\<close>

section \<open>Sample messages\<close>

definition sample_messages :: "Message list" where
  "sample_messages = [M_Ping 1 2, M_MouseMove 3 4, M_Pong 1 2]"

abbreviation sample_ser :: "Message \<Rightarrow> string + bytes" where
  "sample_ser \<equiv> table_ser sample_messages"

abbreviation sample_de :: "bytes \<Rightarrow> string + Message" where
  "sample_de \<equiv> table_de sample_messages"

lemma sample_ok: "m \<in> set sample_messages \<Longrightarrow> wire_ok sample_ser sample_de m"
  by (rule table_wire_ok) (simp_all add: sample_messages_def MAX_PAYLOAD_SIZE_def)

lemma sample_all_ok: "list_all (wire_ok sample_ser sample_de) sample_messages"
  by (simp add: list_all_iff sample_ok)

lemma sample_ser_values:
  "sample_ser (M_Ping 1 2) = Ok []" "sample_ser (M_MouseMove 3 4) = Ok [0]"
  "sample_ser (M_Pong 1 2) = Ok [0, 0]"
  by (simp_all add: sample_messages_def)

section \<open>Header\<close>

text \<open>
  The header codec is a bijection between well-formed headers and strings of twelve bytes, and
  the table of message types is a bijection between the types and the identifiers it accepts.
\<close>

theorem header_bijection:
  "bij_betw header_encode {h. header_wf h} {bs. length bs = HEADER_SIZE} \<and>
   (\<forall>bs. length bs = HEADER_SIZE \<longrightarrow> header_wf (header_decode bs) \<and> header_encode (header_decode bs) = bs) \<and>
   (\<forall>v t. message_type_from_u16 v = Some t \<longleftrightarrow> message_type_u16 t = v)"
proof (intro conjI)
  show "\<forall>bs. length bs = HEADER_SIZE \<longrightarrow> header_wf (header_decode bs) \<and> header_encode (header_decode bs) = bs"
    by (simp add: header_encode_decode) (simp add: header_wf_def header_decode_def HEADER_SIZE_def)
  then show "bij_betw header_encode {h. header_wf h} {bs. length bs = HEADER_SIZE}"
    by (intro bij_betw_byWitness [where f' = header_decode])
      (auto simp: header_decode_encode [of _ "[]", simplified])
  show "\<forall>v t. message_type_from_u16 v = Some t \<longleftrightarrow> message_type_u16 t = v"
    using message_type_to_from message_type_from_to by metis
qed

theorem header_bijection_witness:
  "header_encode (header_decode [1, 2, 3, 4, 5, 6, 7, 8, 9, 10, 11, 12]) =
     [1, 2, 3, 4, 5, 6, 7, 8, 9, 10, 11, 12]"
  using header_bijection by (simp add: HEADER_SIZE_def)

section \<open>Frames\<close>

text \<open>
  C9: Frames: a message the serialiser reads back is appended by \<open>write_frame\<close> as one frame, the
  bytes of \<open>encode_frame\<close>; with anything behind it the frame decodes to the message and its exact
  length, and every proper prefix asks for more bytes.
\<close>

theorem frame_roundtrip:
  assumes "wire_ok ser de m" and "write_frame ser buf m = (Ok (), buf')"
  shows "\<exists>bs. buf' = buf @ bs \<and> encode_frame ser m = Ok bs \<and>
    (\<forall>rest. decode_frame de (bs @ rest) = Ok (Some (m, length bs))) \<and>
    (\<forall>p. strict_prefix p bs \<longrightarrow> decode_frame de p = Ok None)"
proof -
  obtain bs where bs: "encode_frame ser m = Ok bs" using frames.enc_sendable [OF assms(1)] by blast
  then have "buf' = buf @ bs"
    using assms(2) by (auto simp: write_frame_def encode_frame_def Let_def split: sum.splits if_splits)
  with bs frames.dec_enc [OF assms(1) bs] frames.dec_prefix [OF assms(1) bs] show ?thesis by blast
qed

theorem frame_roundtrip_witness:
  "\<exists>bs. snd (write_frame sample_ser [9, 9] (M_Ping 1 2)) = [9, 9] @ bs \<and>
     decode_frame sample_de (bs @ [7]) = Ok (Some (M_Ping 1 2, length bs))"
proof -
  have w: "write_frame sample_ser [9, 9] (M_Ping 1 2) =
      (Ok (), snd (write_frame sample_ser [9, 9] (M_Ping 1 2)))"
    by (simp add: write_frame_def sample_ser_values Let_def)
  have "M_Ping 1 2 \<in> set sample_messages" by (simp add: sample_messages_def)
  from frame_roundtrip [OF sample_ok [OF this] w] show ?thesis by blast
qed

text \<open>
  A byte string splits into frames in one way only: two sequences of messages whose frames
  concatenate to the same bytes are the same sequence.
\<close>

theorem frames_split_uniquely:
  assumes "list_all (wire_ok ser de) ms" and "list_all (wire_ok ser de) ns"
    and "list_all2 (\<lambda>m bs. encode_frame ser m = Ok bs) ms as"
    and "list_all2 (\<lambda>m bs. encode_frame ser m = Ok bs) ns bss" and "concat as = concat bss"
  shows "ms = ns"
  using assms by (rule frames.unique_parse) (rule encode_frame_nonempty)

theorem frames_split_uniquely_witness:
  "\<exists>as. list_all2 (\<lambda>m bs. encode_frame sample_ser m = Ok bs) sample_messages as \<and>
     (\<forall>ns bss. list_all (wire_ok sample_ser sample_de) ns \<longrightarrow>
        list_all2 (\<lambda>m bs. encode_frame sample_ser m = Ok bs) ns bss \<longrightarrow> concat as = concat bss \<longrightarrow>
        sample_messages = ns)"
proof -
  have "list_all2 (\<lambda>m bs. encode_frame sample_ser m = Ok bs) sample_messages
      (map (\<lambda>m. case encode_frame sample_ser m of Inr bs \<Rightarrow> bs | Inl _ \<Rightarrow> []) sample_messages)"
    using frames.enc_sendable [OF sample_ok]
    by (auto simp: list_all2_map2 intro!: list.rel_refl_strong split: sum.splits) fastforce
  with frames_split_uniquely [OF sample_all_ok] show ?thesis by blast
qed

text \<open>
  A verdict of the decoder is final: once it is not "more bytes needed", further input does not
  change it; a decoded frame is within the buffer and within the size cap, and is decoded from its
  own bytes alone.
\<close>

theorem decode_verdict_final:
  assumes "decode_frame de buf \<noteq> Ok None"
  shows "decode_frame de (buf @ rest) = decode_frame de buf \<and>
    (\<forall>m n. decode_frame de buf = Ok (Some (m, n)) \<longrightarrow>
       HEADER_SIZE \<le> n \<and> n \<le> length buf \<and> n \<le> HEADER_SIZE + MAX_PAYLOAD_SIZE \<and>
       decode_frame de (take n buf) = Ok (Some (m, n)))"
  using decode_frame_append [OF assms] decode_frame_consumed decode_frame_take by blast

theorem decode_verdict_final_witness:
  "decode_frame sample_de ([0, 0, 0, 0, 0, 0, 0, 0, 0, 0, 0, 0] @ [1, 2, 3]) = Err (FBadMagic [0, 0, 0, 0])"
proof -
  have bad: "decode_frame sample_de [0, 0, 0, 0, 0, 0, 0, 0, 0, 0, 0, 0] = Err (FBadMagic [0, 0, 0, 0])"
    by (simp add: decode_frame_def header_decode_def HEADER_SIZE_def MAGIC_def Let_def)
  have "decode_frame sample_de [0, 0, 0, 0, 0, 0, 0, 0, 0, 0, 0, 0] \<noteq> Ok None" unfolding bad by simp
  from decode_verdict_final [OF this] show ?thesis by (simp add: bad)
qed

text \<open>
  The type in the header is only looked up, never compared with the payload: whatever known type
  the header names, a payload that reads as some message is delivered as that message.
\<close>

theorem header_type_not_compared:
  assumes "de p = Ok m" and "length p \<le> MAX_PAYLOAD_SIZE"
  shows "decode_frame de (header_encode (header_new ty (word_of_nat (length p))) @ p @ rest) =
    Ok (Some (m, HEADER_SIZE + length p))"
  using assms by (simp add: decode_header_prefix)

theorem header_type_not_compared_witness:
  "decode_frame sample_de (header_encode (header_new T_KeyEvent 1) @ [0] @ []) =
     Ok (Some (M_MouseMove 3 4, HEADER_SIZE + 1)) \<and> message_type (M_MouseMove 3 4) \<noteq> T_KeyEvent"
  using header_type_not_compared [of sample_de "[0]" "M_MouseMove 3 4" T_KeyEvent "[]"]
  by (simp add: sample_messages_def MAX_PAYLOAD_SIZE_def)

section \<open>Streams\<close>

text \<open>
  A control stream is a reliable queue: the reader delivers exactly the messages the writer took
  from its queue, in order, each once, also when the stream ends inside a further message, which
  is then lost as a whole.
\<close>

theorem stream_fifo:
  assumes "list_all (wire_ok ser de) ms" and "wire_ok ser de m" and "message_bytes ser m = Ok bs"
    and "strict_prefix q bs"
  shows "read_loop eof de (write_loop ser ms @ q) = ms"
  using read_write_loop_append [OF assms(1)] read_loop_Err [OF stream.rd_cut [OF assms(2-4)]] by simp

theorem stream_fifo_witness:
  "read_loop ''eof'' sample_de (write_loop sample_ser [M_Ping 1 2, M_MouseMove 3 4] @ []) =
     [M_Ping 1 2, M_MouseMove 3 4]"
proof -
  have ok: "wire_ok sample_ser sample_de (M_Pong 1 2)" "list_all (wire_ok sample_ser sample_de) [M_Ping 1 2, M_MouseMove 3 4]"
    by (simp_all add: sample_ok sample_messages_def [THEN arg_cong [where f = set]])
  obtain bs where bs: "message_bytes sample_ser (M_Pong 1 2) = Ok bs" using stream.wr_sendable [OF ok(1)] by blast
  then have "strict_prefix [] bs"
    using encode_frame_nonempty [of sample_ser "M_Pong 1 2" bs] by (cases bs) (simp_all add: message_bytes_Ok)
  from stream_fifo [OF ok(2,1) bs this] show ?thesis .
qed

text \<open>
  Twelve bytes are enough to make the reader allocate any amount up to 4 GiB: the payload buffer
  has the length the header names, far beyond the cap of a frame, before anything in the header is
  checked; the read then fails.
\<close>

theorem read_allocates_unchecked:
  assumes "length magic = 4" and "MAX_PAYLOAD_SIZE < unat len"
    and "header_encode \<lparr>hd_magic = magic, hd_version = v, hd_message_type = ty, hd_length = len\<rparr> = h"
  shows "read_message_alloc h = unat len \<and> length h = 12 \<and>
    \<not> is_ok (fst (read_message eof de (h @ rest)))"
proof -
  let ?H = "\<lparr>hd_magic = magic, hd_version = v, hd_message_type = ty, hd_length = len\<rparr>"
  have wf: "header_wf ?H" using assms(1) by (simp add: header_wf_def)
  have len: "length h = HEADER_SIZE" using length_header_encode [OF wf] assms(3) by simp
  have dec: "header_decode h = ?H" using header_decode_encode [OF wf, of "[]"] assms(3) by simp
  have "\<not> is_ok (fst (read_message eof de (h @ rest)))"
  proof (cases "unat len \<le> length rest")
    case True
    have "header_decode (take HEADER_SIZE (h @ take (unat len) rest)) = ?H" using len dec by simp
    then have "\<not> is_ok (decode_frame de (h @ take (unat len) rest))"
      using assms(2) len by (simp add: decode_frame_def Let_def)
    then show ?thesis
      using True assms(2) len dec
      by (auto simp: read_message_def read_exact_def Let_def split: sum.splits option.splits)
  next
    case False
    then show ?thesis
      using assms(2) len dec by (simp add: read_message_def read_exact_def Let_def)
  qed
  then show ?thesis using len dec by (simp add: read_message_alloc_def HEADER_SIZE_def)
qed

theorem read_allocates_unchecked_witness:
  "read_message_alloc (header_encode \<lparr>hd_magic = [0, 0, 0, 0], hd_version = 0, hd_message_type = 0,
     hd_length = 0xFFFFFFFF\<rparr>) = 4294967295"
  using read_allocates_unchecked [OF _ _ refl, of "[0, 0, 0, 0]" "0xFFFFFFFF" 0 0]
  by (simp add: MAX_PAYLOAD_SIZE_def)

end
