(* ===== verification/EdgeRouting.thy ===== *)
theory EdgeRouting
  imports InputEvents
begin

text \<open>
  Cursor edge detection and routing (\<open>crates/daemon/src/edge.rs\<close>): the route, the decision the
  orchestrator must act on, and the edge detector that computes both from input events.
\<close>

section \<open>Routes and decisions\<close>

datatype Route = Local | Remote ScreenId

datatype RouteDecision =
    Stay
  | EnterRemote (er_screen: ScreenId) (er_entry: Point) (er_local_warp: Point)
      (er_modifiers: ModifierState)
  | LeaveRemote (lr_screen: ScreenId)

datatype ForwardTo = FwdLocal | FwdRemote

definition is_remote :: "Route \<Rightarrow> bool" where
  "is_remote r = (case r of Local \<Rightarrow> False | Remote _ \<Rightarrow> True)"

lemma is_remote_simps [simp]: "\<not> is_remote Local" "is_remote (Remote s)"
  by (simp_all add: is_remote_def)

lemma not_is_remote [simp]: "\<not> is_remote r \<longleftrightarrow> r = Local"
  by (cases r) simp_all

text \<open>A decision reports exactly the change of route that happened.\<close>

fun decision_reports :: "RouteDecision \<Rightarrow> Route \<Rightarrow> Route \<Rightarrow> bool" where
  "decision_reports Stay r r' \<longleftrightarrow> r' = r"
| "decision_reports (EnterRemote s _ _ _) r r' \<longleftrightarrow> r = Local \<and> r' = Remote s"
| "decision_reports (LeaveRemote s) r r' \<longleftrightarrow> r = Remote s \<and> r' = Local"

text \<open>The value of the capture switch once a decision has been acted on.\<close>

fun capture_after :: "RouteDecision \<Rightarrow> bool \<Rightarrow> bool" where
  "capture_after Stay c = c"
| "capture_after (EnterRemote _ _ _ _) c = True"
| "capture_after (LeaveRemote _) c = False"

section \<open>Interface of a router\<close>

text \<open>
  What the session orchestrator relies on: the forwarding flag agrees with the new route, the
  decision reports the change of route, and forcing local always ends in the local route.
\<close>

locale router =
  fixes observe :: "'s \<Rightarrow> InputEvent \<Rightarrow> (RouteDecision \<times> ForwardTo) \<times> 's"
    and force_local :: "'s \<Rightarrow> RouteDecision \<times> 's"
    and route :: "'s \<Rightarrow> Route"
  assumes observe_forward:
      "observe s ev = ((d, f), s') \<Longrightarrow> f = FwdRemote \<longleftrightarrow> is_remote (route s')"
    and observe_reports:
      "observe s ev = ((d, f), s') \<Longrightarrow> decision_reports d (route s) (route s')"
    and force_route: "force_local s = (d, s') \<Longrightarrow> route s' = Local"
    and force_reports: "force_local s = (d, s') \<Longrightarrow> decision_reports d (route s) (route s')"
begin

lemma reports_capture:
  "decision_reports d r r' \<Longrightarrow> c = is_remote r \<Longrightarrow> capture_after d c = is_remote r'"
  by (cases d) auto

text \<open>Acting on the decision keeps the capture switch in step with the route.\<close>

lemma observe_capture:
  "observe s ev = ((d, f), s') \<Longrightarrow> c = is_remote (route s) \<Longrightarrow>
   capture_after d c = is_remote (route s')"
  by (rule reports_capture [OF observe_reports])

lemma force_capture:
  assumes "force_local s = (d, s')" and "c = is_remote (route s)"
  shows "capture_after d c = False"
proof -
  have "capture_after d c = is_remote (route s')"
    using assms by (intro reports_capture [OF force_reports])
  then show ?thesis using force_route [OF assms(1)] by simp
qed

lemma force_decision:
  "force_local s = (d, s') \<Longrightarrow>
   d = (case route s of Local \<Rightarrow> Stay | Remote scr \<Rightarrow> LeaveRemote scr)"
  using force_reports [of s d s'] force_route [of s d s']
  by (cases d; cases "route s") auto

end

section \<open>The edge detector\<close>

record EdgeDetector =
  ed_local :: ScreenId
  ed_local_width :: i32
  ed_local_height :: i32
  ed_layout :: ScreenLayout
  ed_route :: Route
  ed_last_point :: Point
  ed_modifiers :: ModifierState
  ed_edge_threshold :: i32
  ed_auto_peer :: "ScreenId option"

definition edge_new :: "ScreenId \<Rightarrow> i32 \<Rightarrow> i32 \<Rightarrow> ScreenLayout \<Rightarrow> EdgeDetector" where
  "edge_new local w h layout =
     \<lparr>ed_local = local, ed_local_width = w, ed_local_height = h, ed_layout = layout,
      ed_route = Local, ed_last_point = mk_point 0 0, ed_modifiers = mod_empty,
      ed_edge_threshold = 1, ed_auto_peer = None\<rparr>"

definition set_auto_peer :: "EdgeDetector \<Rightarrow> ScreenId option \<Rightarrow> EdgeDetector" where
  "set_auto_peer ed peer = ed\<lparr>ed_auto_peer := peer\<rparr>"

definition set_modifiers :: "EdgeDetector \<Rightarrow> ModifierState \<Rightarrow> EdgeDetector" where
  "set_modifiers ed m = ed\<lparr>ed_modifiers := m\<rparr>"

definition edge_force_local :: "EdgeDetector \<Rightarrow> RouteDecision \<times> EdgeDetector" where
  "edge_force_local ed =
     (case ed_route ed of
        Local \<Rightarrow> (Stay, ed)
      | Remote screen \<Rightarrow> (LeaveRemote screen, ed\<lparr>ed_route := Local\<rparr>))"

definition cross_local_edge :: "EdgeDetector \<Rightarrow> Point \<Rightarrow> (EdgeSide \<times> Point) option" where
  "cross_local_edge ed p =
     (if pt_x p <=s ed_edge_threshold ed then Some (EdgeLeft, p)
      else if ed_local_width ed - ed_edge_threshold ed <=s pt_x p then Some (EdgeRight, p)
      else if pt_y p <=s ed_edge_threshold ed then Some (EdgeTop, p)
      else if ed_local_height ed - ed_edge_threshold ed <=s pt_y p then Some (EdgeBottom, p)
      else None)"

fun entry_point :: "EdgeSide \<Rightarrow> Point \<Rightarrow> Point" where
  "entry_point EdgeLeft p = mk_point 32000 (pt_y p)"
| "entry_point EdgeRight p = mk_point 0 (pt_y p)"
| "entry_point EdgeTop p = mk_point (pt_x p) 32000"
| "entry_point EdgeBottom p = mk_point (pt_x p) 0"

fun warp_back_inside :: "EdgeSide \<Rightarrow> i32 \<Rightarrow> i32 \<Rightarrow> Point" where
  "warp_back_inside EdgeLeft w h = mk_point 2 (i32_div h 2)"
| "warp_back_inside EdgeRight w h = mk_point (w - 2) (i32_div h 2)"
| "warp_back_inside EdgeTop w h = mk_point (i32_div w 2) 2"
| "warp_back_inside EdgeBottom w h = mk_point (i32_div w 2) (h - 2)"

text \<open>The update of the tracked modifiers that precedes the routing match of \<open>observe\<close>.\<close>

definition observe_modifiers :: "EdgeDetector \<Rightarrow> InputEvent \<Rightarrow> EdgeDetector" where
  "observe_modifiers ed ev =
     (case ev of
        Key k \<Rightarrow> ed\<lparr>ed_modifiers := ke_modifiers k\<rparr>
      | EvModifierSync m \<Rightarrow> ed\<lparr>ed_modifiers := m\<rparr>
      | _ \<Rightarrow> ed)"

text \<open>The neighbour a crossing leads to: the layout entry first, then the auto-peer.\<close>

definition crossing_target :: "EdgeDetector \<Rightarrow> EdgeSide \<Rightarrow> ScreenId option" where
  "crossing_target ed side =
     (case neighbour_of (ed_layout ed) (ed_local ed) side of
        Some s \<Rightarrow> Some s
      | None \<Rightarrow> ed_auto_peer ed)"

definition edge_observe ::
  "EdgeDetector \<Rightarrow> InputEvent \<Rightarrow> (RouteDecision \<times> ForwardTo) \<times> EdgeDetector" where
  "edge_observe ed0 ev =
     (let ed = observe_modifiers ed0 ev in
      case move_target ev of
        Some p \<Rightarrow>
          (let ed = ed\<lparr>ed_last_point := p\<rparr> in
           case ed_route ed of
             Local \<Rightarrow>
               (case cross_local_edge ed (ed_last_point ed) of
                  Some (side, edge_point) \<Rightarrow>
                    (case crossing_target ed side of
                       Some remote \<Rightarrow>
                         (let entry = entry_point side edge_point;
                              warp = warp_back_inside side (ed_local_width ed) (ed_local_height ed)
                          in ((EnterRemote remote entry warp (ed_modifiers ed), FwdRemote),
                              ed\<lparr>ed_route := Remote remote\<rparr>))
                     | None \<Rightarrow> ((Stay, FwdLocal), ed))
                | None \<Rightarrow> ((Stay, FwdLocal), ed))
           | Remote _ \<Rightarrow> ((Stay, FwdRemote), ed))
      | None \<Rightarrow>
          (case ed_route ed of
             Local \<Rightarrow> ((Stay, FwdLocal), ed)
           | Remote _ \<Rightarrow> ((Stay, FwdRemote), ed)))"

text \<open>A sequence of observed events.\<close>

definition edge_run :: "EdgeDetector \<Rightarrow> InputEvent list \<Rightarrow> EdgeDetector" where
  "edge_run ed evs = fold (\<lambda>ev s. snd (edge_observe s ev)) evs ed"

section \<open>Facts\<close>

lemmas edge_defs = edge_observe_def observe_modifiers_def Let_def

lemma observe_modifiers_frame [simp]:
  "ed_route (observe_modifiers ed ev) = ed_route ed"
  "ed_local_width (observe_modifiers ed ev) = ed_local_width ed"
  "ed_local_height (observe_modifiers ed ev) = ed_local_height ed"
  "ed_layout (observe_modifiers ed ev) = ed_layout ed"
  "ed_local (observe_modifiers ed ev) = ed_local ed"
  "ed_auto_peer (observe_modifiers ed ev) = ed_auto_peer ed"
  "ed_edge_threshold (observe_modifiers ed ev) = ed_edge_threshold ed"
  by (simp_all add: observe_modifiers_def split: InputEvent.split)

lemma observe_modifiers_move [simp]:
  "move_target ev = Some p \<Longrightarrow> observe_modifiers ed ev = ed"
  by (auto simp: observe_modifiers_def move_target_def split: InputEvent.splits)

lemma cross_local_edge_cong [simp]:
  "cross_local_edge (ed\<lparr>ed_last_point := q\<rparr>) p = cross_local_edge ed p"
  by (simp add: cross_local_edge_def)

lemma crossing_target_cong [simp]:
  "crossing_target (ed\<lparr>ed_last_point := q\<rparr>) side = crossing_target ed side"
  by (simp add: crossing_target_def split: option.split)

lemma cross_local_edge_point: "cross_local_edge ed p = Some (side, q) \<Longrightarrow> q = p"
  by (auto simp: cross_local_edge_def split: if_splits)

text \<open>The four ways an event is observed.\<close>

lemma observe_remote:
  "ed_route ed = Remote s \<Longrightarrow>
   \<exists>ed'. edge_observe ed ev = ((Stay, FwdRemote), ed') \<and> ed_route ed' = Remote s"
  by (auto simp: edge_observe_def Let_def split: option.split)

lemma observe_local_other:
  "ed_route ed = Local \<Longrightarrow> move_target ev = None \<Longrightarrow>
   edge_observe ed ev = ((Stay, FwdLocal), observe_modifiers ed ev)"
  by (simp add: edge_observe_def Let_def)

lemma observe_local_inside:
  assumes "ed_route ed = Local" "move_target ev = Some p"
    and "cross_local_edge ed p = None \<or>
         (\<exists>side q. cross_local_edge ed p = Some (side, q) \<and> crossing_target ed side = None)"
  shows "edge_observe ed ev = ((Stay, FwdLocal), ed\<lparr>ed_last_point := p\<rparr>)"
  using assms by (auto simp: edge_observe_def Let_def)

lemma observe_crossing:
  assumes "ed_route ed = Local" "move_target ev = Some p"
    and "cross_local_edge ed p = Some (side, q)" "crossing_target ed side = Some s"
  shows "edge_observe ed ev =
    ((EnterRemote s (entry_point side p)
        (warp_back_inside side (ed_local_width ed) (ed_local_height ed)) (ed_modifiers ed), FwdRemote),
     ed\<lparr>ed_last_point := p, ed_route := Remote s\<rparr>)"
  using assms cross_local_edge_point [OF assms(3)] by (simp add: edge_observe_def Let_def)

lemma observe_cases:
  obtains (remote) s ed' where "ed_route ed = Remote s"
      "edge_observe ed ev = ((Stay, FwdRemote), ed')" "ed_route ed' = Remote s"
    | (stay) ed' where "ed_route ed = Local" "edge_observe ed ev = ((Stay, FwdLocal), ed')"
      "ed_route ed' = Local"
    | (cross) p side s ed' where "ed_route ed = Local" "move_target ev = Some p"
      "cross_local_edge ed p = Some (side, p)" "crossing_target ed side = Some s"
      "edge_observe ed ev =
        ((EnterRemote s (entry_point side p)
            (warp_back_inside side (ed_local_width ed) (ed_local_height ed)) (ed_modifiers ed),
          FwdRemote), ed')" "ed_route ed' = Remote s"
proof (cases "ed_route ed")
  case (Remote s)
  with observe_remote [OF Remote, of ev] show thesis using that(1) by blast
next
  case Local
  show thesis
  proof (cases "move_target ev")
    case None
    with Local show thesis using observe_local_other that(2) by fastforce
  next
    case (Some p)
    show thesis
    proof (cases "\<exists>side q s. cross_local_edge ed p = Some (side, q) \<and> crossing_target ed side = Some s")
      case True
      then obtain side q s where c: "cross_local_edge ed p = Some (side, q)"
        "crossing_target ed side = Some s" by blast
      with cross_local_edge_point have "q = p" by blast
      with c show thesis
        using that(3) [OF Local Some _ c(2) observe_crossing [OF Local Some c]] by simp
    next
      case False
      then have "cross_local_edge ed p = None \<or>
        (\<exists>side q. cross_local_edge ed p = Some (side, q) \<and> crossing_target ed side = None)"
        by (cases "cross_local_edge ed p") auto
      from observe_local_inside [OF Local Some this] Local show thesis using that(2) by simp
    qed
  qed
qed

interpretation edge: router edge_observe edge_force_local ed_route
proof
  fix s ev d f s' assume eq: "edge_observe s ev = ((d, f), s')"
  show "(f = FwdRemote) = is_remote (ed_route s')"
    by (rule observe_cases [of s ev]) (use eq in simp_all)
  show "decision_reports d (ed_route s) (ed_route s')"
    by (rule observe_cases [of s ev]) (use eq in simp_all)
next
  fix s d s' assume "edge_force_local s = (d, s')"
  then show "ed_route s' = Local" and "decision_reports d (ed_route s) (ed_route s')"
    by (auto simp: edge_force_local_def split: Route.splits)
qed

lemma edge_run_simps [simp]:
  "edge_run ed [] = ed"
  "edge_run ed (ev # evs) = edge_run (snd (edge_observe ed ev)) evs"
  by (simp_all add: edge_run_def)

lemma edge_run_remote: "ed_route ed = Remote s \<Longrightarrow> ed_route (edge_run ed evs) = Remote s"
proof (induction evs arbitrary: ed)
  case (Cons ev evs)
  from observe_remote [OF Cons.prems, of ev] have "ed_route (snd (edge_observe ed ev)) = Remote s"
    by auto
  then show ?case by (simp add: Cons.IH)
qed simp

text \<open>Events do not touch the geometry, the layout or the auto-peer.\<close>

lemma observe_frame [simp]:
  "ed_local_width (snd (edge_observe ed ev)) = ed_local_width ed"
  "ed_local_height (snd (edge_observe ed ev)) = ed_local_height ed"
  "ed_layout (snd (edge_observe ed ev)) = ed_layout ed"
  "ed_local (snd (edge_observe ed ev)) = ed_local ed"
  "ed_auto_peer (snd (edge_observe ed ev)) = ed_auto_peer ed"
  "ed_edge_threshold (snd (edge_observe ed ev)) = ed_edge_threshold ed"
  by (simp_all add: edge_observe_def Let_def split: option.split Route.split)

section \<open>Geometry\<close>

text \<open>The signed reading of the four comparisons, for a screen of positive size.\<close>

lemma cross_local_edge_int:
  assumes "ed_edge_threshold ed = 1" "1 \<le> sint (ed_local_width ed)" "1 \<le> sint (ed_local_height ed)"
  shows "cross_local_edge ed p =
    (if sint (pt_x p) \<le> 1 then Some (EdgeLeft, p)
     else if sint (ed_local_width ed) - 1 \<le> sint (pt_x p) then Some (EdgeRight, p)
     else if sint (pt_y p) \<le> 1 then Some (EdgeTop, p)
     else if sint (ed_local_height ed) - 1 \<le> sint (pt_y p) then Some (EdgeBottom, p)
     else None)"
proof -
  have "sint (ed_local_width ed - 1) = sint (ed_local_width ed) - 1"
    "sint (ed_local_height ed - 1) = sint (ed_local_height ed) - 1"
    using assms i32_bounds [of "ed_local_width ed"] i32_bounds [of "ed_local_height ed"]
    by (simp_all add: sint_diff32)
  then show ?thesis
    using assms(1) by (simp add: cross_local_edge_def word_sle_eq)
qed

lemma warp_point_int:
  assumes "4 \<le> sint w" "4 \<le> sint h"
  shows "1 < sint (pt_x (warp_back_inside side w h))"
    and "sint (pt_x (warp_back_inside side w h)) < sint w - 1"
    and "1 < sint (pt_y (warp_back_inside side w h))"
    and "sint (pt_y (warp_back_inside side w h)) < sint h - 1"
proof -
  have "sint (w - 2) = sint w - 2" "sint (h - 2) = sint h - 2"
    using assms i32_bounds [of w] i32_bounds [of h] by (simp_all add: sint_diff32)
  moreover have "sint (i32_div w 2) = sint w div 2" "sint (i32_div h 2) = sint h div 2"
    using assms by (simp_all add: sint_i32_half)
  ultimately show "1 < sint (pt_x (warp_back_inside side w h))"
    "sint (pt_x (warp_back_inside side w h)) < sint w - 1"
    "1 < sint (pt_y (warp_back_inside side w h))"
    "sint (pt_y (warp_back_inside side w h)) < sint h - 1"
    using assms by (cases side; simp)+
qed

end
