(* ===== verification/SessionServer.thy ===== *)
theory SessionServer
  imports EdgeRouting WireMessage
begin

text \<open>
  The server half of the session orchestrator (\<open>crates/daemon/src/session.rs\<close>): the capture
  drain loop (\<open>drain_capture\<close>, \<open>apply_decision\<close>, \<open>is_emergency\<close>), the peer event
  handler, and the two tasks running concurrently over the shared edge detector and peer list.
  What a handler does to the outside (messages, cursor warps, the capture switch, spawned tasks)
  is the list of its effects in order; the source ignores the outcome of each of them.
\<close>

section \<open>Peers and effects\<close>

text \<open>
  A peer handle: \<open>ph_chan\<close> names its connection with the outbound channel, so that two connections
  of one peer are told apart. Addresses are in display form.
\<close>

record PeerHandle =
  ph_peer_id :: PeerId
  ph_peer_name :: string
  ph_remote_addr :: "string option"
  ph_chan :: nat

datatype effect =
    Send nat Message
  | TrySend nat Message
  | WarpCursor Point
  | SetCapturing bool

fun capture_effect :: "bool \<Rightarrow> effect \<Rightarrow> bool" where
  "capture_effect c (SetCapturing b) = b"
| "capture_effect c _ = c"

definition capture_effects :: "bool \<Rightarrow> effect list \<Rightarrow> bool" where
  "capture_effects c effs = foldl capture_effect c effs"

lemma capture_effects_simps [simp]:
  "capture_effects c [] = c"
  "capture_effects c (e # es) = capture_effects (capture_effect c e) es"
  "capture_effects c (es @ fs) = capture_effects (capture_effects c es) fs"
  by (simp_all add: capture_effects_def)

definition first_peer :: "PeerHandle list \<Rightarrow> PeerHandle option" where
  "first_peer peers = (case peers of [] \<Rightarrow> None | p # _ \<Rightarrow> Some p)"

lemma first_peer_simps [simp]: "first_peer [] = None" "first_peer (p # ps) = Some p"
  by (simp_all add: first_peer_def)

section \<open>The drain loop\<close>

fun is_emergency :: "InputEvent \<Rightarrow> bool" where
  "is_emergency (Key k) \<longleftrightarrow>
     ke_state k = Pressed \<and> ke_code k = K_Control K_Escape \<and>
     mod_contains (ke_modifiers k) MOD_CTRL \<and> mod_contains (ke_modifiers k) MOD_ALT \<and>
     mod_contains (ke_modifiers k) MOD_SHIFT"
| "is_emergency _ \<longleftrightarrow> False"

lemma is_emergency_move [simp]: "move_target ev = Some p \<Longrightarrow> \<not> is_emergency ev"
  by (auto simp: move_target_def split: InputEvent.splits)

fun apply_decision :: "PeerHandle list \<Rightarrow> RouteDecision \<Rightarrow> effect list" where
  "apply_decision peers Stay = []"
| "apply_decision peers (EnterRemote screen entry local_warp modifiers) =
     (case first_peer peers of
        Some peer \<Rightarrow> [Send (ph_chan peer) (M_ScreenEnter (pt_x entry) (pt_y entry) modifiers)]
      | None \<Rightarrow> []) @
     [WarpCursor local_warp, SetCapturing True]"
| "apply_decision peers (LeaveRemote screen) =
     (case first_peer peers of
        Some peer \<Rightarrow>
          [Send (ph_chan peer) (M_ScreenLeave (screen_u32 screen)),
           Send (ph_chan peer) (M_ModifierSync mod_empty)]
      | None \<Rightarrow> []) @
     [SetCapturing False]"

record DrainState =
  ds_edge :: EdgeDetector
  ds_last_mouse :: "Point option"

text \<open>
  The first half of an iteration, under the edge lock: the decision, and the forwarding flag
  unless the event was the emergency hotkey (the source then continues with the next event).
\<close>

definition drain_observe ::
  "DrainState \<Rightarrow> InputEvent \<Rightarrow> (RouteDecision \<times> ForwardTo option) \<times> DrainState" where
  "drain_observe st ev =
     (if is_emergency ev
      then (case edge_force_local (ds_edge st) of
              (decision, edge) \<Rightarrow>
                ((decision, None), st\<lparr>ds_edge := edge, ds_last_mouse := None\<rparr>))
      else (case edge_observe (ds_edge st) ev of
              ((decision, forward), edge) \<Rightarrow>
                ((decision, Some forward), st\<lparr>ds_edge := edge\<rparr>)))"

text \<open>The second half: forwarding, with the absolute position turned into a delta.\<close>

definition move_delta :: "Point option \<Rightarrow> Point \<Rightarrow> i32 \<times> i32" where
  "move_delta last_mouse cur =
     (case last_mouse of
        Some prev \<Rightarrow> (pt_x cur - pt_x prev, pt_y cur - pt_y prev)
      | None \<Rightarrow> (0, 0))"

definition drain_forward ::
  "PeerHandle list \<Rightarrow> Point option \<Rightarrow> InputEvent \<Rightarrow> ForwardTo \<Rightarrow> effect list \<times> Point option" where
  "drain_forward peers last_mouse ev forward =
     (case forward of
        FwdRemote \<Rightarrow>
          (case first_peer peers of
             None \<Rightarrow> ([], last_mouse)
           | Some peer \<Rightarrow>
               (case move_target ev of
                  Some cur \<Rightarrow>
                    (case move_delta last_mouse cur of
                       (dx, dy) \<Rightarrow>
                         ((if dx = 0 \<and> dy = 0 then []
                           else [TrySend (ph_chan peer) (from_input (Mouse (MoveRelative dx dy)))]),
                          Some cur))
                | None \<Rightarrow> ([TrySend (ph_chan peer) (from_input ev)], last_mouse)))
      | FwdLocal \<Rightarrow>
          (case move_target ev of
             Some cur \<Rightarrow> ([], Some cur)
           | None \<Rightarrow> ([], last_mouse)))"

text \<open>One iteration with the peer list fixed, and the loop over a sequence of events.\<close>

definition drain_step ::
  "PeerHandle list \<Rightarrow> DrainState \<Rightarrow> InputEvent \<Rightarrow> effect list \<times> DrainState" where
  "drain_step peers st ev =
     (case drain_observe st ev of
        ((decision, fwd), st1) \<Rightarrow>
          (case fwd of
             None \<Rightarrow> (apply_decision peers decision, st1)
           | Some forward \<Rightarrow>
               (case drain_forward peers (ds_last_mouse st1) ev forward of
                  (effs, last_mouse) \<Rightarrow>
                    (apply_decision peers decision @ effs, st1\<lparr>ds_last_mouse := last_mouse\<rparr>))))"

fun drain_capture ::
  "PeerHandle list \<Rightarrow> DrainState \<Rightarrow> InputEvent list \<Rightarrow> effect list \<times> DrainState" where
  "drain_capture peers st [] = ([], st)"
| "drain_capture peers st (ev # evs) =
     (case drain_step peers st ev of
        (effs, st1) \<Rightarrow>
          (case drain_capture peers st1 evs of (effs', st2) \<Rightarrow> (effs @ effs', st2)))"

section \<open>Peer events\<close>

datatype ServerEvent = SrvConnected PeerHandle | SrvDisconnected PeerId

datatype spawn = SpawnHeartbeat nat u64 | SpawnInbound nat bool

definition retain_peers :: "PeerHandle list \<Rightarrow> PeerId \<Rightarrow> PeerHandle list" where
  "retain_peers peers pid = filter (\<lambda>p. ph_peer_id p \<noteq> pid) peers"

text \<open>
  The handler of \<open>handle_peer_events_server\<close>: the peer list, the edge detector and the tasks
  it spawns.
\<close>

fun peer_event_server ::
  "u64 \<Rightarrow> PeerHandle list \<times> EdgeDetector \<Rightarrow> ServerEvent \<Rightarrow>
   spawn list \<times> PeerHandle list \<times> EdgeDetector" where
  "peer_event_server interval (peers, ed) (SrvConnected h) =
     ([SpawnHeartbeat (ph_chan h) interval, SpawnInbound (ph_chan h) False],
      peers @ [h], set_auto_peer ed (Some (ScreenId 1)))"
| "peer_event_server interval (peers, ed) (SrvDisconnected pid) =
     (let peers' = retain_peers peers pid in
      ([], peers', if peers' = [] then set_auto_peer ed None else ed))"

section \<open>The two tasks together\<close>

text \<open>
  The drain task and the peer event task share the edge detector and the peer list behind
  separate locks, so a peer event can fall between the halves of a drain iteration, and a drain
  step between the halves of a peer event. Each rule below is one critical section.
\<close>

datatype drain_pc =
    DIdle
  | DDecided InputEvent RouteDecision "ForwardTo option"
  | DForward InputEvent ForwardTo

datatype peer_pc = PIdle | PConnected | PDisconnected

record Server =
  sv_edge :: EdgeDetector
  sv_last_mouse :: "Point option"
  sv_peers :: "PeerHandle list"
  sv_capturing :: bool
  sv_log :: "effect list"
  sv_drain :: drain_pc
  sv_peer :: peer_pc

definition server_start :: "EdgeDetector \<Rightarrow> Server" where
  "server_start ed =
     \<lparr>sv_edge = ed, sv_last_mouse = None, sv_peers = [], sv_capturing = False, sv_log = [],
      sv_drain = DIdle, sv_peer = PIdle\<rparr>"

text \<open>
  \<open>spawn_server\<close>: the local screen (1920 by 1080 when the platform cannot tell, never smaller than
  one pixel), the edge detector over the configured layout, no peers, and the tasks it starts.
\<close>

datatype session_task = ClipboardPollLoop | CaptureStart | DrainTask | PeerEventTask

definition local_screen :: "ScreenInfo option \<Rightarrow> ScreenInfo" where
  "local_screen info =
     (case info of
        Some s \<Rightarrow> s
      | None \<Rightarrow> \<lparr>si_id = ScreenId 0, si_name = ''local'', si_width = 1920, si_height = 1080\<rparr>)"

definition spawn_server ::
  "ScreenInfo option \<Rightarrow> ScreenLayout \<Rightarrow> bool \<Rightarrow> Server \<times> session_task list" where
  "spawn_server info layout clipboard_enabled =
     (let local = local_screen info in
      (server_start (edge_new (si_id local) (i32_max (si_width local) 1) (i32_max (si_height local) 1) layout),
       (if clipboard_enabled then [ClipboardPollLoop] else []) @ [CaptureStart, DrainTask, PeerEventTask]))"

inductive server_step :: "Server \<Rightarrow> Server \<Rightarrow> bool" where
  observe: "sv_drain s = DIdle \<Longrightarrow>
    drain_observe \<lparr>ds_edge = sv_edge s, ds_last_mouse = sv_last_mouse s\<rparr> ev = ((d, f), st) \<Longrightarrow>
    server_step s (s\<lparr>sv_edge := ds_edge st, sv_last_mouse := ds_last_mouse st,
                     sv_drain := DDecided ev d f\<rparr>)"
| decide: "sv_drain s = DDecided ev d f \<Longrightarrow>
    effs = apply_decision (sv_peers s) d \<Longrightarrow>
    server_step s (s\<lparr>sv_log := sv_log s @ effs,
                     sv_capturing := capture_effects (sv_capturing s) effs,
                     sv_drain := (case f of None \<Rightarrow> DIdle | Some fw \<Rightarrow> DForward ev fw)\<rparr>)"
| forward: "sv_drain s = DForward ev fw \<Longrightarrow>
    drain_forward (sv_peers s) (sv_last_mouse s) ev fw = (effs, lm) \<Longrightarrow>
    server_step s (s\<lparr>sv_log := sv_log s @ effs, sv_last_mouse := lm, sv_drain := DIdle\<rparr>)"
| connect: "sv_peer s = PIdle \<Longrightarrow>
    server_step s (s\<lparr>sv_peers := sv_peers s @ [h], sv_peer := PConnected\<rparr>)"
| connected: "sv_peer s = PConnected \<Longrightarrow>
    server_step s (s\<lparr>sv_edge := set_auto_peer (sv_edge s) (Some (ScreenId 1)), sv_peer := PIdle\<rparr>)"
| disconnect: "sv_peer s = PIdle \<Longrightarrow>
    server_step s (s\<lparr>sv_peers := retain_peers (sv_peers s) pid, sv_peer := PDisconnected\<rparr>)"
| disconnected: "sv_peer s = PDisconnected \<Longrightarrow>
    server_step s (s\<lparr>sv_edge := (if sv_peers s = [] then set_auto_peer (sv_edge s) None
                                 else sv_edge s), sv_peer := PIdle\<rparr>)"

inductive_cases server_stepE: "server_step s t"

section \<open>Facts about one iteration\<close>

lemma capture_effects_decision [simp]:
  "capture_effects c (apply_decision peers d) = capture_after d c"
  by (cases d) (auto split: option.split)

lemma drain_observe_normal:
  assumes "\<not> is_emergency ev" "edge_observe (ds_edge st) ev = ((d, f), ed')"
  shows "drain_observe st ev = ((d, Some f), st\<lparr>ds_edge := ed'\<rparr>)"
  using assms by (simp add: drain_observe_def)

lemma drain_observe_emergency:
  assumes "is_emergency ev"
  shows "drain_observe st ev =
    ((fst (edge_force_local (ds_edge st)), None),
     st\<lparr>ds_edge := snd (edge_force_local (ds_edge st)), ds_last_mouse := None\<rparr>)"
  using assms by (simp add: drain_observe_def split: prod.split)

text \<open>The first half keeps the capture switch in step, whatever the event.\<close>

lemma drain_observe_capture:
  assumes "drain_observe st ev = ((d, f), st')" and "c = is_remote (ed_route (ds_edge st))"
  shows "capture_after d c = is_remote (ed_route (ds_edge st'))"
proof (cases "is_emergency ev")
  case True
  obtain d' ed' where fl: "edge_force_local (ds_edge st) = (d', ed')" by force
  with edge.force_capture [OF fl assms(2)] edge.force_route [OF fl] assms(1) True show ?thesis
    by (auto simp: drain_observe_emergency)
next
  case False
  obtain d' f' ed' where ob: "edge_observe (ds_edge st) ev = ((d', f'), ed')"
    by (metis prod.exhaust)
  with edge.observe_capture [OF ob assms(2)] assms(1) False show ?thesis
    by (auto simp: drain_observe_normal)
qed

lemma drain_observe_forward:
  assumes "drain_observe st ev = ((d, Some fw), st')"
  shows "fw = FwdRemote \<longleftrightarrow> is_remote (ed_route (ds_edge st'))"
proof (cases "is_emergency ev")
  case False
  obtain d' f' ed' where ob: "edge_observe (ds_edge st) ev = ((d', f'), ed')"
    by (metis prod.exhaust)
  with edge.observe_forward [OF ob] assms False show ?thesis
    by (auto simp: drain_observe_normal)
qed (use assms in \<open>simp add: drain_observe_emergency\<close>)

lemma drain_observe_auto_peer:
  assumes "drain_observe st ev = ((d, f), st')"
  shows "ed_auto_peer (ds_edge st') = ed_auto_peer (ds_edge st)"
proof (cases "is_emergency ev")
  case True
  with assms show ?thesis
    by (auto simp: drain_observe_emergency edge_force_local_def split: Route.splits)
next
  case False
  obtain d' f' ed' where ob: "edge_observe (ds_edge st) ev = ((d', f'), ed')"
    by (metis prod.exhaust)
  then have "ed_auto_peer ed' = ed_auto_peer (ds_edge st)"
    using observe_frame(5) by (metis snd_conv)
  with ob assms False show ?thesis by (auto simp: drain_observe_normal)
qed

lemma drain_forward_effects_capture:
  "drain_forward peers lm ev fw = (effs, lm') \<Longrightarrow> capture_effects c effs = c"
  by (auto simp: drain_forward_def split: ForwardTo.splits option.splits prod.splits if_splits)

lemma drain_step_emergency:
  assumes "is_emergency ev"
  shows "drain_step peers st ev =
    (apply_decision peers (fst (edge_force_local (ds_edge st))),
     st\<lparr>ds_edge := snd (edge_force_local (ds_edge st)), ds_last_mouse := None\<rparr>)"
  using assms by (simp add: drain_step_def drain_observe_emergency)

text \<open>An iteration on a remote route with a peer: the route stays, the event is forwarded.\<close>

lemma drain_step_remote:
  assumes r: "ed_route (ds_edge st) = Remote s" and ne: "\<not> is_emergency ev"
  obtains ed' where "ed_route ed' = Remote s"
    "drain_step peers st ev =
      (fst (drain_forward peers (ds_last_mouse st) ev FwdRemote),
       \<lparr>ds_edge = ed', ds_last_mouse = snd (drain_forward peers (ds_last_mouse st) ev FwdRemote)\<rparr>)"
proof -
  from observe_remote [OF r, of ev] obtain ed' where
    ob: "edge_observe (ds_edge st) ev = ((Stay, FwdRemote), ed')" "ed_route ed' = Remote s" by blast
  have "drain_step peers st ev =
      (fst (drain_forward peers (ds_last_mouse st) ev FwdRemote),
       \<lparr>ds_edge = ed', ds_last_mouse = snd (drain_forward peers (ds_last_mouse st) ev FwdRemote)\<rparr>)"
    by (cases st) (use ob(1) ne in \<open>simp add: drain_step_def drain_observe_normal split: prod.split\<close>)
  with ob(2) show thesis by (rule that)
qed

section \<open>The running invariant\<close>

text \<open>
  At rest the capture switch tells whether the route is remote; between the halves of an
  iteration it will once the pending decision has been acted on. The auto-peer is set exactly
  while there are peers, up to the half-done work of the peer task.
\<close>

definition server_inv :: "Server \<Rightarrow> bool" where
  "server_inv s \<longleftrightarrow>
     (case sv_drain s of
        DIdle \<Rightarrow> sv_capturing s = is_remote (ed_route (sv_edge s))
      | DDecided ev d f \<Rightarrow>
          capture_after d (sv_capturing s) = is_remote (ed_route (sv_edge s)) \<and>
          (\<forall>fw. f = Some fw \<longrightarrow> (fw = FwdRemote \<longleftrightarrow> is_remote (ed_route (sv_edge s))))
      | DForward ev fw \<Rightarrow>
          sv_capturing s = is_remote (ed_route (sv_edge s)) \<and>
          (fw = FwdRemote \<longleftrightarrow> is_remote (ed_route (sv_edge s)))) \<and>
     (case sv_peer s of
        PIdle \<Rightarrow> ed_auto_peer (sv_edge s) = (if sv_peers s = [] then None else Some (ScreenId 1))
      | PConnected \<Rightarrow> sv_peers s \<noteq> []
      | PDisconnected \<Rightarrow> sv_peers s \<noteq> [] \<longrightarrow> ed_auto_peer (sv_edge s) = Some (ScreenId 1))"

definition server_init :: "Server \<Rightarrow> bool" where
  "server_init s \<longleftrightarrow>
     (\<exists>ed. ed_route ed = Local \<and> ed_auto_peer ed = None \<and> s = server_start ed)"

lemma set_auto_peer_simps [simp]:
  "ed_route (set_auto_peer ed p) = ed_route ed"
  "ed_auto_peer (set_auto_peer ed p) = p"
  by (simp_all add: set_auto_peer_def)

lemma server_inv_start: "server_init s \<Longrightarrow> server_inv s"
  by (auto simp: server_init_def server_inv_def server_start_def)

lemma spawn_server_init: "spawn_server info layout clip = (s, tasks) \<Longrightarrow> server_init s"
  unfolding server_init_def spawn_server_def Let_def
  by (rule exI [of _ "edge_new (si_id (local_screen info)) (i32_max (si_width (local_screen info)) 1)
        (i32_max (si_height (local_screen info)) 1) layout"]) (auto simp: edge_new_def)

lemma server_inv_observe:
  assumes "server_inv s" "sv_drain s = DIdle"
    and ob: "drain_observe \<lparr>ds_edge = sv_edge s, ds_last_mouse = sv_last_mouse s\<rparr> ev = ((d, f), st)"
  shows "server_inv (s\<lparr>sv_edge := ds_edge st, sv_last_mouse := ds_last_mouse st,
                       sv_drain := DDecided ev d f\<rparr>)"
proof -
  have "capture_after d (sv_capturing s) = is_remote (ed_route (ds_edge st))"
    using assms(1,2) by (intro drain_observe_capture [OF ob]) (simp add: server_inv_def)
  moreover have "ed_auto_peer (ds_edge st) = ed_auto_peer (sv_edge s)"
    using drain_observe_auto_peer [OF ob] by simp
  ultimately show ?thesis
    using assms drain_observe_forward
    by (fastforce simp: server_inv_def split: peer_pc.splits)
qed

lemma server_inv_step:
  assumes "server_step s t" "server_inv s"
  shows "server_inv t"
  using assms(1)
proof cases
  case (observe ev d f st)
  then show ?thesis using assms(2) server_inv_observe by simp
next
  case (decide ev d f effs)
  then show ?thesis using assms(2)
    by (cases f) (auto simp: server_inv_def split: peer_pc.splits)
next
  case (forward ev fw effs lm)
  then show ?thesis using assms(2)
    by (auto simp: server_inv_def split: peer_pc.splits)
next
  case (connect h)
  then show ?thesis using assms(2) by (auto simp: server_inv_def split: drain_pc.splits)
next
  case connected
  then show ?thesis using assms(2) by (auto simp: server_inv_def split: drain_pc.splits)
next
  case (disconnect pid)
  then show ?thesis using assms(2)
    by (auto simp: server_inv_def retain_peers_def split: drain_pc.splits if_splits)
next
  case disconnected
  then show ?thesis using assms(2) by (auto simp: server_inv_def split: drain_pc.splits)
qed

interpretation srv: invariant_system server_init server_step server_inv
  by unfold_locales (auto intro: server_inv_start server_inv_step)

section \<open>Forwarded motion\<close>

text \<open>The motion that a list of effects forwards, and the relative motion among the events.\<close>

fun forwarded_motion :: "effect list \<Rightarrow> i32 \<times> i32" where
  "forwarded_motion [] = (0, 0)"
| "forwarded_motion (TrySend ch (M_MouseMoveRelative dx dy) # es) =
     (dx + fst (forwarded_motion es), dy + snd (forwarded_motion es))"
| "forwarded_motion (e # es) = forwarded_motion es"

fun captured_relative :: "InputEvent list \<Rightarrow> i32 \<times> i32" where
  "captured_relative [] = (0, 0)"
| "captured_relative (Mouse (MoveRelative dx dy) # evs) =
     (dx + fst (captured_relative evs), dy + snd (captured_relative evs))"
| "captured_relative (ev # evs) = captured_relative evs"

definition last_position :: "Point \<Rightarrow> InputEvent list \<Rightarrow> Point" where
  "last_position p evs = foldl (\<lambda>q ev. case move_target ev of Some r \<Rightarrow> r | None \<Rightarrow> q) p evs"

lemma last_position_simps [simp]:
  "last_position p [] = p"
  "last_position p (ev # evs) =
     last_position (case move_target ev of Some r \<Rightarrow> r | None \<Rightarrow> p) evs"
  by (simp_all add: last_position_def)

lemma forwarded_motion_append [simp]:
  "forwarded_motion (es @ fs) =
     (fst (forwarded_motion es) + fst (forwarded_motion fs),
      snd (forwarded_motion es) + snd (forwarded_motion fs))"
  by (induction es rule: forwarded_motion.induct) simp_all

lemma drain_forward_motion:
  assumes "drain_forward (h # hs) (Some p) ev FwdRemote = (effs, lm)"
  defines "q \<equiv> (case move_target ev of Some r \<Rightarrow> r | None \<Rightarrow> p)"
  shows "lm = Some q"
    and "forwarded_motion effs =
      (pt_x q - pt_x p + fst (captured_relative [ev]), pt_y q - pt_y p + snd (captured_relative [ev]))"
  using assms
  by (cases ev rule: from_input.cases;
      auto simp: drain_forward_def move_delta_def split: if_splits)+

text \<open>
  As long as the route is remote, what the peer is told to move adds up to how far the pointer
  really went (modulo the wrap of \<open>i32\<close>), plus the relative motion captured as such.
\<close>

lemma drain_capture_motion:
  assumes "ed_route (ds_edge st) = Remote s" "ds_last_mouse st = Some p"
    and "list_all (\<lambda>ev. \<not> is_emergency ev) evs"
    and "drain_capture (h # hs) st evs = (effs, st')"
  shows "ed_route (ds_edge st') = Remote s \<and> ds_last_mouse st' = Some (last_position p evs) \<and>
    forwarded_motion effs =
      (pt_x (last_position p evs) - pt_x p + fst (captured_relative evs),
       pt_y (last_position p evs) - pt_y p + snd (captured_relative evs))"
  using assms
proof (induction evs arbitrary: st p effs st')
  case Nil
  then show ?case by simp
next
  case (Cons ev evs)
  from Cons.prems(3) have ne: "\<not> is_emergency ev" "list_all (\<lambda>ev. \<not> is_emergency ev) evs" by simp_all
  obtain ed1 where ed1: "ed_route ed1 = Remote s" and step:
    "drain_step (h # hs) st ev =
      (fst (drain_forward (h # hs) (Some p) ev FwdRemote),
       \<lparr>ds_edge = ed1, ds_last_mouse = snd (drain_forward (h # hs) (Some p) ev FwdRemote)\<rparr>)"
    using drain_step_remote [OF Cons.prems(1) ne(1), of "h # hs"] Cons.prems(2) by metis
  obtain effs1 lm where fw: "drain_forward (h # hs) (Some p) ev FwdRemote = (effs1, lm)" by force
  define r where "r = (case move_target ev of Some r \<Rightarrow> r | None \<Rightarrow> p)"
  note m = drain_forward_motion [OF fw, folded r_def]
  obtain effs2 where rest:
    "drain_capture (h # hs) \<lparr>ds_edge = ed1, ds_last_mouse = Some r\<rparr> evs = (effs2, st')"
    and effs: "effs = effs1 @ effs2"
    using Cons.prems(4) step fw m(1) by (auto split: prod.splits)
  have IH: "ed_route (ds_edge st') = Remote s \<and> ds_last_mouse st' = Some (last_position r evs) \<and>
    forwarded_motion effs2 = (pt_x (last_position r evs) - pt_x r + fst (captured_relative evs),
      pt_y (last_position r evs) - pt_y r + snd (captured_relative evs))"
    by (rule Cons.IH [OF _ _ ne(2) rest]) (simp_all add: ed1)
  have "captured_relative (ev # evs) =
    (fst (captured_relative [ev]) + fst (captured_relative evs),
     snd (captured_relative [ev]) + snd (captured_relative evs))"
    by (cases ev rule: from_input.cases) simp_all
  with IH m(2) effs show ?case
    by (simp add: r_def algebra_simps)
qed

end
