(* ===== verification/SessionClient.thy ===== *)
theory SessionClient
  imports SessionServer
begin

text \<open>
  Inbound messages of a peer (\<open>inbound_loop\<close> and \<open>resync_modifiers\<close> of
  \<open>crates/daemon/src/session.rs\<close>), in both roles, and the peer event handler of the client.
\<close>

section \<open>Dispatch\<close>

datatype inbound_effect =
    Inject InputEvent
  | ReleaseAllModifiers
  | Reply Message
  | ToClipboard Message
  | ToFileOffer FileOffer
  | ToFileChunk FileChunk

definition modifier_table :: "(ModifierState \<times> KeyCode) list" where
  "modifier_table =
     [(MOD_SHIFT, K_Modifier K_LeftShift), (MOD_CTRL, K_Modifier K_LeftCtrl),
      (MOD_ALT, K_Modifier K_LeftAlt), (MOD_SUPER, K_Modifier K_LeftSuper)]"

definition modifier_press :: "ModifierState \<Rightarrow> KeyCode \<Rightarrow> InputEvent" where
  "modifier_press target code =
     Key \<lparr>ke_code = code, ke_state = Pressed, ke_modifiers = target, ke_character = None\<rparr>"

definition resync_modifiers :: "ModifierState \<Rightarrow> inbound_effect list" where
  "resync_modifiers target =
     ReleaseAllModifiers #
     map (\<lambda>(flag, code). Inject (modifier_press target code))
       (filter (\<lambda>(flag, code). mod_contains target flag) modifier_table)"

text \<open>One message; the guards \<open>if is_client\<close> of the source fall through to the last arm.\<close>

fun inbound_step :: "bool \<Rightarrow> Message \<Rightarrow> inbound_effect list" where
  "inbound_step is_client (M_Ping nonce timestamp_ms) = [Reply (M_Pong nonce timestamp_ms)]"
| "inbound_step is_client (M_Pong _ _) = []"
| "inbound_step is_client (M_MouseMove x y) =
     (if is_client then [Inject (Mouse (MoveAbs x y))] else [])"
| "inbound_step is_client (M_MouseMoveRelative dx dy) =
     (if is_client then [Inject (Mouse (MoveRelative dx dy))] else [])"
| "inbound_step is_client (M_MouseButton e) = (if is_client then [Inject (Mouse e)] else [])"
| "inbound_step is_client (M_MouseScroll e) = (if is_client then [Inject (Mouse e)] else [])"
| "inbound_step is_client (M_KeyEvent k) = (if is_client then [Inject (Key k)] else [])"
| "inbound_step is_client (M_ScreenEnter x y modifiers) =
     (if is_client then Inject (Mouse (MoveAbs x y)) # resync_modifiers modifiers else [])"
| "inbound_step is_client (M_ScreenLeave _) = (if is_client then [ReleaseAllModifiers] else [])"
| "inbound_step is_client (M_ModifierSync m) = (if is_client then resync_modifiers m else [])"
| "inbound_step is_client (M_ClipboardFormats fs h) = [ToClipboard (M_ClipboardFormats fs h)]"
| "inbound_step is_client (M_ClipboardRequest f) = [ToClipboard (M_ClipboardRequest f)]"
| "inbound_step is_client (M_ClipboardData p) = [ToClipboard (M_ClipboardData p)]"
| "inbound_step is_client (M_FileOfferStart o') = [ToFileOffer o']"
| "inbound_step is_client (M_FileChunk c) = [ToFileChunk c]"
| "inbound_step is_client (M_FileTransferCancel _ _) = []"
| "inbound_step is_client (M_FileAck _ _) = []"
| "inbound_step is_client (M_Goodbye _) = []"
| "inbound_step is_client _ = []"

definition inbound_loop :: "bool \<Rightarrow> Message list \<Rightarrow> inbound_effect list" where
  "inbound_loop is_client msgs = concat (map (inbound_step is_client) msgs)"

lemma inbound_loop_simps [simp]:
  "inbound_loop c [] = []"
  "inbound_loop c (m # ms) = inbound_step c m @ inbound_loop c ms"
  "inbound_loop c (ms @ ns) = inbound_loop c ms @ inbound_loop c ns"
  by (simp_all add: inbound_loop_def)

section \<open>Peer events of the client\<close>

datatype ClientEvent = CltConnected PeerHandle | CltDisconnected PeerId

fun peer_event_client ::
  "u64 \<Rightarrow> PeerHandle list \<Rightarrow> ClientEvent \<Rightarrow> spawn list \<times> PeerHandle list" where
  "peer_event_client interval peers (CltConnected h) =
     ([SpawnHeartbeat (ph_chan h) interval, SpawnInbound (ph_chan h) True], peers @ [h])"
| "peer_event_client interval peers (CltDisconnected pid) = ([], retain_peers peers pid)"

section \<open>What the injections do to the keyboard\<close>

text \<open>
  The specification of an injector: the set of keys held down. Releasing all modifiers lifts the
  eight modifier keys and nothing else.
\<close>

definition modifier_keys :: "KeyCode set" where
  "modifier_keys = range K_Modifier"

fun held_step :: "KeyCode set \<Rightarrow> inbound_effect \<Rightarrow> KeyCode set" where
  "held_step H (Inject (Key k)) =
     (case ke_state k of Pressed \<Rightarrow> insert (ke_code k) H | Released \<Rightarrow> H - {ke_code k})"
| "held_step H ReleaseAllModifiers = H - modifier_keys"
| "held_step H _ = H"

definition held_after :: "KeyCode set \<Rightarrow> inbound_effect list \<Rightarrow> KeyCode set" where
  "held_after H effs = foldl held_step H effs"

lemma held_after_simps [simp]:
  "held_after H [] = H"
  "held_after H (e # es) = held_after (held_step H e) es"
  "held_after H (es @ fs) = held_after (held_after H es) fs"
  by (simp_all add: held_after_def)

text \<open>The modifier keys that stand for a flag set.\<close>

definition keys_of_modifiers :: "ModifierState \<Rightarrow> KeyCode set" where
  "keys_of_modifiers m = {code. \<exists>flag. (flag, code) \<in> set modifier_table \<and> flag \<le> m}"

lemma held_after_presses:
  "held_after H (map (\<lambda>(flag, code). Inject (modifier_press t code)) tab) = H \<union> snd ` set tab"
  by (induction tab arbitrary: H) (auto simp: modifier_press_def)

lemma held_after_resync:
  "held_after H (resync_modifiers m) = (H - modifier_keys) \<union> keys_of_modifiers m"
  unfolding resync_modifiers_def
  by (simp add: held_after_presses) (force simp: keys_of_modifiers_def mod_contains_le)

lemma keys_of_no_modifiers [simp]: "keys_of_modifiers mod_empty = {}"
  by (auto simp: keys_of_modifiers_def modifier_table_def mod_flag_defs mod_empty_def
      less_eq_ModifierState_def)

text \<open>
  The messages a list of effects gives to one channel, in order, whether or not the channel takes them:
  what becomes of a \<open>try_send\<close> depends on the channel (\<open>perform\<close>, \<open>perform_all\<close> of \<open>InputPipeline\<close>).
\<close>

fun messages_to :: "nat \<Rightarrow> effect list \<Rightarrow> Message list" where
  "messages_to ch [] = []"
| "messages_to ch (Send c m # es) = (if c = ch then m # messages_to ch es else messages_to ch es)"
| "messages_to ch (TrySend c m # es) =
     (if c = ch then m # messages_to ch es else messages_to ch es)"
| "messages_to ch (e # es) = messages_to ch es"

lemma messages_to_append [simp]:
  "messages_to ch (es @ fs) = messages_to ch es @ messages_to ch fs"
  by (induction es rule: messages_to.induct) simp_all

end
