(* ===== verification/RoutingProperties.thy ===== *)
theory RoutingProperties
  imports SessionClient
begin

text \<open>
  The properties of the pointer's way between machines: the edge detector, the drain loop and the
  peer events of the server, and what the client does with the messages it is sent.
\<close>

section \<open>Samples\<close>

definition sample_peer :: PeerHandle where
  "sample_peer = \<lparr>ph_peer_id = PeerId 2, ph_peer_name = ''b'', ph_remote_addr = None, ph_chan = 0\<rparr>"

definition sample_edge :: EdgeDetector where
  "sample_edge = set_auto_peer (edge_new (ScreenId 0) 1920 1080 layout_default) (Some (ScreenId 1))"

definition sample_remote :: DrainState where
  "sample_remote = \<lparr>ds_edge = sample_edge\<lparr>ed_route := Remote (ScreenId 1)\<rparr>,
     ds_last_mouse = Some (mk_point 10 500)\<rparr>"

definition escape_chord :: InputEvent where
  "escape_chord = Key \<lparr>ke_code = K_Control K_Escape, ke_state = Pressed,
     ke_modifiers = mod_insert (mod_insert MOD_CTRL MOD_ALT) MOD_SHIFT, ke_character = None\<rparr>"

lemma escape_chord_emergency: "is_emergency escape_chord"
  by (simp add: escape_chord_def mod_contains_le mod_insert_sup le_supI1 le_supI2)

lemma sample_edge_simps [simp]:
  "ed_route sample_edge = Local" "ed_edge_threshold sample_edge = 1"
  "ed_local_width sample_edge = 1920" "ed_local_height sample_edge = 1080"
  "ed_auto_peer sample_edge = Some (ScreenId 1)" "ed_layout sample_edge = layout_default"
  by (simp_all add: sample_edge_def edge_new_def set_auto_peer_def)

lemma sample_target [simp]: "crossing_target sample_edge side = Some (ScreenId 1)"
  by (simp add: crossing_target_def)

section \<open>Forwarding a sequence of events\<close>

lemma drain_capture_forward:
  assumes "ed_route (ds_edge st) = Remote s"
    and "list_all (\<lambda>ev. \<not> is_emergency ev \<and> move_target ev = None) evs"
    and "drain_capture (h # hs) st evs = (effs, st')"
  shows "effs = map (\<lambda>ev. TrySend (ph_chan h) (from_input ev)) evs"
  using assms
proof (induction evs arbitrary: st effs)
  case (Cons ev evs)
  obtain ed1 where ed1: "ed_route ed1 = Remote s" "drain_step (h # hs) st ev =
      (fst (drain_forward (h # hs) (ds_last_mouse st) ev FwdRemote),
       \<lparr>ds_edge = ed1, ds_last_mouse = snd (drain_forward (h # hs) (ds_last_mouse st) ev FwdRemote)\<rparr>)"
    using Cons.prems(1,2) by (auto elim: drain_step_remote [of st s ev "h # hs"])
  have "fst (drain_forward (h # hs) (ds_last_mouse st) ev FwdRemote) = [TrySend (ph_chan h) (from_input ev)]"
    using Cons.prems(2) by (simp add: drain_forward_def)
  with Cons.IH [of "\<lparr>ds_edge = ed1, ds_last_mouse = snd (drain_forward (h # hs) (ds_last_mouse st) ev FwdRemote)\<rparr>"]
    Cons.prems ed1 show ?case by (auto split: prod.splits)
qed simp

lemma messages_to_try_sends [simp]: "messages_to ch (map (\<lambda>ev. TrySend ch (f ev)) evs) = map f evs"
  by (induction evs) simp_all

lemma inbound_loop_from_input:
  "list_all (\<lambda>ev. (\<exists>k. ev = Key k) \<or> (\<exists>m. ev = Mouse m \<and> move_target ev = None)) evs \<Longrightarrow>
   inbound_loop True (map from_input evs) = map Inject evs"
proof (induction evs)
  case (Cons ev evs)
  then show ?case by (cases ev rule: from_input.cases) (auto simp: move_target_def)
qed simp

section \<open>Crossing an edge\<close>

text \<open>
  C8: On a screen of positive size the route goes remote exactly when the pointer is locally routed
  and moves within one pixel of an edge - left before right before top before bottom - behind which
  there is a screen, taken from the layout or else the connected peer. The decision then names that
  screen, the entry point with the pointer's own coordinate along the edge and the modifiers the
  detector remembers.
\<close>

theorem crossing_exact:
  assumes "ed_edge_threshold ed = 1" and "1 \<le> sint (ed_local_width ed)" and "1 \<le> sint (ed_local_height ed)"
    and "edge_observe ed ev = ((d, f), ed')"
  shows "(ed_route ed = Local \<and> ed_route ed' = Remote s) \<longleftrightarrow>
    (\<exists>p side. ed_route ed = Local \<and> move_target ev = Some p \<and>
      (if sint (pt_x p) \<le> 1 then side = EdgeLeft
       else if sint (ed_local_width ed) - 1 \<le> sint (pt_x p) then side = EdgeRight
       else if sint (pt_y p) \<le> 1 then side = EdgeTop
       else side = EdgeBottom \<and> sint (ed_local_height ed) - 1 \<le> sint (pt_y p)) \<and>
      crossing_target ed side = Some s \<and>
      d = EnterRemote s (entry_point side p)
        (warp_back_inside side (ed_local_width ed) (ed_local_height ed)) (ed_modifiers ed))"
    (is "?lhs \<longleftrightarrow> ?rhs")
proof
  assume ?lhs
  then show ?rhs
    using assms(4) cross_local_edge_int [OF assms(1-3)]
    by (cases rule: observe_cases [of ed ev]) (auto split: if_splits)
next
  assume ?rhs
  then obtain p side where c: "ed_route ed = Local" "move_target ev = Some p"
    "cross_local_edge ed p = Some (side, p)" "crossing_target ed side = Some s"
    using cross_local_edge_int [OF assms(1-3)] by (auto split: if_splits)
  then show ?lhs using observe_crossing [OF c] assms(4) by auto
qed

theorem crossing_exact_witness:
  "ed_route (snd (edge_observe sample_edge (Mouse (MoveAbs 0 500)))) = Remote (ScreenId 1)"
proof -
  let ?o = "edge_observe sample_edge (Mouse (MoveAbs 0 500))"
  have o: "?o = ((fst (fst ?o), snd (fst ?o)), snd ?o)" by simp
  have "edge_observe sample_edge (Mouse (MoveAbs 0 500)) =
      ((EnterRemote (ScreenId 1) (entry_point EdgeLeft (mk_point 0 500))
         (warp_back_inside EdgeLeft 1920 1080) (ed_modifiers sample_edge), FwdRemote),
       sample_edge\<lparr>ed_last_point := mk_point 0 500, ed_route := Remote (ScreenId 1)\<rparr>)"
    using observe_crossing [of sample_edge "Mouse (MoveAbs 0 500)" "mk_point 0 500" EdgeLeft
        "mk_point 0 500" "ScreenId 1"]
    by (simp add: cross_local_edge_def move_target_def word_sle_eq)
  then show ?thesis
    using crossing_exact [OF _ _ _ o, of "ScreenId 1"] by (auto simp: move_target_def)
qed

text \<open>
  The place the cursor is parked at after a crossing is safe on every screen of at least four
  by four pixels: when the route is back to local, the pointer appearing there does not cross again.
\<close>

theorem parked_cursor_does_not_recross:
  assumes "ed_edge_threshold ed = 1" and "4 \<le> sint (ed_local_width ed)" and "4 \<le> sint (ed_local_height ed)"
    and "edge_observe ed ev = ((EnterRemote s entry warp m, f), ed1)"
    and "edge_force_local (edge_run ed1 evs) = (d, ed2)"
    and "move_target ev' = Some warp"
  shows "fst (edge_observe ed2 ev') = (Stay, FwdLocal) \<and> ed_route (snd (edge_observe ed2 ev')) = Local"
proof -
  obtain side where warp: "warp = warp_back_inside side (ed_local_width ed) (ed_local_height ed)"
    using assms(4) by (cases rule: observe_cases [of ed ev]) auto
  have frame: "ed_edge_threshold (edge_run e es) = ed_edge_threshold e \<and>
      ed_local_width (edge_run e es) = ed_local_width e \<and>
      ed_local_height (edge_run e es) = ed_local_height e" for e es
    by (induction es arbitrary: e) simp_all
  have "ed1 = snd (edge_observe ed ev)" using assms(4) by simp
  then have ed2: "ed_edge_threshold ed2 = 1" "ed_local_width ed2 = ed_local_width ed"
    "ed_local_height ed2 = ed_local_height ed" "ed_route ed2 = Local"
    using assms(1,5) frame [of ed1 evs] edge.force_route [OF assms(5)]
    by (auto simp: edge_force_local_def split: Route.splits)
  have "cross_local_edge ed2 warp = None"
    using cross_local_edge_int [of ed2 warp] ed2 assms(2,3)
      warp_point_int [OF assms(2,3), of side] warp by simp
  then have "edge_observe ed2 ev' = ((Stay, FwdLocal), ed2\<lparr>ed_last_point := warp\<rparr>)"
    using observe_local_inside [OF ed2(4) assms(6)] by simp
  then show ?thesis using ed2(4) by simp
qed

theorem parked_cursor_does_not_recross_witness:
  "let ed1 = sample_edge\<lparr>ed_last_point := mk_point 0 500, ed_route := Remote (ScreenId 1)\<rparr>
   in fst (edge_observe (snd (edge_force_local ed1)) (Mouse (MoveAbs 2 540))) = (Stay, FwdLocal)"
proof -
  let ?ed1 = "sample_edge\<lparr>ed_last_point := mk_point 0 500, ed_route := Remote (ScreenId 1)\<rparr>"
  have half: "i32_div 1080 2 = 540" by (simp add: i32_div_def)
  have o: "edge_observe sample_edge (Mouse (MoveAbs 0 500)) =
      ((EnterRemote (ScreenId 1) (mk_point 32000 500) (mk_point 2 540) (ed_modifiers sample_edge), FwdRemote), ?ed1)"
    using observe_crossing [of sample_edge "Mouse (MoveAbs 0 500)" "mk_point 0 500" EdgeLeft
        "mk_point 0 500" "ScreenId 1"]
    by (simp add: cross_local_edge_def move_target_def word_sle_eq half)
  have fl: "edge_force_local (edge_run ?ed1 []) =
      (fst (edge_force_local ?ed1), snd (edge_force_local ?ed1))" by simp
  show ?thesis
    using parked_cursor_does_not_recross [OF _ _ _ o fl, of "Mouse (MoveAbs 2 540)"]
    by (simp add: move_target_def Let_def)
qed

section \<open>Staying remote\<close>

text \<open>
  Once the route is remote, only the emergency hotkey brings it back: whatever else is captured,
  and whoever is connected, the route stays, the capture switch is not touched and the cursor not
  moved; and without a peer nothing at all comes out - the input is swallowed.
\<close>

theorem remote_until_emergency:
  assumes "ed_route (ds_edge st) = Remote s" and "list_all (\<lambda>ev. \<not> is_emergency ev) evs"
    and "drain_capture peers st evs = (effs, st')"
  shows "ed_route (ds_edge st') = Remote s \<and> (\<forall>e \<in> set effs. \<exists>ch m. e = TrySend ch m) \<and>
    (peers = [] \<longrightarrow> effs = [])"
  using assms
proof (induction evs arbitrary: st effs)
  case (Cons ev evs)
  obtain ed1 where ed1: "ed_route ed1 = Remote s" "drain_step peers st ev =
      (fst (drain_forward peers (ds_last_mouse st) ev FwdRemote),
       \<lparr>ds_edge = ed1, ds_last_mouse = snd (drain_forward peers (ds_last_mouse st) ev FwdRemote)\<rparr>)"
    using Cons.prems(1,2) by (auto elim: drain_step_remote [of st s ev peers])
  let ?effs1 = "fst (drain_forward peers (ds_last_mouse st) ev FwdRemote)"
  let ?st1 = "\<lparr>ds_edge = ed1, ds_last_mouse = snd (drain_forward peers (ds_last_mouse st) ev FwdRemote)\<rparr>"
  obtain effs2 where rest: "drain_capture peers ?st1 evs = (effs2, st')" and effs: "effs = ?effs1 @ effs2"
    using Cons.prems(3) ed1(2) by (auto split: prod.splits)
  have "(\<forall>e \<in> set ?effs1. \<exists>ch m. e = TrySend ch m) \<and> (peers = [] \<longrightarrow> ?effs1 = [])"
    by (auto simp: drain_forward_def split: option.splits prod.splits if_splits)
  with Cons.IH [OF _ _ rest] Cons.prems(2) ed1(1) effs show ?case by auto
qed simp

theorem remote_until_emergency_witness:
  "fst (drain_capture [] sample_remote [Mouse (MButton BtnLeft Pressed), Mouse (MoveAbs 900 500)]) = [] \<and>
   ed_route (ds_edge (snd (drain_capture [] sample_remote
     [Mouse (MButton BtnLeft Pressed), Mouse (MoveAbs 900 500)]))) = Remote (ScreenId 1)"
proof -
  let ?evs = "[Mouse (MButton BtnLeft Pressed), Mouse (MoveAbs 900 500)]"
  have "drain_capture [] sample_remote ?evs =
      (fst (drain_capture [] sample_remote ?evs), snd (drain_capture [] sample_remote ?evs))" by simp
  from remote_until_emergency [OF _ _ this, of "ScreenId 1"] show ?thesis
    by (simp add: sample_remote_def)
qed

text \<open>
  C4: The emergency hotkey on a remote route, followed through to the other machine: the server is
  local again with capture off and no remembered position, and the peer, whatever keys it held down,
  is left with none of its modifier keys pressed and no other key changed.
\<close>

theorem emergency_releases_everything:
  assumes "is_emergency ev" and "ed_route (ds_edge st) = Remote s"
    and "drain_step (h # hs) st ev = (effs, st')"
  shows "ed_route (ds_edge st') = Local \<and> capture_effects c effs = False \<and> ds_last_mouse st' = None \<and>
    held_after H (inbound_loop True (messages_to (ph_chan h) effs)) = H - modifier_keys"
proof -
  have eq: "effs = [Send (ph_chan h) (M_ScreenLeave (screen_u32 s)), Send (ph_chan h) (M_ModifierSync mod_empty),
      SetCapturing False]" "ed_route (ds_edge st') = Local" "ds_last_mouse st' = None"
    using assms by (auto simp: drain_step_emergency edge_force_local_def)
  have "held_after (H - modifier_keys) (resync_modifiers mod_empty) = H - modifier_keys"
    by (simp add: held_after_resync)
  with eq show ?thesis by simp
qed

theorem emergency_releases_everything_witness:
  "ed_route (ds_edge (snd (drain_step [sample_peer] sample_remote escape_chord))) = Local \<and>
   held_after {K_Modifier K_LeftShift, K_Letter K_A} (inbound_loop True (messages_to 0
     (fst (drain_step [sample_peer] sample_remote escape_chord)))) = {K_Letter K_A}"
proof -
  let ?d = "drain_step [sample_peer] sample_remote escape_chord"
  have "?d = (fst ?d, snd ?d)" by simp
  from emergency_releases_everything [OF escape_chord_emergency _ this, of "ScreenId 1" False
      "{K_Modifier K_LeftShift, K_Letter K_A}"]
  show ?thesis by (auto simp: sample_remote_def sample_peer_def modifier_keys_def)
qed

section \<open>What is forwarded\<close>

text \<open>
  C7: While the route is remote no motion of the pointer is left out of what the session gives to the
  peer's channel: the deltas it tries to send add up to the way from the last known position to the
  newest one, plus the relative motion captured as such, modulo the width of the integers, whatever else
  is captured in between.
\<close>

theorem forwarded_motion_telescopes:
  assumes "ed_route (ds_edge st) = Remote s" and "ds_last_mouse st = Some p"
    and "list_all (\<lambda>ev. \<not> is_emergency ev) evs"
    and "drain_capture (h # hs) st evs = (effs, st')"
  shows "ds_last_mouse st' = Some (last_position p evs) \<and>
    forwarded_motion effs =
      (pt_x (last_position p evs) - pt_x p + fst (captured_relative evs),
       pt_y (last_position p evs) - pt_y p + snd (captured_relative evs))"
  using drain_capture_motion [OF assms] by simp

theorem forwarded_motion_telescopes_witness:
  "forwarded_motion (fst (drain_capture [sample_peer] sample_remote
     [Mouse (MoveAbs 15 490), Mouse (MoveRelative 1 1), Mouse (MoveAbs 30 510)])) = (21, 11)"
proof -
  let ?evs = "[Mouse (MoveAbs 15 490), Mouse (MoveRelative 1 1), Mouse (MoveAbs 30 510)]"
  let ?d = "drain_capture [sample_peer] sample_remote ?evs"
  have "?d = (fst ?d, snd ?d)" by simp
  from forwarded_motion_telescopes [OF _ _ _ this, of "ScreenId 1" "mk_point 10 500"]
  show ?thesis by (simp add: sample_remote_def move_target_def)
qed

text \<open>
  The cursor is moved to the parking place after a crossing, but the remembered position stays
  at the edge: when that move is captured, the peer is told to move by the distance of the jump,
  which the user never made.
\<close>

theorem parking_jump_forwarded:
  assumes "ed_route (ds_edge st) = Local" and "\<not> is_emergency ev"
    and "drain_step (h # hs) st ev = (effs, st1)"
    and "WarpCursor warp \<in> set effs" and "move_target ev = Some p" and "move_target ev' = Some warp"
    and "drain_step (h # hs) st1 ev' = (effs', st2)" and "warp \<noteq> p"
  shows "effs' = [TrySend (ph_chan h) (M_MouseMoveRelative (pt_x warp - pt_x p) (pt_y warp - pt_y p))]"
proof -
  obtain d f ed1 where o: "edge_observe (ds_edge st) ev = ((d, f), ed1)" by (metis prod.exhaust)
  have no_warp: "WarpCursor warp \<notin> set (fst (drain_forward peers lm ev f))" for peers lm
    by (auto simp: drain_forward_def split: ForwardTo.splits option.splits prod.splits)
  have step: "effs = apply_decision (h # hs) d @ fst (drain_forward (h # hs) (ds_last_mouse st) ev f)"
    "st1 = \<lparr>ds_edge = ed1, ds_last_mouse = snd (drain_forward (h # hs) (ds_last_mouse st) ev f)\<rparr>"
    using assms(3) o assms(2)
    by (auto simp: drain_step_def drain_observe_normal split: prod.splits)
  have "WarpCursor warp \<in> set (apply_decision (h # hs) d)"
    using assms(4) step(1) no_warp by auto
  then obtain s where "ed_route ed1 = Remote s" "f = FwdRemote"
    using o by (cases rule: observe_cases [of "ds_edge st" ev]) auto
  then have st1: "ed_route (ds_edge st1) = Remote s" "ds_last_mouse st1 = Some p"
    using step(2) assms(5) by (auto simp: drain_forward_def split: prod.splits)
  obtain ed2 where "drain_step (h # hs) st1 ev' =
      (fst (drain_forward (h # hs) (Some p) ev' FwdRemote),
       \<lparr>ds_edge = ed2, ds_last_mouse = snd (drain_forward (h # hs) (Some p) ev' FwdRemote)\<rparr>)"
    using drain_step_remote [OF st1(1), of ev' "h # hs"] assms(6) st1(2) by auto
  then have "effs' = fst (drain_forward (h # hs) (Some p) ev' FwdRemote)" using assms(7) by simp
  moreover have "\<not> (pt_x warp - pt_x p = 0 \<and> pt_y warp - pt_y p = 0)"
    using assms(8) by (auto intro: Point.equality)
  ultimately show ?thesis using assms(6) by (auto simp: drain_forward_def move_delta_def)
qed

lemma sample_observe_crossing:
  "edge_observe sample_edge (Mouse (MoveAbs 0 500)) =
     ((EnterRemote (ScreenId 1) (mk_point 32000 500) (mk_point 2 540) mod_empty, FwdRemote),
      sample_edge\<lparr>ed_last_point := mk_point 0 500, ed_route := Remote (ScreenId 1)\<rparr>)"
proof -
  have half: "i32_div 1080 2 = 540" by (simp add: i32_div_def)
  have m: "ed_modifiers sample_edge = mod_empty"
    by (simp add: sample_edge_def set_auto_peer_def edge_new_def)
  show ?thesis
    using observe_crossing [of sample_edge "Mouse (MoveAbs 0 500)" "mk_point 0 500" EdgeLeft
        "mk_point 0 500" "ScreenId 1"]
    by (simp add: cross_local_edge_def move_target_def word_sle_eq half m)
qed

lemma sample_crossing:
  "drain_step [sample_peer] \<lparr>ds_edge = sample_edge, ds_last_mouse = None\<rparr> (Mouse (MoveAbs 0 500)) =
     ([Send 0 (M_ScreenEnter 32000 500 mod_empty), WarpCursor (mk_point 2 540), SetCapturing True],
      \<lparr>ds_edge = sample_edge\<lparr>ed_last_point := mk_point 0 500, ed_route := Remote (ScreenId 1)\<rparr>,
       ds_last_mouse = Some (mk_point 0 500)\<rparr>)"
  by (simp add: sample_observe_crossing drain_step_def drain_observe_normal drain_forward_def move_delta_def
      move_target_def sample_peer_def)

theorem parking_jump_forwarded_witness:
  "fst (drain_step [sample_peer] (snd (drain_step [sample_peer]
     \<lparr>ds_edge = sample_edge, ds_last_mouse = None\<rparr> (Mouse (MoveAbs 0 500)))) (Mouse (MoveAbs 2 540))) =
   [TrySend 0 (M_MouseMoveRelative 2 40)]"
proof -
  let ?st1 = "snd (drain_step [sample_peer] \<lparr>ds_edge = sample_edge, ds_last_mouse = None\<rparr> (Mouse (MoveAbs 0 500)))"
  let ?d2 = "drain_step [sample_peer] ?st1 (Mouse (MoveAbs 2 540))"
  have "?d2 = (fst ?d2, snd ?d2)" by simp
  from parking_jump_forwarded [OF _ _ sample_crossing _ _ _ this [unfolded sample_crossing snd_conv],
      of "mk_point 2 540" "mk_point 0 500"]
  show ?thesis by (simp add: move_target_def sample_crossing) (simp add: sample_peer_def)
qed

text \<open>
  Keys, buttons, the wheel and relative motion arrive unchanged: on a remote route such an event
  becomes one message on the first peer's channel, and the client's reaction to it is to inject
  exactly that event.
\<close>

theorem forwarded_event_injected:
  assumes "ed_route (ds_edge st) = Remote s" and "\<not> is_emergency ev"
    and "ev = Key k \<or> (\<exists>m. ev = Mouse m \<and> move_target ev = None)"
    and "drain_step (h # hs) st ev = (effs, st')"
  shows "effs = [TrySend (ph_chan h) (from_input ev)] \<and>
    inbound_loop True (messages_to (ph_chan h) effs) = [Inject ev]"
proof -
  have "move_target ev = None" using assms(3) by (auto simp: move_target_def)
  then have "effs = [TrySend (ph_chan h) (from_input ev)]"
    using drain_step_remote [OF assms(1,2), of "h # hs"] assms(4)
    by (auto simp: drain_forward_def)
  moreover have "inbound_step True (from_input ev) = [Inject ev]"
    using assms(3) by (cases ev rule: from_input.cases) (auto simp: move_target_def)
  ultimately show ?thesis by simp
qed

theorem forwarded_event_injected_witness:
  "inbound_loop True (messages_to 0 (fst (drain_step [sample_peer] sample_remote
     (Mouse (MButton BtnLeft Pressed))))) = [Inject (Mouse (MButton BtnLeft Pressed))]"
proof -
  let ?d = "drain_step [sample_peer] sample_remote (Mouse (MButton BtnLeft Pressed))"
  have "?d = (fst ?d, snd ?d)" by simp
  from forwarded_event_injected [OF _ _ _ this, of "ScreenId 1"]
  show ?thesis by (simp add: sample_remote_def sample_peer_def move_target_def)
qed

section \<open>The client's keyboard\<close>

text \<open>
  After a screen entry or a modifier synchronisation the client holds exactly the modifier keys
  the message names, each by its left key, whatever was held before; other keys stay as they are.
  A server ignores both: whatever a peer sends it, nothing is ever injected.
\<close>

theorem resync_exact:
  "held_after H (inbound_step True (M_ScreenEnter x y m)) = (H - modifier_keys) \<union> keys_of_modifiers m \<and>
   held_after H (inbound_step True (M_ModifierSync m)) = (H - modifier_keys) \<union> keys_of_modifiers m \<and>
   (K_Modifier K_LeftShift \<in> keys_of_modifiers m) = mod_contains m MOD_SHIFT \<and>
   (K_Modifier K_LeftCtrl \<in> keys_of_modifiers m) = mod_contains m MOD_CTRL \<and>
   (K_Modifier K_LeftAlt \<in> keys_of_modifiers m) = mod_contains m MOD_ALT \<and>
   (K_Modifier K_LeftSuper \<in> keys_of_modifiers m) = mod_contains m MOD_SUPER \<and>
   (\<forall>e \<in> set (inbound_loop False msgs). e \<noteq> ReleaseAllModifiers \<and> (\<forall>ev. e \<noteq> Inject ev)) \<and>
   held_after H (inbound_loop False msgs) = H"
proof -
  have keys: "(K_Modifier K_LeftShift \<in> keys_of_modifiers m) = mod_contains m MOD_SHIFT"
    "(K_Modifier K_LeftCtrl \<in> keys_of_modifiers m) = mod_contains m MOD_CTRL"
    "(K_Modifier K_LeftAlt \<in> keys_of_modifiers m) = mod_contains m MOD_ALT"
    "(K_Modifier K_LeftSuper \<in> keys_of_modifiers m) = mod_contains m MOD_SUPER"
    by (auto simp: keys_of_modifiers_def modifier_table_def mod_contains_le)
  have server: "(\<forall>e \<in> set (inbound_step False msg). e \<noteq> ReleaseAllModifiers \<and> (\<forall>ev. e \<noteq> Inject ev)) \<and>
      held_after H (inbound_step False msg) = H" for msg
    by (cases msg) simp_all
  then have "(\<forall>e \<in> set (inbound_loop False msgs). e \<noteq> ReleaseAllModifiers \<and> (\<forall>ev. e \<noteq> Inject ev)) \<and>
      held_after H (inbound_loop False msgs) = H"
    by (induction msgs) auto
  with keys show ?thesis by (simp add: held_after_resync)
qed

theorem resync_exact_witness:
  "held_after {K_Modifier K_RightAlt, K_Letter K_A} (inbound_step True (M_ModifierSync MOD_CTRL)) \<supseteq>
     {K_Letter K_A, K_Modifier K_LeftCtrl} \<and>
   K_Modifier K_RightAlt \<notin> keys_of_modifiers MOD_CTRL"
proof -
  have "K_Modifier K_LeftCtrl \<in> keys_of_modifiers MOD_CTRL"
    using resync_exact [of "{}" 0 0 MOD_CTRL "[]"] by (simp add: mod_contains_le)
  moreover have "held_after {K_Modifier K_RightAlt, K_Letter K_A} (inbound_step True (M_ModifierSync MOD_CTRL)) =
      ({K_Modifier K_RightAlt, K_Letter K_A} - modifier_keys) \<union> keys_of_modifiers MOD_CTRL"
    using resync_exact [of "{K_Modifier K_RightAlt, K_Letter K_A}" 0 0 MOD_CTRL "[]"] by blast
  moreover have "K_Modifier K_RightAlt \<notin> keys_of_modifiers MOD_CTRL"
    by (auto simp: keys_of_modifiers_def modifier_table_def)
  ultimately show ?thesis by (auto simp: modifier_keys_def)
qed

section \<open>Peers coming and going\<close>

text \<open>
  C5: The capture switch follows the route in every reachable state of the server, however the drain
  task and the peer events interleave: between iterations capture is on exactly when the route is
  remote; and between peer events the fallback target is set exactly while there is a peer.
\<close>

theorem capture_follows_route:
  assumes "spawn_server info layout clip = (s0, tasks)" and "server_step\<^sup>*\<^sup>* s0 s"
  shows "(sv_drain s = DIdle \<longrightarrow> sv_capturing s = is_remote (ed_route (sv_edge s))) \<and>
    (sv_peer s = PIdle \<longrightarrow>
       ed_auto_peer (sv_edge s) = (if sv_peers s = [] then None else Some (ScreenId 1)))"
  using srv.inv_reachable [OF spawn_server_init [OF assms(1)] assms(2)] by (auto simp: server_inv_def)

definition fresh_edge :: EdgeDetector where
  "fresh_edge = edge_new (ScreenId 0) 1920 1080 layout_default"

lemma fresh_spawn:
  "spawn_server None layout_default False =
     (server_start fresh_edge, [CaptureStart, DrainTask, PeerEventTask])"
  by (simp add: spawn_server_def local_screen_def fresh_edge_def i32_max_def word_sle_eq)

lemma fresh_connected:
  "server_step\<^sup>*\<^sup>* (server_start fresh_edge)
     ((server_start fresh_edge)\<lparr>sv_peers := [sample_peer], sv_edge := sample_edge\<rparr>)"
proof -
  let ?s0 = "server_start fresh_edge"
  have "server_step ?s0 (?s0\<lparr>sv_peers := [sample_peer], sv_peer := PConnected\<rparr>)"
    using server_step.connect [of ?s0 sample_peer] by (simp add: server_start_def)
  moreover have "server_step (?s0\<lparr>sv_peers := [sample_peer], sv_peer := PConnected\<rparr>)
      (?s0\<lparr>sv_peers := [sample_peer], sv_edge := sample_edge\<rparr>)"
    using server_step.connected [of "?s0\<lparr>sv_peers := [sample_peer], sv_peer := PConnected\<rparr>"]
    by (simp add: server_start_def sample_edge_def fresh_edge_def)
  ultimately show ?thesis by (meson converse_rtranclp_into_rtranclp rtranclp.rtrancl_refl)
qed

theorem capture_follows_route_witness:
  "ed_auto_peer (sv_edge ((server_start fresh_edge)\<lparr>sv_peers := [sample_peer], sv_edge := sample_edge\<rparr>)) =
     Some (ScreenId 1)"
  using capture_follows_route [OF fresh_spawn fresh_connected] by (simp add: server_start_def)

text \<open>
  C6: The last peer can leave while the pointer is on its screen, and the server does not notice: a
  state is reachable, with both tasks at rest, that has no peer and yet a remote route and capture
  on. From there every input short of the emergency hotkey is captured and dropped.
\<close>

theorem void_route_reachable:
  "\<exists>s0 s. fst (spawn_server None layout_default False) = s0 \<and> server_step\<^sup>*\<^sup>* s0 s \<and> sv_drain s = DIdle \<and> sv_peer s = PIdle \<and>
     sv_peers s = [] \<and> is_remote (ed_route (sv_edge s)) \<and> sv_capturing s \<and>
     (\<forall>evs. fst (drain_capture (sv_peers s) \<lparr>ds_edge = sv_edge s, ds_last_mouse = sv_last_mouse s\<rparr>
               (filter (\<lambda>ev. \<not> is_emergency ev) evs)) = [])"
proof -
  let ?ev = "Mouse (MoveAbs 0 500)"
  let ?s0 = "server_start fresh_edge"
  let ?s2 = "?s0\<lparr>sv_peers := [sample_peer], sv_edge := sample_edge\<rparr>"
  let ?ed = "sample_edge\<lparr>ed_last_point := mk_point 0 500, ed_route := Remote (ScreenId 1)\<rparr>"
  let ?d = "EnterRemote (ScreenId 1) (mk_point 32000 500) (mk_point 2 540) mod_empty"
  let ?s3 = "?s2\<lparr>sv_edge := ?ed, sv_drain := DDecided ?ev ?d (Some FwdRemote)\<rparr>"
  let ?log = "apply_decision [sample_peer] ?d"
  let ?s4 = "?s3\<lparr>sv_log := ?log, sv_capturing := True, sv_drain := DForward ?ev FwdRemote\<rparr>"
  let ?s5 = "?s4\<lparr>sv_last_mouse := Some (mk_point 0 500), sv_drain := DIdle\<rparr>"
  let ?s6 = "?s5\<lparr>sv_peers := [], sv_peer := PDisconnected\<rparr>"
  let ?s7 = "?s6\<lparr>sv_edge := set_auto_peer ?ed None, sv_peer := PIdle\<rparr>"
  have o: "drain_observe \<lparr>ds_edge = sample_edge, ds_last_mouse = None\<rparr> ?ev =
      ((?d, Some FwdRemote), \<lparr>ds_edge = ?ed, ds_last_mouse = None\<rparr>)"
    by (simp add: drain_observe_normal sample_observe_crossing)
  have "server_step ?s2 ?s3"
    using o server_step.observe [of ?s2 ?ev ?d "Some FwdRemote" "\<lparr>ds_edge = ?ed, ds_last_mouse = None\<rparr>"]
    by (simp add: server_start_def)
  moreover have "server_step ?s3 ?s4"
    using server_step.decide [of ?s3 ?ev ?d "Some FwdRemote" ?log] by (simp add: server_start_def)
  moreover have "server_step ?s4 ?s5"
    using server_step.forward [of ?s4 ?ev FwdRemote "[]" "Some (mk_point 0 500)"]
    by (simp add: server_start_def drain_forward_def move_delta_def move_target_def)
  moreover have "server_step ?s5 ?s6"
    using server_step.disconnect [of ?s5 "PeerId 2"]
    by (simp add: server_start_def retain_peers_def sample_peer_def)
  moreover have "server_step ?s6 ?s7"
    using server_step.disconnected [of ?s6] by (simp add: server_start_def)
  ultimately have "server_step\<^sup>*\<^sup>* ?s2 ?s7"
    by (meson converse_rtranclp_into_rtranclp rtranclp.rtrancl_refl)
  then have run: "server_step\<^sup>*\<^sup>* ?s0 ?s7" using fresh_connected by (rule rtranclp_trans [rotated])
  have "fst (drain_capture [] st evs) = []"
    if "list_all (\<lambda>ev. \<not> is_emergency ev) evs" "ed_route (ds_edge st) = Remote s" for st s evs
    using that
  proof (induction evs arbitrary: st)
    case (Cons ev evs)
    then obtain ed' where "ed_route ed' = Remote s" "drain_step [] st ev =
        ([], \<lparr>ds_edge = ed', ds_last_mouse = ds_last_mouse st\<rparr>)"
      by (auto elim!: drain_step_remote [of st s ev "[]"] simp: drain_forward_def)
    with Cons show ?case by (simp split: prod.split)
  qed simp
  with run show ?thesis
    by (intro exI [of _ ?s0] exI [of _ ?s7]) (simp add: fresh_spawn list_all_iff)
qed

text \<open>
  A connection that ends takes all connections of its peer id with it: after the event no handle
  with that id is left, the others stay in order. A peer that reconnects before its old connection
  is reported as ended therefore loses the new one, and the route its fallback target.
\<close>

theorem disconnect_drops_reconnection:
  assumes "peer_event_server n (peers, ed) (SrvConnected h) = (sp, peers1, ed1)"
    and "peer_event_server n (peers1, ed1) (SrvDisconnected (ph_peer_id h)) = (sp', peers2, ed2)"
  shows "h \<notin> set peers2 \<and> peers2 = filter (\<lambda>q. ph_peer_id q \<noteq> ph_peer_id h) peers \<and>
    (list_all (\<lambda>q. ph_peer_id q = ph_peer_id h) peers \<longrightarrow> peers2 = [] \<and> ed_auto_peer ed2 = None)"
  using assms by (auto simp: retain_peers_def list_all_iff Let_def)

theorem disconnect_drops_reconnection_witness:
  "let old = sample_peer; new = sample_peer\<lparr>ph_chan := 1\<rparr>;
       mid = snd (peer_event_server 2000 ([old], sample_edge) (SrvConnected new));
       late = snd (peer_event_server 2000 mid (SrvDisconnected (ph_peer_id new)))
   in fst late = [] \<and> ed_auto_peer (snd late) = None"
proof -
  let ?new = "sample_peer\<lparr>ph_chan := 1\<rparr>"
  let ?m = "peer_event_server 2000 ([sample_peer], sample_edge) (SrvConnected ?new)"
  let ?l = "peer_event_server 2000 (fst (snd ?m), snd (snd ?m)) (SrvDisconnected (ph_peer_id ?new))"
  have "?m = (fst ?m, fst (snd ?m), snd (snd ?m))" "?l = (fst ?l, fst (snd ?l), snd (snd ?l))" by simp_all
  from disconnect_drops_reconnection [OF this] show ?thesis by (simp add: Let_def)
qed

end
