(* ===== verification/Heartbeat.thy ===== *)
theory Heartbeat
  imports SessionClient
begin

text \<open>
  The heartbeat of a connection (\<open>crates/daemon/src/heartbeat.rs\<close>): the pings one side sends and
  what the other side's inbound loop answers.
\<close>

text \<open>The interval is never shorter than half a second.\<close>

definition heartbeat_interval :: "u64 \<Rightarrow> u64" where
  "heartbeat_interval ms = max ms 500"

text \<open>
  The ticks after the first one, each with the time it shows and whether the outbound channel still
  takes the ping; the task ends at the first one that is not taken.
\<close>

fun heartbeat_loop :: "u64 \<Rightarrow> (u64 \<times> bool) list \<Rightarrow> Message list" where
  "heartbeat_loop nonce [] = []"
| "heartbeat_loop nonce ((ts, ok) # ticks) =
     (let n = nonce + 1 in if ok then M_Ping n ts # heartbeat_loop n ticks else [])"

definition spawn_heartbeat :: "(u64 \<times> bool) list \<Rightarrow> Message list" where
  "spawn_heartbeat ticks = heartbeat_loop 0 ticks"

lemma heartbeat_loop_pings:
  "heartbeat_loop nonce ticks =
     map (\<lambda>(i, ts). M_Ping (nonce + 1 + word_of_nat i) ts)
       (enumerate 0 (map fst (takeWhile snd ticks)))"
proof (induction nonce ticks rule: heartbeat_loop.induct)
  case (2 nonce ts ok ticks)
  then show ?case
    by (simp add: Let_def enumerate_map_upt enumerate_Suc_eq o_def split: prod.split)
qed simp

text \<open>
  Every ping is answered: as long as the channel takes them the pings carry the nonces 1, 2, 3,
  ... with the time of their tick, and the other side, in either role, replies to each one, in
  order, with a pong of the same nonce and time and does nothing else.
\<close>

theorem heartbeat_answered:
  "inbound_loop is_client (spawn_heartbeat ticks) =
     map (\<lambda>(i, ts). Reply (M_Pong (word_of_nat (Suc i)) ts))
       (enumerate 0 (map fst (takeWhile snd ticks)))"
  by (simp add: spawn_heartbeat_def heartbeat_loop_pings inbound_loop_def o_def case_prod_unfold)

end
