(* ===== verification/FilePaths.thy ===== *)
theory FilePaths
  imports CoreTypes "HOL-Library.Sublist"
begin

text \<open>
  Relative paths of a file offer (\<open>sanitize\<close> of \<open>crates/filetransfer/src/lib.rs\<close>) over the
  path components of the standard library on Unix, and the part of a file system that the
  receiver uses. A location is the list of names from the root; links are not modelled.
\<close>

section \<open>Path components\<close>

datatype component = C_RootDir | C_CurDir | C_ParentDir | C_Normal string

type_synonym loc = "string list"

fun split_on :: "char \<Rightarrow> string \<Rightarrow> string list" where
  "split_on c [] = [[]]"
| "split_on c (x # xs) =
     (if x = c then [] # split_on c xs
      else (case split_on c xs of [] \<Rightarrow> [[x]] | s # ss \<Rightarrow> (x # s) # ss))"

definition is_absolute :: "string \<Rightarrow> bool" where
  "is_absolute p \<longleftrightarrow> (case p of [] \<Rightarrow> False | c # _ \<Rightarrow> c = CHR ''/'')"

definition segment_component :: "string \<Rightarrow> component" where
  "segment_component s = (if s = ''..'' then C_ParentDir else C_Normal s)"

text \<open>
  Empty segments and dots are dropped, except a dot at the very beginning; a leading separator is
  the root.
\<close>

definition path_components :: "string \<Rightarrow> component list" where
  "path_components p =
     (let segs = split_on CHR ''/'' p;
          body = map segment_component (filter (\<lambda>s. s \<noteq> [] \<and> s \<noteq> ''.'') segs)
      in if is_absolute p then C_RootDir # body
         else if hd segs = ''.'' then C_CurDir # body
         else body)"

text \<open>Where the operating system goes when it follows components from a directory.\<close>

fun follow :: "loc \<Rightarrow> component \<Rightarrow> loc" where
  "follow l C_RootDir = []"
| "follow l C_CurDir = l"
| "follow l C_ParentDir = butlast l"
| "follow l (C_Normal n) = l @ [n]"

definition resolve :: "loc \<Rightarrow> string \<Rightarrow> loc" where
  "resolve dir p = foldl follow dir (path_components p)"

section \<open>Sanitizing\<close>

definition replace_backslash :: "string \<Rightarrow> string" where
  "replace_backslash rel = map (\<lambda>c. if c = CHR 0x5C then CHR ''/'' else c) rel"

fun is_normal :: "component \<Rightarrow> bool" where
  "is_normal (C_Normal _) \<longleftrightarrow> True"
| "is_normal _ \<longleftrightarrow> False"

definition sanitize :: "string \<Rightarrow> Error + string" where
  "sanitize rel0 =
     (let rel = replace_backslash rel0 in
      if is_absolute rel then Err (EOther (''absolute path rejected: '' @ rel))
      else if list_all is_normal (path_components rel) then Ok rel
      else Err (EOther (''suspicious path component in: '' @ rel)))"

section \<open>Files\<close>

text \<open>
  The files with their bytes and the directories. Which calls of the operating system succeed is
  not up to the program: \<open>io_dir\<close>, \<open>io_create\<close>, \<open>io_open\<close> say so, and \<open>io_write\<close> gives the
  number of bytes that reach the file before a write fails, or \<open>None\<close> when it succeeds.
\<close>

record FileSystem =
  fs_files :: "loc \<Rightarrow> bytes option"
  fs_dirs :: "loc \<Rightarrow> bool"

record IoWorld =
  io_dir :: "loc \<Rightarrow> bool"
  io_create :: "loc \<Rightarrow> bool"
  io_open :: "loc \<Rightarrow> bool"
  io_write :: "loc \<Rightarrow> nat \<Rightarrow> nat option"

definition create_dir_all :: "IoWorld \<Rightarrow> loc \<Rightarrow> FileSystem \<Rightarrow> (Error + unit) \<times> FileSystem" where
  "create_dir_all io l fs =
     (if io_dir io l then (Ok (), fs\<lparr>fs_dirs := (\<lambda>d. fs_dirs fs d \<or> prefix d l)\<rparr>)
      else (Err (EIo ''create_dir_all''), fs))"

text \<open>Creating truncates; a directory of that name makes it fail.\<close>

definition file_create :: "IoWorld \<Rightarrow> loc \<Rightarrow> FileSystem \<Rightarrow> (Error + unit) \<times> FileSystem" where
  "file_create io l fs =
     (if io_create io l \<and> \<not> fs_dirs fs l then (Ok (), fs\<lparr>fs_files := (fs_files fs)(l \<mapsto> [])\<rparr>)
      else (Err (EIo ''create''), fs))"

text \<open>Bytes written at an offset; a gap after the end reads as zeros.\<close>

definition write_at :: "bytes \<Rightarrow> nat \<Rightarrow> bytes \<Rightarrow> bytes" where
  "write_at old off new =
     take off old @ replicate (off - length old) 0 @ new @ drop (off + length new) old"

text \<open>Open an existing file for writing, seek, write everything, flush.\<close>

definition file_write ::
  "IoWorld \<Rightarrow> loc \<Rightarrow> nat \<Rightarrow> bytes \<Rightarrow> FileSystem \<Rightarrow> (Error + unit) \<times> FileSystem" where
  "file_write io l off new fs =
     (case fs_files fs l of
        None \<Rightarrow> (Err (EIo ''open''), fs)
      | Some old \<Rightarrow>
          if \<not> io_open io l then (Err (EIo ''open''), fs)
          else (case io_write io l off of
                  None \<Rightarrow> (Ok (), fs\<lparr>fs_files := (fs_files fs)(l \<mapsto> write_at old off new)\<rparr>)
                | Some k \<Rightarrow>
                    (Err (EIo ''write''),
                     fs\<lparr>fs_files := (fs_files fs)(l \<mapsto> write_at old off (take k new))\<rparr>)))"

definition io_healthy :: "IoWorld \<Rightarrow> bool" where
  "io_healthy io \<longleftrightarrow>
     (\<forall>l. io_dir io l) \<and> (\<forall>l. io_create io l) \<and> (\<forall>l. io_open io l) \<and> (\<forall>l n. io_write io l n = None)"

definition io_all_ok :: IoWorld where
  "io_all_ok = \<lparr>io_dir = (\<lambda>_. True), io_create = (\<lambda>_. True), io_open = (\<lambda>_. True),
                io_write = (\<lambda>_ _. None)\<rparr>"

lemma io_all_ok_healthy [simp]: "io_healthy io_all_ok"
  by (simp add: io_healthy_def io_all_ok_def)

section \<open>Facts\<close>

lemma write_at_end [file_simps]: "write_at old (length old) new = old @ new"
  by (simp add: write_at_def)

lemma foldl_follow_normal:
  "list_all is_normal cs \<Longrightarrow> \<exists>names. foldl follow l cs = l @ names \<and> length names = length cs"
proof (induction cs arbitrary: l)
  case (Cons c cs)
  then obtain n where "c = C_Normal n" by (cases c) auto
  moreover have "list_all is_normal cs" using Cons.prems by simp
  then obtain names where
    "foldl follow (l @ [n]) cs = (l @ [n]) @ names" "length names = length cs"
    using Cons.IH by blast
  ultimately show ?case by (intro exI [of _ "n # names"]) simp
qed simp

lemma split_on_no_sep: "s \<in> set (split_on c xs) \<Longrightarrow> c \<notin> set s"
proof (induction xs arbitrary: s)
  case (Cons x xs)
  then show ?case by (cases "split_on c xs") (auto split: if_splits)
qed simp

lemma split_on_nonempty [simp]: "split_on c xs \<noteq> []"
  by (cases xs) (auto split: list.split)

lemma path_components_names:
  "C_Normal n \<in> set (path_components p) \<Longrightarrow>
   n \<noteq> [] \<and> n \<noteq> ''.'' \<and> n \<noteq> ''..'' \<and> CHR ''/'' \<notin> set n"
  by (auto simp: path_components_def segment_component_def Let_def dest: split_on_no_sep
      split: if_splits)

lemma sanitize_Ok_iff:
  "sanitize rel = Ok p \<longleftrightarrow>
   p = replace_backslash rel \<and> \<not> is_absolute p \<and> list_all is_normal (path_components p)"
  by (auto simp: sanitize_def Let_def)

lemma resolve_sanitized:
  assumes "sanitize rel = Ok p"
  shows "\<exists>names. resolve dir p = dir @ names \<and> length names = length (path_components p)"
  using assms foldl_follow_normal unfolding resolve_def sanitize_Ok_iff by blast

end
