(* ===== verification/FileReceiver.thy ===== *)
theory FileReceiver
  imports FilePaths WireMessage
begin

text \<open>
  The receiving side of a file transfer and the bookkeeping of the sending side
  (\<open>crates/filetransfer/src/lib.rs\<close>). The blake3 digest of a byte sequence is a parameter
  \<open>blake3\<close>; an incremental hasher is the sequence of bytes it has absorbed.
\<close>

section \<open>Interface of a chunk receiver\<close>

text \<open>
  What the sender of a file relies on. A chunk that continues the file where the receiver stands
  is appended; a chunk that is not the last one is acknowledged; the last one is acknowledged if
  and only if the whole file has the announced digest; a chunk at any other offset is refused
  and changes nothing.
\<close>

locale chunk_receiver =
  fixes put :: "'s \<Rightarrow> FileChunk \<Rightarrow> (Error + u64) option \<times> 's"
    and content :: "'s \<Rightarrow> u64 \<Rightarrow> nat \<Rightarrow> bytes"
    and ready :: "'s \<Rightarrow> u64 \<Rightarrow> nat \<Rightarrow> bool"
    and digest_ok :: "'s \<Rightarrow> u64 \<Rightarrow> nat \<Rightarrow> bool"
  assumes accept_state:
      "ready s t i \<Longrightarrow> fc_transfer_id c = t \<Longrightarrow> unat (fc_file_index c) = i \<Longrightarrow>
       fc_offset c = word_of_nat (length (content s t i)) \<Longrightarrow>
       length (content s t i) + length (fc_data c) < 2 ^ 64 \<Longrightarrow> put s c = (r, s') \<Longrightarrow>
       ready s' t i \<and> content s' t i = content s t i @ fc_data c"
    and accept_verdict:
      "ready s t i \<Longrightarrow> fc_transfer_id c = t \<Longrightarrow> unat (fc_file_index c) = i \<Longrightarrow>
       fc_offset c = word_of_nat (length (content s t i)) \<Longrightarrow>
       length (content s t i) + length (fc_data c) < 2 ^ 64 \<Longrightarrow> put s c = (r, s') \<Longrightarrow>
       \<exists>v. r = Some v \<and> (is_ok v \<longleftrightarrow> (fc_is_last c \<longrightarrow> digest_ok s' t i))"
    and refuse:
      "ready s t i \<Longrightarrow> fc_transfer_id c = t \<Longrightarrow> unat (fc_file_index c) = i \<Longrightarrow>
       fc_offset c \<noteq> word_of_nat (length (content s t i)) \<Longrightarrow> put s c = (r, s') \<Longrightarrow>
       s' = s \<and> (\<exists>e. r = Some (Err e))"

text \<open>A sequence of chunks, with the outcomes of the calls.\<close>

fun feed ::
  "('s \<Rightarrow> FileChunk \<Rightarrow> 'r \<times> 's) \<Rightarrow> 's \<Rightarrow> FileChunk list \<Rightarrow> 'r list \<times> 's" where
  "feed f s [] = ([], s)"
| "feed f s (c # cs) =
     (case f s c of (r, s1) \<Rightarrow> (case feed f s1 cs of (rs, s2) \<Rightarrow> (r # rs, s2)))"

text \<open>The chunks of one file, each starting where the one before it ends.\<close>

fun contiguous :: "u64 \<Rightarrow> nat \<Rightarrow> nat \<Rightarrow> FileChunk list \<Rightarrow> bool" where
  "contiguous t i off [] \<longleftrightarrow> True"
| "contiguous t i off (c # cs) \<longleftrightarrow>
     fc_transfer_id c = t \<and> unat (fc_file_index c) = i \<and> fc_offset c = word_of_nat off \<and>
     contiguous t i (off + length (fc_data c)) cs"

fun last_only :: "FileChunk list \<Rightarrow> bool" where
  "last_only [] \<longleftrightarrow> True"
| "last_only (c # cs) \<longleftrightarrow> (fc_is_last c \<longrightarrow> cs = []) \<and> last_only cs"

context chunk_receiver
begin

lemma feed_contiguous:
  assumes "ready s t i" and "contiguous t i (length (content s t i)) cs" and "last_only cs"
    and "length (content s t i) + length (concat (map fc_data cs)) < 2 ^ 64"
    and "feed put s cs = (rs, s')"
  shows "ready s' t i \<and> content s' t i = content s t i @ concat (map fc_data cs) \<and>
    (\<exists>vs. rs = map Some vs \<and> (list_all is_ok vs \<longleftrightarrow> ((\<exists>c \<in> set cs. fc_is_last c) \<longrightarrow> digest_ok s' t i)))"
  using assms
proof (induction cs arbitrary: s rs)
  case (Cons c cs)
  obtain r s1 where p: "put s c = (r, s1)" by (cases "put s c")
  obtain rs2 where q: "feed put s1 cs = (rs2, s')" and rs: "rs = r # rs2"
    using Cons.prems(5) p by (auto split: prod.splits)
  have c: "fc_transfer_id c = t" "unat (fc_file_index c) = i"
    "fc_offset c = word_of_nat (length (content s t i))"
    "length (content s t i) + length (fc_data c) < 2 ^ 64"
    using Cons.prems by simp_all
  have s1: "ready s1 t i" "content s1 t i = content s t i @ fc_data c"
    using accept_state [OF Cons.prems(1) c p] by simp_all
  obtain v where v: "r = Some v" "is_ok v \<longleftrightarrow> (fc_is_last c \<longrightarrow> digest_ok s1 t i)"
    using accept_verdict [OF Cons.prems(1) c p] by blast
  have IH: "ready s' t i \<and> content s' t i = content s1 t i @ concat (map fc_data cs) \<and>
    (\<exists>vs. rs2 = map Some vs \<and> (list_all is_ok vs \<longleftrightarrow> ((\<exists>c \<in> set cs. fc_is_last c) \<longrightarrow> digest_ok s' t i)))"
    using Cons.prems s1 q by (intro Cons.IH) simp_all
  then obtain vs where vs: "rs2 = map Some vs"
    "list_all is_ok vs \<longleftrightarrow> ((\<exists>c \<in> set cs. fc_is_last c) \<longrightarrow> digest_ok s' t i)" by blast
  have "list_all is_ok (v # vs) \<longleftrightarrow> ((\<exists>c \<in> set (c # cs). fc_is_last c) \<longrightarrow> digest_ok s' t i)"
  proof (cases "fc_is_last c")
    case True
    then have "cs = []" using Cons.prems(3) by simp
    then have "s' = s1" "vs = []" using q vs(1) by auto
    then show ?thesis using v True by simp
  next
    case False
    then show ?thesis using v vs by simp
  qed
  moreover have "rs = map Some (v # vs)" using rs v vs by simp
  ultimately show ?case using IH s1 by (metis append.assoc concat.simps(2) list.simps(9))
qed simp

lemma feed_refuse:
  assumes "ready s t i"
    and "\<forall>c \<in> set cs. fc_transfer_id c = t \<and> unat (fc_file_index c) = i \<and>
      fc_offset c \<noteq> word_of_nat (length (content s t i))"
    and "feed put s cs = (rs, s')"
  shows "s' = s \<and> (\<forall>r \<in> set rs. \<exists>e. r = Some (Err e))"
  using assms
proof (induction cs arbitrary: rs)
  case (Cons c cs)
  obtain r s1 where p: "put s c = (r, s1)" by (cases "put s c")
  then have "s1 = s \<and> (\<exists>e. r = Some (Err e))" using Cons.prems(1,2) by (intro refuse [OF Cons.prems(1) _ _ _ p]) auto
  then show ?case using Cons.IH [OF Cons.prems(1)] Cons.prems(2,3) p by (auto split: prod.splits)
qed simp

end

section \<open>Sender bookkeeping\<close>

record SendProgress =
  sp_manifest :: FileManifest
  sp_bytes_sent :: u64
  sp_bytes_acked :: u64

type_synonym SenderState = "u64 \<Rightarrow> SendProgress option"

definition sender_new :: SenderState where
  "sender_new = Map.empty"

definition sender_insert :: "u64 \<Rightarrow> SendProgress \<Rightarrow> SenderState \<Rightarrow> SenderState" where
  "sender_insert k v s = s(k \<mapsto> v)"

definition sender_start :: "u64 \<Rightarrow> FileManifest \<Rightarrow> SenderState \<Rightarrow> SenderState" where
  "sender_start tid m s =
     sender_insert tid \<lparr>sp_manifest = m, sp_bytes_sent = 0, sp_bytes_acked = 0\<rparr> s"

definition record_sent :: "u64 \<Rightarrow> u64 \<Rightarrow> SenderState \<Rightarrow> SenderState" where
  "record_sent tid n s =
     (case s tid of
        None \<Rightarrow> s
      | Some p \<Rightarrow> s(tid \<mapsto> p\<lparr>sp_bytes_sent := sp_bytes_sent p + n\<rparr>))"

definition record_ack :: "u64 \<Rightarrow> u64 \<Rightarrow> SenderState \<Rightarrow> SenderState" where
  "record_ack tid through s =
     (case s tid of
        None \<Rightarrow> s
      | Some p \<Rightarrow> s(tid \<mapsto> p\<lparr>sp_bytes_acked := through\<rparr>))"

section \<open>Manifests\<close>

text \<open>
  Opening a file fails or yields the results of its successive reads, each an I/O error or some
  bytes; the file ends at the first empty one.
\<close>

type_synonym reads = "(string + bytes) list"

type_synonym reader = "string \<Rightarrow> string + reads"

fun read_all :: "reads \<Rightarrow> string + bytes" where
  "read_all [] = Ok []"
| "read_all (Inl e # rs) = Err e"
| "read_all (Inr b # rs) =
     (if b = [] then Ok [] else try_then (read_all rs) (\<lambda>bs. Ok (b @ bs)))"

definition path_join :: "string \<Rightarrow> string \<Rightarrow> string" where
  "path_join root file =
     (if is_absolute file then file
      else if root = [] \<or> last root = CHR ''/'' then root @ file
      else root @ ''/'' @ file)"

definition build_entry ::
  "(bytes \<Rightarrow> hash) \<Rightarrow> reader \<Rightarrow> string \<Rightarrow> string \<Rightarrow> Error + FileEntry" where
  "build_entry blake3 rd root file =
     try_then (map_err EIo (rd (path_join root file)))
       (\<lambda>rs. try_then (map_err EIo (read_all rs))
         (\<lambda>b. Ok \<lparr>fe_relative_path = file, fe_size = word_of_nat (length b),
                  fe_blake3 = blake3 b\<rparr>))"

fun build_entries ::
  "(bytes \<Rightarrow> hash) \<Rightarrow> reader \<Rightarrow> string \<Rightarrow> string list \<Rightarrow> Error + (FileEntry list \<times> u64)" where
  "build_entries blake3 rd root [] = Ok ([], 0)"
| "build_entries blake3 rd root (f # fs) =
     try_then (build_entry blake3 rd root f)
       (\<lambda>e. try_then (build_entries blake3 rd root fs)
         (\<lambda>(es, total). Ok (e # es, fe_size e + total)))"

definition build_manifest ::
  "(bytes \<Rightarrow> hash) \<Rightarrow> reader \<Rightarrow> string \<Rightarrow> string list \<Rightarrow> Error + FileManifest" where
  "build_manifest blake3 rd root files =
     try_then (build_entries blake3 rd root files)
       (\<lambda>(es, total). Ok \<lparr>fm_files = es, fm_total_bytes = total\<rparr>)"

section \<open>The receiver\<close>

record RecvProgress =
  rp_manifest :: FileManifest
  rp_paths :: "loc list"
  rp_bytes_received :: "u64 list"
  rp_hashers :: "bytes list"

record Receiver =
  rc_fs :: FileSystem
  rc_transfers :: "u64 \<Rightarrow> RecvProgress option"

text \<open>A receiver knows no transfer yet; the files are those it finds.\<close>

definition receiver_new :: "FileSystem \<Rightarrow> Receiver" where
  "receiver_new fs = \<lparr>rc_fs = fs, rc_transfers = Map.empty\<rparr>"

text \<open>The loop of \<open>begin\<close>: directories and empty files, up to the first failure.\<close>

fun begin_files ::
  "IoWorld \<Rightarrow> loc \<Rightarrow> FileEntry list \<Rightarrow> FileSystem \<Rightarrow> (Error + loc list) \<times> FileSystem" where
  "begin_files io drop_dir [] fs = (Ok [], fs)"
| "begin_files io drop_dir (e # es) fs =
     (case sanitize (fe_relative_path e) of
        Inl err \<Rightarrow> (Err err, fs)
      | Inr sanitized \<Rightarrow>
          (let abs = resolve drop_dir sanitized in
           case (if abs = [] then (Ok (), fs) else create_dir_all io (butlast abs) fs) of
             (Inl err, fs1) \<Rightarrow> (Err err, fs1)
           | (Inr _, fs1) \<Rightarrow>
               (case file_create io abs fs1 of
                  (Inl err, fs2) \<Rightarrow> (Err err, fs2)
                | (Inr _, fs2) \<Rightarrow>
                    (case begin_files io drop_dir es fs2 of
                       (Inl err, fs3) \<Rightarrow> (Err err, fs3)
                     | (Inr paths, fs3) \<Rightarrow> (Ok (abs # paths), fs3)))))"

definition receiver_begin ::
  "IoWorld \<Rightarrow> loc \<Rightarrow> Receiver \<Rightarrow> u64 \<Rightarrow> FileManifest \<Rightarrow> (Error + unit) \<times> Receiver" where
  "receiver_begin io drop_dir rc tid m =
     (case create_dir_all io drop_dir (rc_fs rc) of
        (Inl err, fs) \<Rightarrow> (Err err, rc\<lparr>rc_fs := fs\<rparr>)
      | (Inr _, fs) \<Rightarrow>
          (case begin_files io drop_dir (fm_files m) fs of
             (Inl err, fs1) \<Rightarrow> (Err err, rc\<lparr>rc_fs := fs1\<rparr>)
           | (Inr paths, fs1) \<Rightarrow>
               (let n = length (fm_files m) in
                (Ok (), rc\<lparr>rc_fs := fs1,
                           rc_transfers := (rc_transfers rc)(tid \<mapsto>
                             \<lparr>rp_manifest = m, rp_paths = paths,
                              rp_bytes_received = replicate n 0,
                              rp_hashers = replicate n []\<rparr>)\<rparr>))))"

text \<open>The first critical section of \<open>write_chunk\<close>: path, expected offset, hasher.\<close>

definition chunk_lookup :: "Receiver \<Rightarrow> FileChunk \<Rightarrow> Error + (loc \<times> u64 \<times> bytes)" where
  "chunk_lookup rc c =
     (case rc_transfers rc (fc_transfer_id c) of
        None \<Rightarrow> Err (EOther ''unknown transfer'')
      | Some p \<Rightarrow>
          (let i = unat (fc_file_index c) in
           if length (rp_paths p) \<le> i then Err (EOther ''file index out of range'')
           else Ok (rp_paths p ! i, rp_bytes_received p ! i, rp_hashers p ! i)))"

text \<open>
  The second critical section, after the bytes went to disk. Indexing out of range panics:
  that outcome is \<open>None\<close>.
\<close>

definition chunk_commit ::
  "(bytes \<Rightarrow> hash) \<Rightarrow> Receiver \<Rightarrow> FileChunk \<Rightarrow> bytes \<Rightarrow> (Error + u64) option \<times> Receiver" where
  "chunk_commit blake3 rc c new_hasher =
     (case rc_transfers rc (fc_transfer_id c) of
        None \<Rightarrow> (Some (Err (EOther ''unknown transfer'')), rc)
      | Some p \<Rightarrow>
          (let i = unat (fc_file_index c) in
           if length (rp_bytes_received p) \<le> i \<or> length (rp_hashers p) \<le> i then (None, rc)
           else
             (let received = (rp_bytes_received p)
                    [i := rp_bytes_received p ! i + word_of_nat (length (fc_data c))];
                  hashers = (rp_hashers p)[i := new_hasher];
                  rc' = rc\<lparr>rc_transfers := (rc_transfers rc)(fc_transfer_id c \<mapsto>
                           p\<lparr>rp_bytes_received := received, rp_hashers := hashers\<rparr>)\<rparr>
              in if fc_is_last c \<and> length (fm_files (rp_manifest p)) \<le> i then (None, rc')
                 else if fc_is_last c \<and>
                   blake3 (hashers ! i) \<noteq> fe_blake3 (fm_files (rp_manifest p) ! i)
                 then (Some (Err (EOther (''blake3 mismatch on '' @ [CHR 0x27] @
                         fe_relative_path (fm_files (rp_manifest p) ! i) @ [CHR 0x27]))), rc')
                 else (Some (Ok (sum_list received)), rc'))))"

definition out_of_order :: "u64 \<Rightarrow> u64 \<Rightarrow> Error" where
  "out_of_order expected got =
     EOther (''chunk out of order: expected offset '' @ show_nat (unat expected) @
             '', got '' @ show_nat (unat got))"

definition write_chunk ::
  "IoWorld \<Rightarrow> (bytes \<Rightarrow> hash) \<Rightarrow> Receiver \<Rightarrow> FileChunk \<Rightarrow> (Error + u64) option \<times> Receiver" where
  "write_chunk io blake3 rc c =
     (case chunk_lookup rc c of
        Inl err \<Rightarrow> (Some (Err err), rc)
      | Inr (path, expected, hasher) \<Rightarrow>
          if fc_offset c \<noteq> expected then (Some (Err (out_of_order expected (fc_offset c))), rc)
          else (case file_write io path (unat (fc_offset c)) (fc_data c) (rc_fs rc) of
                  (Inl err, fs) \<Rightarrow> (Some (Err err), rc\<lparr>rc_fs := fs\<rparr>)
                | (Inr _, fs) \<Rightarrow>
                    chunk_commit blake3 (rc\<lparr>rc_fs := fs\<rparr>) c (hasher @ fc_data c)))"

definition resume_offsets :: "Receiver \<Rightarrow> u64 \<Rightarrow> u64 list option" where
  "resume_offsets rc tid = map_option rp_bytes_received (rc_transfers rc tid)"

section \<open>Invariant of a transfer\<close>

text \<open>
  The vectors of a transfer have one entry per file; each file on disk holds exactly the bytes
  its hasher absorbed, and the counter is their number.
\<close>

definition progress_wf :: "RecvProgress \<Rightarrow> bool" where
  "progress_wf p \<longleftrightarrow>
     length (rp_paths p) = length (fm_files (rp_manifest p)) \<and>
     length (rp_bytes_received p) = length (fm_files (rp_manifest p)) \<and>
     length (rp_hashers p) = length (fm_files (rp_manifest p))"

definition transfer_file :: "Receiver \<Rightarrow> u64 \<Rightarrow> nat \<Rightarrow> bytes" where
  "transfer_file rc tid i =
     (case rc_transfers rc tid of
        None \<Rightarrow> []
      | Some p \<Rightarrow> if i < length (rp_paths p)
                   then (case fs_files (rc_fs rc) (rp_paths p ! i) of None \<Rightarrow> [] | Some b \<Rightarrow> b)
                   else [])"

definition transfer_ready :: "Receiver \<Rightarrow> u64 \<Rightarrow> nat \<Rightarrow> bool" where
  "transfer_ready rc tid i \<longleftrightarrow>
     (\<exists>p. rc_transfers rc tid = Some p \<and> progress_wf p \<and> i < length (rp_paths p) \<and>
          fs_files (rc_fs rc) (rp_paths p ! i) = Some (rp_hashers p ! i) \<and>
          rp_bytes_received p ! i = word_of_nat (length (rp_hashers p ! i)))"

definition transfer_digest_ok :: "(bytes \<Rightarrow> hash) \<Rightarrow> Receiver \<Rightarrow> u64 \<Rightarrow> nat \<Rightarrow> bool" where
  "transfer_digest_ok blake3 rc tid i \<longleftrightarrow>
     (case rc_transfers rc tid of
        None \<Rightarrow> False
      | Some p \<Rightarrow> blake3 (transfer_file rc tid i) = fe_blake3 (fm_files (rp_manifest p) ! i))"

lemma transfer_readyE:
  assumes "transfer_ready rc tid i"
  obtains p where "rc_transfers rc tid = Some p" "progress_wf p" "i < length (rp_paths p)"
    "i < length (rp_bytes_received p)" "i < length (rp_hashers p)"
    "i < length (fm_files (rp_manifest p))"
    "fs_files (rc_fs rc) (rp_paths p ! i) = Some (transfer_file rc tid i)"
    "rp_hashers p ! i = transfer_file rc tid i"
    "rp_bytes_received p ! i = word_of_nat (length (transfer_file rc tid i))"
proof -
  obtain p where p: "rc_transfers rc tid = Some p" "progress_wf p" "i < length (rp_paths p)"
    "fs_files (rc_fs rc) (rp_paths p ! i) = Some (rp_hashers p ! i)"
    "rp_bytes_received p ! i = word_of_nat (length (rp_hashers p ! i))"
    using assms unfolding transfer_ready_def by blast
  have "transfer_file rc tid i = rp_hashers p ! i"
    using p by (simp add: transfer_file_def)
  with p show thesis
    by (intro that) (simp_all add: progress_wf_def)
qed

lemma transfer_readyD:
  assumes "transfer_ready rc tid i" and "rc_transfers rc tid = Some p"
  shows "progress_wf p" "i < length (rp_paths p)"
    "i < length (rp_bytes_received p)" "i < length (rp_hashers p)"
    "i < length (fm_files (rp_manifest p))"
    "fs_files (rc_fs rc) (rp_paths p ! i) = Some (transfer_file rc tid i)"
    "rp_hashers p ! i = transfer_file rc tid i"
    "rp_bytes_received p ! i = word_of_nat (length (transfer_file rc tid i))"
proof -
  obtain q where "rc_transfers rc tid = Some q" "progress_wf q" "i < length (rp_paths q)"
    "i < length (rp_bytes_received q)" "i < length (rp_hashers q)"
    "i < length (fm_files (rp_manifest q))"
    "fs_files (rc_fs rc) (rp_paths q ! i) = Some (transfer_file rc tid i)"
    "rp_hashers q ! i = transfer_file rc tid i"
    "rp_bytes_received q ! i = word_of_nat (length (transfer_file rc tid i))"
    using transfer_readyE [OF assms(1)] .
  moreover then have "q = p" using assms(2) by simp
  ultimately show "progress_wf p" "i < length (rp_paths p)"
    "i < length (rp_bytes_received p)" "i < length (rp_hashers p)"
    "i < length (fm_files (rp_manifest p))"
    "fs_files (rc_fs rc) (rp_paths p ! i) = Some (transfer_file rc tid i)"
    "rp_hashers p ! i = transfer_file rc tid i"
    "rp_bytes_received p ! i = word_of_nat (length (transfer_file rc tid i))"
    by simp_all
qed

text \<open>A chunk at the expected offset, with a disk that works: the state it leaves.\<close>

definition appended :: "Receiver \<Rightarrow> u64 \<Rightarrow> RecvProgress \<Rightarrow> nat \<Rightarrow> bytes \<Rightarrow> Receiver" where
  "appended rc t p i new =
     rc\<lparr>rc_fs := (rc_fs rc)\<lparr>fs_files := (fs_files (rc_fs rc))(rp_paths p ! i \<mapsto> new)\<rparr>,
        rc_transfers := (rc_transfers rc)(t \<mapsto>
          p\<lparr>rp_bytes_received := (rp_bytes_received p)[i := word_of_nat (length new)],
            rp_hashers := (rp_hashers p)[i := new]\<rparr>)\<rparr>"

lemma write_chunk_appended:
  assumes rdy: "transfer_ready rc t i" and io: "io_healthy io"
    and c: "fc_transfer_id c = t" "unat (fc_file_index c) = i"
      "fc_offset c = word_of_nat (length (transfer_file rc t i))"
    and len: "length (transfer_file rc t i) + length (fc_data c) < 2 ^ 64"
    and w: "write_chunk io blake3 rc c = (r, rc')"
    and p: "rc_transfers rc t = Some p"
  shows "rc' = appended rc t p i (transfer_file rc t i @ fc_data c)"
    and "\<exists>v. r = Some v \<and> (is_ok v \<longleftrightarrow> (fc_is_last c \<longrightarrow>
      blake3 (transfer_file rc t i @ fc_data c) = fe_blake3 (fm_files (rp_manifest p) ! i)))"
proof -
  let ?old = "transfer_file rc t i" and ?new = "transfer_file rc t i @ fc_data c"
  have q: "i < length (rp_paths p)" "i < length (rp_bytes_received p)" "i < length (rp_hashers p)"
    "i < length (fm_files (rp_manifest p))"
    "fs_files (rc_fs rc) (rp_paths p ! i) = Some ?old" "rp_hashers p ! i = ?old"
    "rp_bytes_received p ! i = word_of_nat (length ?old)"
    using transfer_readyD [OF rdy p] by simp_all
  have off: "unat (fc_offset c) = length ?old"
    using c(3) len by (simp add: unsigned_of_nat take_bit_nat_eq_self)
  define fs where "fs = (rc_fs rc)\<lparr>fs_files := (fs_files (rc_fs rc))(rp_paths p ! i \<mapsto> ?new)\<rparr>"
  have fw: "file_write io (rp_paths p ! i) (unat (fc_offset c)) (fc_data c) (rc_fs rc) = (Ok (), fs)"
    using q(5) io off by (simp add: file_write_def io_healthy_def write_at_end fs_def)
  have eq: "write_chunk io blake3 rc c = chunk_commit blake3 (rc\<lparr>rc_fs := fs\<rparr>) c ?new"
    using p q c fw by (simp add: write_chunk_def chunk_lookup_def Let_def)
  have "rc' = appended rc t p i ?new \<and> (\<exists>v. r = Some v \<and> (is_ok v \<longleftrightarrow>
      (fc_is_last c \<longrightarrow> blake3 ?new = fe_blake3 (fm_files (rp_manifest p) ! i))))"
    using w eq p q c
    by (auto simp: chunk_commit_def Let_def appended_def fs_def not_le split: if_splits)
  then show "rc' = appended rc t p i ?new"
    and "\<exists>v. r = Some v \<and> (is_ok v \<longleftrightarrow>
      (fc_is_last c \<longrightarrow> blake3 ?new = fe_blake3 (fm_files (rp_manifest p) ! i)))"
    by blast+
qed

text \<open>What appending to one file does to that file and to the others of the transfer.\<close>

lemma appended_same:
  assumes "transfer_ready rc t i" and "rc_transfers rc t = Some p"
  shows "transfer_ready (appended rc t p i new) t i"
    and "transfer_file (appended rc t p i new) t i = new"
    and "transfer_digest_ok blake3 (appended rc t p i new) t i \<longleftrightarrow>
      blake3 new = fe_blake3 (fm_files (rp_manifest p) ! i)"
proof -
  have p: "progress_wf p" "i < length (rp_paths p)" "i < length (rp_bytes_received p)"
    "i < length (rp_hashers p)"
    using transfer_readyD [OF assms] by simp_all
  then show "transfer_ready (appended rc t p i new) t i"
    by (simp add: transfer_ready_def appended_def progress_wf_def)
  show "transfer_file (appended rc t p i new) t i = new"
    using p by (simp add: transfer_file_def appended_def)
  then show "transfer_digest_ok blake3 (appended rc t p i new) t i \<longleftrightarrow>
      blake3 new = fe_blake3 (fm_files (rp_manifest p) ! i)"
    by (simp add: transfer_digest_ok_def) (simp add: appended_def)
qed

lemma appended_other:
  assumes "transfer_ready rc t j" and "rc_transfers rc t = Some p"
    and "distinct (rp_paths p)" and "i < length (rp_paths p)" and "j \<noteq> i"
  shows "transfer_ready (appended rc t p i new) t j"
    and "transfer_file (appended rc t p i new) t j = transfer_file rc t j"
    and "transfer_digest_ok blake3 (appended rc t p i new) t j \<longleftrightarrow>
      transfer_digest_ok blake3 rc t j"
proof -
  have p: "progress_wf p" "j < length (rp_paths p)" "rp_paths p ! j \<noteq> rp_paths p ! i"
    "fs_files (rc_fs rc) (rp_paths p ! j) = Some (rp_hashers p ! j)"
    "rp_bytes_received p ! j = word_of_nat (length (rp_hashers p ! j))"
    using transfer_readyD [OF assms(1,2)] assms(3-5) by (simp_all add: nth_eq_iff_index_eq)
  show "transfer_ready (appended rc t p i new) t j"
    using p assms(5) by (simp add: transfer_ready_def appended_def progress_wf_def)
  show "transfer_file (appended rc t p i new) t j = transfer_file rc t j"
    using p assms(2) by (simp add: transfer_file_def appended_def)
  then show "transfer_digest_ok blake3 (appended rc t p i new) t j \<longleftrightarrow>
      transfer_digest_ok blake3 rc t j"
    using assms(2) by (simp add: transfer_digest_ok_def) (simp add: appended_def)
qed

lemma write_chunk_refuse:
  assumes "transfer_ready rc t i" "fc_transfer_id c = t" "unat (fc_file_index c) = i"
    and "fc_offset c \<noteq> word_of_nat (length (transfer_file rc t i))"
  shows "write_chunk io blake3 rc c =
    (Some (Err (out_of_order (word_of_nat (length (transfer_file rc t i))) (fc_offset c))), rc)"
proof -
  obtain p where "rc_transfers rc t = Some p" "i < length (rp_paths p)"
    "rp_bytes_received p ! i = word_of_nat (length (transfer_file rc t i))"
    using transfer_readyE [OF assms(1)] by metis
  with assms(2-) show ?thesis
    by (simp add: write_chunk_def chunk_lookup_def Let_def)
qed

text \<open>
  After \<open>begin\<close> succeeded every file of the manifest exists, is empty and is expected from offset
  0; the paths are the sanitized ones under the drop directory.
\<close>

definition placed :: "loc \<Rightarrow> FileEntry \<Rightarrow> loc \<Rightarrow> bool" where
  "placed drop_dir e l \<longleftrightarrow>
     (case sanitize (fe_relative_path e) of Inl _ \<Rightarrow> False | Inr p \<Rightarrow> l = resolve drop_dir p)"

lemma create_dir_all_files:
  "create_dir_all io l fs = (r, fs') \<Longrightarrow> fs_files fs' = fs_files fs"
  by (auto simp: create_dir_all_def split: if_splits)

lemma file_create_files:
  "file_create io l fs = (Inr u, fs') \<Longrightarrow> fs_files fs' = (fs_files fs)(l \<mapsto> [])"
  by (auto simp: file_create_def split: if_splits)

lemma begin_files_Ok:
  assumes "begin_files io drop_dir es fs = (Inr paths, fs')"
  shows "list_all2 (placed drop_dir) es paths \<and>
    (\<forall>l. fs_files fs' l = (if l \<in> set paths then Some [] else fs_files fs l))"
  using assms
proof (induction es arbitrary: fs paths)
  case (Cons e es)
  obtain p where p: "sanitize (fe_relative_path e) = Inr p"
    using Cons.prems by (cases "sanitize (fe_relative_path e)") simp_all
  let ?l = "resolve drop_dir p"
  obtain u1 fs1 where d: "(if ?l = [] then (Ok (), fs) else create_dir_all io (butlast ?l) fs) = (Inr u1, fs1)"
    using Cons.prems p by (auto simp: Let_def split: prod.splits sum.splits)
  obtain u2 fs2 where c: "file_create io ?l fs1 = (Inr u2, fs2)"
    using Cons.prems p d by (auto simp: Let_def split: prod.splits sum.splits)
  obtain ps where r: "begin_files io drop_dir es fs2 = (Inr ps, fs')" and paths: "paths = ?l # ps"
    using Cons.prems p d c by (auto simp: Let_def split: prod.splits sum.splits)
  have "fs_files fs1 = fs_files fs" using d by (auto dest: create_dir_all_files split: if_splits)
  then have "fs_files fs2 = (fs_files fs)(?l \<mapsto> [])" using file_create_files [OF c] by simp
  then show ?case using Cons.IH [OF r] paths p by (auto simp: placed_def)
qed simp

lemma receiver_begin_Ok:
  assumes "receiver_begin io drop_dir rc t m = (Inr u, rc')"
  obtains p where "rc_transfers rc' t = Some p" "rp_manifest p = m"
    "list_all2 (placed drop_dir) (fm_files m) (rp_paths p)"
    "\<And>i. i < length (fm_files m) \<Longrightarrow> transfer_ready rc' t i \<and> transfer_file rc' t i = []"
proof -
  obtain u1 fs where d: "create_dir_all io drop_dir (rc_fs rc) = (Inr u1, fs)"
    using assms by (auto simp: receiver_begin_def split: prod.splits sum.splits)
  obtain paths fs1 where b: "begin_files io drop_dir (fm_files m) fs = (Inr paths, fs1)"
    using assms d by (auto simp: receiver_begin_def split: prod.splits sum.splits)
  let ?p = "\<lparr>rp_manifest = m, rp_paths = paths, rp_bytes_received = replicate (length (fm_files m)) 0,
     rp_hashers = replicate (length (fm_files m)) []\<rparr>"
  have rc': "rc' = rc\<lparr>rc_fs := fs1, rc_transfers := (rc_transfers rc)(t \<mapsto> ?p)\<rparr>"
    using assms d b by (simp add: receiver_begin_def Let_def)
  have l2: "list_all2 (placed drop_dir) (fm_files m) paths" using begin_files_Ok [OF b] by blast
  then have len: "length paths = length (fm_files m)" by (simp add: list_all2_lengthD)
  have "transfer_ready rc' t i \<and> transfer_file rc' t i = []" if "i < length (fm_files m)" for i
    using that begin_files_Ok [OF b] len
    by (simp add: rc' transfer_ready_def transfer_file_def progress_wf_def)
  moreover have "rc_transfers rc' t = Some ?p" by (simp add: rc')
  ultimately show thesis using that l2 by simp
qed

text \<open>The receiver on a disk that works is a chunk receiver.\<close>

interpretation recv: chunk_receiver "write_chunk io_all_ok blake3" transfer_file transfer_ready
  "transfer_digest_ok blake3" for blake3
proof
  fix s t i c r s'
  assume a: "transfer_ready s t i" "fc_transfer_id c = t" "unat (fc_file_index c) = i"
    "write_chunk io_all_ok blake3 s c = (r, s')"
  obtain p where p: "rc_transfers s t = Some p" using a(1) by (rule transfer_readyE)
  {
    assume b: "fc_offset c = word_of_nat (length (transfer_file s t i))"
      "length (transfer_file s t i) + length (fc_data c) < 2 ^ 64"
    note w = write_chunk_appended [OF a(1) io_all_ok_healthy a(2,3) b a(4) p]
    show "transfer_ready s' t i \<and> transfer_file s' t i = transfer_file s t i @ fc_data c"
      using appended_same [OF a(1) p] w(1) by simp
    show "\<exists>v. r = Some v \<and> is_ok v = (fc_is_last c \<longrightarrow> transfer_digest_ok blake3 s' t i)"
      using appended_same(3) [OF a(1) p] w by simp
  }
  {
    assume "fc_offset c \<noteq> word_of_nat (length (transfer_file s t i))"
    then show "s' = s \<and> (\<exists>e. r = Some (Err e))"
      using write_chunk_refuse [OF a(1-3), of io_all_ok blake3] a(4) by auto
  }
qed

interpretation sender: key_store sender_insert "\<lambda>s. s"
  by unfold_locales (simp_all add: sender_insert_def)

end
