(* ===== verification/FileSender.thy ===== *)
theory FileSender
  imports FileReceiver
begin

text \<open>
  The file transfer manager (\<open>crates/daemon/src/filetransfer_mgr.rs\<close>): reading the files in
  chunks, announcing the transfer on the control channel, streaming the chunks on a stream of
  its own, and the handlers of the receiving side.
\<close>

section \<open>Streaming one file\<close>

definition DEFAULT_CHUNK_SIZE :: nat where
  "DEFAULT_CHUNK_SIZE = 64 * 1024"

text \<open>
  The loop over the reads of one open file. \<open>wr c\<close> tells whether writing the chunk \<open>c\<close> to the
  stream succeeds. The result is the chunks that were written, and how the loop ended. A read
  that fills less than the buffer counts as the last one.
\<close>

fun stream_file ::
  "(FileChunk \<Rightarrow> bool) \<Rightarrow> u64 \<Rightarrow> u32 \<Rightarrow> u64 \<Rightarrow> reads \<Rightarrow> (string + unit) \<times> FileChunk list" where
  "stream_file wr tid i offset [] = (Ok (), [])"
| "stream_file wr tid i offset (Inl e # rs) = (Err ''read chunk'', [])"
| "stream_file wr tid i offset (Inr b # rs) =
     (let n = length b;
          is_last = n < DEFAULT_CHUNK_SIZE;
          chunk = \<lparr>fc_transfer_id = tid, fc_file_index = i, fc_offset = offset,
                   fc_data = b, fc_is_last = is_last\<rparr>
      in if n = 0 then (Ok (), [])
         else if \<not> wr chunk then (Err ''write chunk'', [])
         else if is_last then (Ok (), [chunk])
         else (case stream_file wr tid i (offset + word_of_nat n) rs of
                 (r, cs) \<Rightarrow> (r, chunk # cs)))"

text \<open>All files of the manifest, in order; the first failure ends the transfer.\<close>

fun stream_files ::
  "(FileChunk \<Rightarrow> bool) \<Rightarrow> reader \<Rightarrow> u64 \<Rightarrow> string \<Rightarrow> nat \<Rightarrow> FileEntry list \<Rightarrow>
   (string + unit) \<times> FileChunk list" where
  "stream_files wr rd tid root i [] = (Ok (), [])"
| "stream_files wr rd tid root i (e # es) =
     (let abs = path_join root (fe_relative_path e) in
      case rd abs of
        Inl err \<Rightarrow> (Err (''open '' @ abs), [])
      | Inr rs \<Rightarrow>
          (case stream_file wr tid (word_of_nat i) 0 rs of
             (Inl err, cs) \<Rightarrow> (Err err, cs)
           | (Inr _, cs) \<Rightarrow>
               (case stream_files wr rd tid root (Suc i) es of
                  (r, ds) \<Rightarrow> (r, cs @ ds))))"

section \<open>Sending files\<close>

text \<open>
  What the call meets outside the program: the file system at the two times it is read (for
  the manifest and for the chunks), and whether the control channel takes the offer, the stream
  opens and each chunk is written.
\<close>

record SendWorld =
  sw_manifest_reader :: reader
  sw_stream_reader :: reader
  sw_send :: bool
  sw_open_bi :: bool
  sw_write :: "FileChunk \<Rightarrow> bool"

record SendResult =
  sr_result :: "string + u64"
  sr_seq :: u64
  sr_control :: "Message list"
  sr_stream :: "FileChunk list"

definition send_files ::
  "(bytes \<Rightarrow> hash) \<Rightarrow> SendWorld \<Rightarrow> u64 \<Rightarrow> string \<Rightarrow> string list \<Rightarrow> bool \<Rightarrow> SendResult" where
  "send_files blake3 w seq root files compress =
     (case build_manifest blake3 (sw_manifest_reader w) root files of
        Inl err \<Rightarrow> \<lparr>sr_result = Err ''build manifest'', sr_seq = seq, sr_control = [], sr_stream = []\<rparr>
      | Inr manifest \<Rightarrow>
          (let offer = M_FileOfferStart
                 \<lparr>fo_transfer_id = seq, fo_manifest = manifest, fo_compressed = compress\<rparr>
           in if \<not> sw_send w then
                \<lparr>sr_result = Err ''peer outbound channel closed'', sr_seq = seq + 1,
                 sr_control = [], sr_stream = []\<rparr>
              else if \<not> sw_open_bi w then
                \<lparr>sr_result = Err ''open file stream'', sr_seq = seq + 1,
                 sr_control = [offer], sr_stream = []\<rparr>
              else
                (case stream_files (sw_write w) (sw_stream_reader w) seq root 0
                        (fm_files manifest) of
                   (r, cs) \<Rightarrow>
                     \<lparr>sr_result = (case r of Inl err \<Rightarrow> Err err | Inr _ \<Rightarrow> Ok seq),
                      sr_seq = seq + 1, sr_control = [offer], sr_stream = cs\<rparr>)))"

section \<open>The receiving handlers\<close>

record FileTransferManager =
  ftm_drop_dir :: loc
  ftm_receiver :: Receiver

definition file_transfer_new :: "FileSystem \<Rightarrow> loc \<Rightarrow> FileTransferManager" where
  "file_transfer_new fs drop_dir = \<lparr>ftm_drop_dir = drop_dir, ftm_receiver = receiver_new fs\<rparr>"

text \<open>The number of the first transfer.\<close>

definition TRANSFER_ID_SEQ :: u64 where
  "TRANSFER_ID_SEQ = 1"

definition handle_offer ::
  "IoWorld \<Rightarrow> loc \<Rightarrow> Receiver \<Rightarrow> FileOffer \<Rightarrow> (Error + unit) \<times> Receiver" where
  "handle_offer io drop_dir rc offer =
     receiver_begin io drop_dir rc (fo_transfer_id offer) (fo_manifest offer)"

definition handle_chunk ::
  "IoWorld \<Rightarrow> (bytes \<Rightarrow> hash) \<Rightarrow> Receiver \<Rightarrow> FileChunk \<Rightarrow> (Error + u64) option \<times> Receiver" where
  "handle_chunk io blake3 rc c = write_chunk io blake3 rc c"

section \<open>The reads of a regular file\<close>

text \<open>
  A regular file read with a buffer of 64 KiB: full reads, a shorter one for the rest, then an
  empty one.
\<close>

function full_reads :: "bytes \<Rightarrow> reads" where
  "full_reads bs =
     (if bs = [] then [Ok []]
      else Ok (take DEFAULT_CHUNK_SIZE bs) # full_reads (drop DEFAULT_CHUNK_SIZE bs))"
  by auto
termination
  by (relation "measure length") (simp_all add: DEFAULT_CHUNK_SIZE_def)

declare full_reads.simps [simp del]

lemma full_reads_Nil [simp]: "full_reads [] = [Ok []]"
  by (simp add: full_reads.simps)

lemma chunk_size_pos [simp]: "0 < DEFAULT_CHUNK_SIZE" "DEFAULT_CHUNK_SIZE \<noteq> 0"
  by (simp_all add: DEFAULT_CHUNK_SIZE_def)

lemma read_all_full: "read_all (full_reads bs) = Ok bs"
proof (induction bs rule: full_reads.induct)
  case (1 bs)
  then show ?case by (cases "bs = []") (simp_all add: full_reads.simps [of bs])
qed

section \<open>Facts about the stream\<close>

lemma stream_file_shape:
  "stream_file wr tid i (word_of_nat off) rs = (r, cs) \<Longrightarrow>
   contiguous tid (unat i) off cs \<and> last_only cs"
proof (induction rs arbitrary: off r cs)
  case (Cons b rs)
  show ?case
  proof (cases b)
    case (Inr d)
    then show ?thesis
      using Cons.prems Cons.IH [of "off + length d"]
      by (auto simp: Let_def split: if_splits prod.splits)
  qed (use Cons.prems in auto)
qed simp

lemma stream_file_data:
  "stream_file wr tid i off rs = (r, cs) \<Longrightarrow> \<forall>c \<in> set cs. fc_data c \<noteq> []"
proof (induction rs arbitrary: off r cs)
  case (Cons b rs)
  show ?case
  proof (cases b)
    case (Inr d)
    then show ?thesis
      using Cons.prems Cons.IH by (fastforce simp: Let_def split: if_splits prod.splits)
  qed (use Cons.prems in auto)
qed simp

lemma stream_file_full:
  "stream_file (\<lambda>_. True) tid i off (full_reads bs) = (r, cs) \<Longrightarrow>
   r = Ok () \<and> concat (map fc_data cs) = bs \<and>
   ((\<exists>c \<in> set cs. fc_is_last c) \<longleftrightarrow> length bs mod DEFAULT_CHUNK_SIZE \<noteq> 0)"
proof (induction bs arbitrary: off r cs rule: full_reads.induct)
  case (1 bs)
  show ?case
  proof (cases "bs = []")
    case True
    then show ?thesis using "1.prems" by (auto simp: Let_def)
  next
    case False
    note eq = full_reads.simps [of bs]
    show ?thesis
    proof (cases "length bs < DEFAULT_CHUNK_SIZE")
      case True
      then show ?thesis using "1.prems" False eq by (auto simp: Let_def)
    next
      case long: False
      obtain r' cs' where rec: "stream_file (\<lambda>_. True) tid i (off + word_of_nat DEFAULT_CHUNK_SIZE)
          (full_reads (drop DEFAULT_CHUNK_SIZE bs)) = (r', cs')" by fastforce
      have IH: "r' = Ok () \<and> concat (map fc_data cs') = drop DEFAULT_CHUNK_SIZE bs \<and>
          ((\<exists>c \<in> set cs'. fc_is_last c) \<longleftrightarrow>
            length (drop DEFAULT_CHUNK_SIZE bs) mod DEFAULT_CHUNK_SIZE \<noteq> 0)"
        using "1.IH" [OF False rec] .
      moreover have "length (drop DEFAULT_CHUNK_SIZE bs) mod DEFAULT_CHUNK_SIZE =
          length bs mod DEFAULT_CHUNK_SIZE"
        using long by (simp add: le_mod_geq)
      moreover have len: "length (take DEFAULT_CHUNK_SIZE bs) = DEFAULT_CHUNK_SIZE"
        using long by simp
      have "\<exists>c. \<not> fc_is_last c \<and> fc_data c = take DEFAULT_CHUNK_SIZE bs \<and> r = r' \<and> cs = c # cs'"
        using "1.prems" False eq rec len by (auto simp: Let_def simp del: length_take)
      ultimately show ?thesis by auto
    qed
  qed
qed

lemma contiguous_offsets:
  assumes "contiguous t i off cs" and "0 < off" and "off + length (concat (map fc_data cs)) < 2 ^ 64"
  shows "\<forall>c \<in> set cs. fc_transfer_id c = t \<and> unat (fc_file_index c) = i \<and> fc_offset c \<noteq> 0"
  using assms
proof (induction cs arbitrary: off)
  case (Cons c cs)
  have "unat (fc_offset c) = off"
    using Cons.prems by (simp add: unsigned_of_nat take_bit_nat_eq_self)
  then have "fc_offset c \<noteq> 0" using Cons.prems(2) by auto
  then show ?case using Cons.prems Cons.IH [of "off + length (fc_data c)"] by simp
qed simp

section \<open>A whole transfer\<close>

lemma is_ok_iff: "is_ok r \<longleftrightarrow> (\<exists>x. r = Ok x)"
  by (cases r) simp_all

lemma feed_append:
  "feed f s (xs @ ys) =
     (case feed f s xs of (rs, s1) \<Rightarrow> (case feed f s1 ys of (rs', s2) \<Rightarrow> (rs @ rs', s2)))"
  by (induction xs arbitrary: s) (simp_all split: prod.splits)

text \<open>The chunks of one file leave the rest of the transfer alone.\<close>

definition others_kept :: "Receiver \<Rightarrow> Receiver \<Rightarrow> u64 \<Rightarrow> nat \<Rightarrow> bool" where
  "others_kept rc rc' t i \<longleftrightarrow>
     map_option rp_paths (rc_transfers rc' t) = map_option rp_paths (rc_transfers rc t) \<and>
     map_option rp_manifest (rc_transfers rc' t) = map_option rp_manifest (rc_transfers rc t) \<and>
     (\<forall>j. j \<noteq> i \<longrightarrow> transfer_ready rc t j \<longrightarrow>
        transfer_ready rc' t j \<and> transfer_file rc' t j = transfer_file rc t j)"

lemma others_kept_refl [simp]: "others_kept rc rc t i"
  by (simp add: others_kept_def)

lemma others_kept_trans: "others_kept a b t i \<Longrightarrow> others_kept b c t i \<Longrightarrow> others_kept a c t i"
  by (simp add: others_kept_def)

lemma feed_others:
  assumes "transfer_ready rc t i" and "map_option rp_paths (rc_transfers rc t) = Some ps"
    and "distinct ps" and "contiguous t i (length (transfer_file rc t i)) cs"
    and "length (transfer_file rc t i) + length (concat (map fc_data cs)) < 2 ^ 64"
    and "feed (write_chunk io_all_ok blake3) rc cs = (rs, rc')"
  shows "others_kept rc rc' t i"
  using assms
proof (induction cs arbitrary: rc rs)
  case (Cons c cs)
  obtain r rc1 where w: "write_chunk io_all_ok blake3 rc c = (r, rc1)" by fastforce
  obtain rs2 where q: "feed (write_chunk io_all_ok blake3) rc1 cs = (rs2, rc')"
    using Cons.prems(6) w by (auto split: prod.splits)
  obtain p where p: "rc_transfers rc t = Some p" "rp_paths p = ps" using Cons.prems(2) by auto
  let ?new = "transfer_file rc t i @ fc_data c"
  have rc1: "rc1 = appended rc t p i ?new"
    using Cons.prems by (intro write_chunk_appended(1) [OF _ io_all_ok_healthy _ _ _ _ w p(1)]) simp_all
  have i: "i < length (rp_paths p)" using transfer_readyD [OF Cons.prems(1) p(1)] by simp
  have "others_kept rc rc1 t i"
    using appended_other(1,2) [OF _ p(1) _ i] p Cons.prems(3)
    by (simp add: rc1 others_kept_def) (simp add: appended_def)
  moreover have "others_kept rc1 rc' t i"
    using Cons.prems appended_same(1,2) [OF Cons.prems(1) p(1)] p q
    by (intro Cons.IH) (simp_all add: rc1, simp_all add: appended_def)
  ultimately show ?case by (rule others_kept_trans)
qed simp

lemma stream_files_feed:
  assumes "map_option rp_paths (rc_transfers rc t) = Some ps" and "distinct ps"
    and "map_option rp_manifest (rc_transfers rc t) = Some m"
    and "\<forall>j < length (fm_files m). transfer_ready rc t j"
    and "\<forall>j < length (fm_files m). k \<le> j \<longrightarrow> transfer_file rc t j = []"
    and "drop k (fm_files m) = es" and "length (fm_files m) < 2 ^ 32"
    and "\<forall>e \<in> set (fm_files m). rd (path_join root (fe_relative_path e)) = Ok (full_reads (cont e)) \<and>
           length (cont e) < 2 ^ 64 \<and> blake3 (cont e) = fe_blake3 e"
    and "stream_files (\<lambda>_. True) rd t root k es = (r, cs)"
    and "feed (write_chunk io_all_ok blake3) rc cs = (rs, rc')"
  shows "r = Ok () \<and> (\<forall>v \<in> set rs. \<exists>n. v = Some (Ok n)) \<and>
    map_option rp_paths (rc_transfers rc' t) = Some ps \<and>
    (\<forall>j < length (fm_files m). transfer_ready rc' t j \<and>
       transfer_file rc' t j = (if k \<le> j then cont (fm_files m ! j) else transfer_file rc t j))"
  using assms
proof (induction es arbitrary: k rc r cs rs)
  case Nil
  then show ?case by auto
next
  case (Cons e es)
  have k: "k < length (fm_files m)" "fm_files m ! k = e" "drop (Suc k) (fm_files m) = es"
    using Cons.prems(6)
    by (auto simp: drop_Suc drop_tl nth_via_drop) (metis drop_all list.distinct(1) not_le)
  then have e: "e \<in> set (fm_files m)" by force
  let ?i = "word_of_nat k :: u32"
  have i: "unat ?i = k"
    using k(1) Cons.prems(7) by (simp add: unsigned_of_nat take_bit_nat_eq_self)
  obtain r1 cs1 where s1: "stream_file (\<lambda>_. True) t ?i 0 (full_reads (cont e)) = (r1, cs1)"
    by fastforce
  have full: "r1 = Ok ()" "concat (map fc_data cs1) = cont e" using stream_file_full [OF s1] by simp_all
  have shape: "contiguous t k 0 cs1" "last_only cs1"
    using stream_file_shape [of _ t ?i 0, simplified, OF s1] i by simp_all
  obtain r2 cs2 where s2: "stream_files (\<lambda>_. True) rd t root (Suc k) es = (r2, cs2)" by fastforce
  have cs: "r = r2" "cs = cs1 @ cs2"
    using Cons.prems(8,9) e s1 s2 full by (auto simp: Let_def)
  obtain rs1 rc1 where f1: "feed (write_chunk io_all_ok blake3) rc cs1 = (rs1, rc1)" by fastforce
  obtain rs2 where f2: "feed (write_chunk io_all_ok blake3) rc1 cs2 = (rs2, rc')" and rs: "rs = rs1 @ rs2"
    using Cons.prems(10) cs f1 by (auto simp: feed_append split: prod.splits)
  have rdy: "transfer_ready rc t k" "transfer_file rc t k = []" using Cons.prems(4,5) k by auto
  have sz: "length (cont e) < 2 ^ 64" "blake3 (cont e) = fe_blake3 e" using Cons.prems(8) e by auto
  have at: "transfer_ready rc1 t k \<and> transfer_file rc1 t k = cont e \<and>
     (\<exists>vs. rs1 = map Some vs \<and> (list_all is_ok vs \<longleftrightarrow>
       ((\<exists>c \<in> set cs1. fc_is_last c) \<longrightarrow> transfer_digest_ok blake3 rc1 t k)))"
    using recv.feed_contiguous [OF rdy(1) _ shape(2) _ f1] shape(1) rdy(2) full sz by simp
  have oth: "others_kept rc rc1 t k"
    using feed_others [OF rdy(1) Cons.prems(1,2) _ _ f1] shape(1) rdy(2) full sz by simp
  have dig: "transfer_digest_ok blake3 rc1 t k"
    using oth at Cons.prems(3) sz k by (auto simp: transfer_digest_ok_def others_kept_def)
  have ok1: "\<forall>v \<in> set rs1. \<exists>n. v = Some (Ok n)"
    using at dig by (auto simp: list_all_iff is_ok_iff)
  have IH: "r2 = Ok () \<and> (\<forall>v \<in> set rs2. \<exists>n. v = Some (Ok n)) \<and>
    map_option rp_paths (rc_transfers rc' t) = Some ps \<and>
    (\<forall>j < length (fm_files m). transfer_ready rc' t j \<and>
       transfer_file rc' t j = (if Suc k \<le> j then cont (fm_files m ! j) else transfer_file rc1 t j))"
  proof (rule Cons.IH [OF _ Cons.prems(2) _ _ _ k(3) Cons.prems(7,8) s2 f2])
    show "map_option rp_paths (rc_transfers rc1 t) = Some ps"
      "map_option rp_manifest (rc_transfers rc1 t) = Some m"
      using oth Cons.prems(1,3) by (simp_all add: others_kept_def)
    show "\<forall>j < length (fm_files m). transfer_ready rc1 t j"
      using oth at Cons.prems(4) by (metis others_kept_def)
    show "\<forall>j < length (fm_files m). Suc k \<le> j \<longrightarrow> transfer_file rc1 t j = []"
      using oth Cons.prems(4,5) by (auto simp: others_kept_def)
  qed
  have "transfer_file rc' t j = (if k \<le> j then cont (fm_files m ! j) else transfer_file rc t j)"
    if "j < length (fm_files m)" for j
    using that IH oth at k Cons.prems(4) by (cases "j = k") (auto simp: others_kept_def)
  then show ?case using IH ok1 cs rs by auto
qed

text \<open>The manifest of files that can be read: names as given, sizes and digests of the contents.\<close>

definition reads_as :: "(string \<Rightarrow> bytes) \<Rightarrow> reader" where
  "reads_as content path = Ok (full_reads (content path))"

definition healthy_world :: "(string \<Rightarrow> bytes) \<Rightarrow> SendWorld" where
  "healthy_world content =
     \<lparr>sw_manifest_reader = reads_as content, sw_stream_reader = reads_as content,
      sw_send = True, sw_open_bi = True, sw_write = (\<lambda>_. True)\<rparr>"

definition entry_of :: "(bytes \<Rightarrow> hash) \<Rightarrow> (string \<Rightarrow> bytes) \<Rightarrow> string \<Rightarrow> string \<Rightarrow> FileEntry" where
  "entry_of blake3 content root f =
     (let b = content (path_join root f)
      in \<lparr>fe_relative_path = f, fe_size = word_of_nat (length b), fe_blake3 = blake3 b\<rparr>)"

lemma build_entries_readable:
  "\<exists>total. build_entries blake3 (reads_as content) root files =
     Ok (map (entry_of blake3 content root) files, total)"
  by (induction files)
    (auto simp: build_entry_def reads_as_def read_all_full entry_of_def Let_def)

lemma placed_resolve:
  "placed drop_dir e l \<Longrightarrow> l = resolve drop_dir (replace_backslash (fe_relative_path e))"
  by (auto simp: placed_def sanitize_Ok_iff split: sum.splits)

lemma begin_locations:
  "list_all2 (placed drop_dir) es ps \<Longrightarrow>
   ps = map (\<lambda>e. resolve drop_dir (replace_backslash (fe_relative_path e))) es"
  by (induction rule: list_all2_induct) (auto dest: placed_resolve)

section \<open>Confinement\<close>

text \<open>
  What peers can make the receiver do: any offers and chunks in any order, while calls of the
  operating system succeed or fail in any way.
\<close>

inductive file_step :: "loc \<Rightarrow> (bytes \<Rightarrow> hash) \<Rightarrow> Receiver \<Rightarrow> Receiver \<Rightarrow> bool" for drop_dir blake3 where
  offer: "handle_offer io drop_dir rc o' = (r, rc') \<Longrightarrow> file_step drop_dir blake3 rc rc'"
| chunk: "handle_chunk io blake3 rc c = (r, rc') \<Longrightarrow> file_step drop_dir blake3 rc rc'"

inductive_cases file_stepE: "file_step drop_dir blake3 rc rc'"

text \<open>Every path in use is below the drop directory; every file outside is as it was.\<close>

definition confined :: "loc \<Rightarrow> (loc \<Rightarrow> bytes option) \<Rightarrow> Receiver \<Rightarrow> bool" where
  "confined drop_dir files0 rc \<longleftrightarrow>
     (\<forall>t p. rc_transfers rc t = Some p \<longrightarrow> list_all (prefix drop_dir) (rp_paths p)) \<and>
     (\<forall>l. \<not> prefix drop_dir l \<longrightarrow> fs_files (rc_fs rc) l = files0 l)"

lemma begin_files_outside:
  assumes "begin_files io drop_dir es fs = (r, fs')" and "\<not> prefix drop_dir l"
  shows "fs_files fs' l = fs_files fs l"
  using assms(1)
proof (induction es arbitrary: fs fs' r)
  case (Cons e es)
  show ?case
  proof (cases "sanitize (fe_relative_path e)")
    case (Inl err)
    then show ?thesis using Cons.prems by simp
  next
    case (Inr p)
    let ?l = "resolve drop_dir p"
    have l: "l \<noteq> ?l" using resolve_sanitized [OF Inr, of drop_dir] assms(2) by auto
    obtain r1 fs1 where d: "(if ?l = [] then (Ok (), fs) else create_dir_all io (butlast ?l) fs) = (r1, fs1)"
      by fastforce
    then have f1: "fs_files fs1 = fs_files fs" by (auto dest: create_dir_all_files split: if_splits)
    obtain r2 fs2 where c: "file_create io ?l fs1 = (r2, fs2)" by fastforce
    then have f2: "fs_files fs2 l = fs_files fs1 l" using l by (auto simp: file_create_def split: if_splits)
    obtain r3 fs3 where b: "begin_files io drop_dir es fs2 = (r3, fs3)" by fastforce
    then have f3: "fs_files fs3 l = fs_files fs2 l" by (rule Cons.IH)
    have "fs' \<in> {fs1, fs2, fs3}"
      using Cons.prems Inr d c b by (auto simp: Let_def split: sum.splits)
    then show ?thesis using f1 f2 f3 by auto
  qed
qed simp

lemma confined_begin:
  assumes "receiver_begin io drop_dir rc t m = (r, rc')" and "confined drop_dir files0 rc"
  shows "confined drop_dir files0 rc'"
proof -
  obtain r1 fs1 where d: "create_dir_all io drop_dir (rc_fs rc) = (r1, fs1)" by fastforce
  then have f1: "fs_files fs1 = fs_files (rc_fs rc)" by (rule create_dir_all_files)
  obtain r2 fs2 where b: "begin_files io drop_dir (fm_files m) fs1 = (r2, fs2)" by fastforce
  have f2: "fs_files fs2 l = fs_files (rc_fs rc) l" if "\<not> prefix drop_dir l" for l
    using begin_files_outside [OF b that] f1 by simp
  have "list_all (prefix drop_dir) ps" if "r2 = Inr ps" for ps
  proof -
    have "list_all2 (placed drop_dir) (fm_files m) ps" using begin_files_Ok b that by metis
    then show ?thesis
    proof (induction rule: list_all2_induct)
      case (Cons e es l ls)
      then have "prefix drop_dir l"
        using resolve_sanitized [of "fe_relative_path e" _ drop_dir]
        by (auto simp: placed_def split: sum.splits)
      then show ?case using Cons by simp
    qed simp
  qed
  then show ?thesis
    using assms f1 f2 d b
    by (auto simp: receiver_begin_def confined_def Let_def split: sum.splits if_splits)
qed

lemma confined_write_chunk:
  assumes "write_chunk io blake3 rc c = (r, rc')" and "confined drop_dir files0 rc"
  shows "confined drop_dir files0 rc'"
proof (cases "chunk_lookup rc c")
  case (Inl e)
  then show ?thesis using assms by (simp add: write_chunk_def)
next
  case (Inr x)
  obtain l expected hasher where x: "x = (l, expected, hasher)" by (cases x)
  have l: "prefix drop_dir l"
    using Inr x assms(2)
    by (auto simp: chunk_lookup_def Let_def confined_def list_all_length split: option.splits if_splits)
  obtain w fs where w: "file_write io l (unat (fc_offset c)) (fc_data c) (rc_fs rc) = (w, fs)" by fastforce
  then have fs: "fs_files fs l' = fs_files (rc_fs rc) l'" if "\<not> prefix drop_dir l'" for l'
    using that l by (auto simp: file_write_def split: option.splits if_splits)
  then have c1: "confined drop_dir files0 (rc\<lparr>rc_fs := fs\<rparr>)" using assms(2) by (simp add: confined_def)
  have "confined drop_dir files0 rc2" if "chunk_commit blake3 (rc\<lparr>rc_fs := fs\<rparr>) c h = (r2, rc2)" for h r2 rc2
    using that c1
    by (auto simp: chunk_commit_def confined_def Let_def split: option.splits if_splits)
  then show ?thesis
    using assms Inr x w c1 by (auto simp: write_chunk_def split: if_splits sum.splits)
qed

interpretation recv_sys: invariant_system
  "\<lambda>rc. rc_transfers rc = Map.empty \<and> fs_files (rc_fs rc) = files0" "file_step drop_dir blake3"
  "confined drop_dir files0" for drop_dir blake3 files0
proof
  show "confined drop_dir files0 rc"
    if "rc_transfers rc = Map.empty \<and> fs_files (rc_fs rc) = files0" for rc
    using that by (simp add: confined_def)
  show "confined drop_dir files0 rc'"
    if "confined drop_dir files0 rc" "file_step drop_dir blake3 rc rc'" for rc rc'
    using that(2,1) by (auto simp: handle_offer_def handle_chunk_def elim!: file_stepE
        intro: confined_begin confined_write_chunk)
qed

section \<open>Properties\<close>

lemma feed_handle_chunk: "feed (handle_chunk io blake3) = feed (write_chunk io blake3)"
  by (simp add: handle_chunk_def [abs_def])

lemma list_all2_map_left: "list_all2 P (map f xs) ys \<longleftrightarrow> list_all2 (\<lambda>x y. P (f x) y) xs ys"
  by (simp add: list_all2_map1)

lemma healthy_manifest:
  "\<exists>total. build_manifest blake3 (reads_as content) root files =
     Ok \<lparr>fm_files = map (entry_of blake3 content root) files, fm_total_bytes = total\<rparr>"
  using build_entries_readable [of blake3 content root files] by (auto simp: build_manifest_def)

lemma transfer_file_on_disk:
  "transfer_ready rc t i \<Longrightarrow> map_option rp_paths (rc_transfers rc t) = Some ps \<Longrightarrow>
   fs_files (rc_fs rc) (ps ! i) = Some (transfer_file rc t i)"
  using transfer_readyD(6) by fastforce

text \<open>
  C12: When the files can be read, the streams work and the receiver accepts the offer, every file
  arrives with exactly the sender's bytes, at the place its sanitized name denotes below the drop
  directory, every chunk is accepted, and the call returns the transfer's id. The chunks are
  those that \<open>send_files\<close> produces, of any number and size of files, provided no two names denote
  the same place.
\<close>

theorem transfer_roundtrip:
  assumes "send_files blake3 (healthy_world content) seq root files compress = res"
    and "sr_control res = [M_FileOfferStart offer]"
    and "handle_offer io_all_ok drop_dir rc offer = (Inr u, rc1)"
    and "feed (handle_chunk io_all_ok blake3) rc1 (sr_stream res) = (rs, rc2)"
    and "distinct (map (\<lambda>f. resolve drop_dir (replace_backslash f)) files)"
    and "length files < 2 ^ 32"
    and "\<forall>f \<in> set files. length (content (path_join root f)) < 2 ^ 64"
  shows "sr_result res = Ok seq \<and> (\<forall>v \<in> set rs. \<exists>n. v = Some (Ok n)) \<and>
    (\<forall>f \<in> set files. fs_files (rc_fs rc2) (resolve drop_dir (replace_backslash f)) =
       Some (content (path_join root f)))"
proof -
  let ?es = "map (entry_of blake3 content root) files"
  obtain total where m: "build_manifest blake3 (reads_as content) root files =
      Ok \<lparr>fm_files = ?es, fm_total_bytes = total\<rparr>" using healthy_manifest by blast
  obtain r cs where st: "stream_files (\<lambda>_. True) (reads_as content) seq root 0 ?es = (r, cs)" by fastforce
  have res: "sr_result res = (case r of Inl e \<Rightarrow> Err e | Inr _ \<Rightarrow> Ok seq)" "sr_stream res = cs"
    "fo_transfer_id offer = seq" "fm_files (fo_manifest offer) = ?es"
    using assms(1,2) m st by (auto simp: send_files_def healthy_world_def)
  obtain p where p: "rc_transfers rc1 seq = Some p" "rp_manifest p = fo_manifest offer"
    "list_all2 (placed drop_dir) ?es (rp_paths p)"
    "\<And>i. i < length ?es \<Longrightarrow> transfer_ready rc1 seq i \<and> transfer_file rc1 seq i = []"
    using receiver_begin_Ok [of io_all_ok drop_dir rc seq "fo_manifest offer" u rc1] assms(3) res(3,4)
    by (metis handle_offer_def)
  have ps: "rp_paths p = map (\<lambda>f. resolve drop_dir (replace_backslash f)) files"
    using begin_locations [OF p(3)] by (simp add: entry_of_def Let_def)
  have all: "r = Ok () \<and> (\<forall>v \<in> set rs. \<exists>n. v = Some (Ok n)) \<and>
    map_option rp_paths (rc_transfers rc2 seq) = Some (rp_paths p) \<and>
    (\<forall>j < length (fm_files (fo_manifest offer)). transfer_ready rc2 seq j \<and>
       transfer_file rc2 seq j = (if 0 \<le> j then content (path_join root (fe_relative_path
         (fm_files (fo_manifest offer) ! j))) else transfer_file rc1 seq j))"
    using stream_files_feed [of rc1 seq "rp_paths p" "fo_manifest offer" 0 ?es "reads_as content" root
        "\<lambda>e. content (path_join root (fe_relative_path e))" blake3 r cs rs rc2]
      p ps res assms(4-7) st
    by (auto simp: feed_handle_chunk reads_as_def entry_of_def Let_def)
  have "fs_files (rc_fs rc2) (resolve drop_dir (replace_backslash (files ! i))) =
      Some (content (path_join root (files ! i)))" if "i < length files" for i
    using transfer_file_on_disk [of rc2 seq i "rp_paths p"] that all res(4) ps
    by (simp add: entry_of_def Let_def)
  then show ?thesis using res all by (auto simp: in_set_conv_nth)
qed

definition idle_receiver :: Receiver where
  "idle_receiver = \<lparr>rc_fs = \<lparr>fs_files = Map.empty, fs_dirs = (\<lambda>_. False)\<rparr>, rc_transfers = Map.empty\<rparr>"

theorem transfer_roundtrip_witness:
  "let res = send_files (\<lambda>b. b) (healthy_world (\<lambda>p. if p = ''/r/a'' then [1, 2, 3] else [4])) 7
         ''/r'' [''a'', ''b''] False;
       rc1 = snd (receiver_begin io_all_ok [''d''] idle_receiver 7
         \<lparr>fm_files = map (entry_of (\<lambda>b. b) (\<lambda>p. if p = ''/r/a'' then [1, 2, 3] else [4]) ''/r'')
            [''a'', ''b''], fm_total_bytes = 4\<rparr>);
       rc2 = snd (feed (handle_chunk io_all_ok (\<lambda>b. b)) rc1 (sr_stream res))
   in sr_result res = Ok 7 \<and> fs_files (rc_fs rc2) [''d'', ''a''] = Some [1, 2, 3] \<and>
      fs_files (rc_fs rc2) [''d'', ''b''] = Some [4]"
proof -
  let ?content = "\<lambda>p. if p = ''/r/a'' then [1, 2, 3] else [4 :: u8]"
  let ?res = "send_files (\<lambda>b. b) (healthy_world ?content) 7 ''/r'' [''a'', ''b''] False"
  let ?m = "\<lparr>fm_files = map (entry_of (\<lambda>b. b) ?content ''/r'') [''a'', ''b''], fm_total_bytes = 4\<rparr>"
  let ?o = "\<lparr>fo_transfer_id = 7, fo_manifest = ?m, fo_compressed = False\<rparr>"
  let ?rc1 = "snd (receiver_begin io_all_ok [''d''] idle_receiver 7 ?m)"
  let ?fed = "feed (handle_chunk io_all_ok (\<lambda>b. b)) ?rc1 (sr_stream ?res)"
  have ctl: "sr_control ?res = [M_FileOfferStart ?o]"
    by (simp add: send_files_def healthy_world_def build_manifest_def build_entry_def reads_as_def
        read_all_full entry_of_def path_join_def is_absolute_def split: prod.split)
  have "handle_offer io_all_ok [''d''] idle_receiver ?o = (Inr (), ?rc1)"
    by (simp add: handle_offer_def receiver_begin_def create_dir_all_def file_create_def io_all_ok_def
        idle_receiver_def sanitize_def replace_backslash_def is_absolute_def path_components_def
        segment_component_def resolve_def entry_of_def Let_def)
  from transfer_roundtrip [OF refl ctl this, of "fst ?fed" "snd ?fed"]
  show ?thesis
    by (simp add: resolve_def path_components_def is_absolute_def segment_component_def
        replace_backslash_def path_join_def Let_def)
qed

text \<open>
  C34: The digest of a file is verified only through its last chunk. With a stream of full reads
  the receiver ends with exactly the bytes sent; its verdicts are all positive if and only if the
  size is a multiple of 64 KiB (the empty file included) or the digest of the bytes is the
  announced one. A wrong digest on a file of 64 KiB, 128 KiB, ... goes unnoticed.
\<close>

theorem digest_checked_iff:
  assumes "transfer_ready rc tid (unat i)" and "transfer_file rc tid (unat i) = []"
    and "length bs < 2 ^ 64"
    and "stream_file (\<lambda>_. True) tid i 0 (full_reads bs) = (r, cs)"
    and "feed (write_chunk io_all_ok blake3) rc cs = (rs, rc')"
  shows "transfer_file rc' tid (unat i) = bs \<and>
    ((\<forall>v \<in> set rs. \<exists>n. v = Some (Ok n)) \<longleftrightarrow>
     (length bs mod DEFAULT_CHUNK_SIZE = 0 \<or> transfer_digest_ok blake3 rc' tid (unat i)))"
proof -
  have full: "concat (map fc_data cs) = bs"
    "(\<exists>c \<in> set cs. fc_is_last c) \<longleftrightarrow> length bs mod DEFAULT_CHUNK_SIZE \<noteq> 0"
    using stream_file_full [OF assms(4)] by simp_all
  have "contiguous tid (unat i) 0 cs" "last_only cs"
    using stream_file_shape [of _ tid i 0, simplified, OF assms(4)] by simp_all
  with recv.feed_contiguous [OF assms(1) _ _ _ assms(5)] assms(2,3) full
  obtain vs where "transfer_file rc' tid (unat i) = bs" "rs = map Some vs"
    "list_all is_ok vs \<longleftrightarrow>
      (length bs mod DEFAULT_CHUNK_SIZE \<noteq> 0 \<longrightarrow> transfer_digest_ok blake3 rc' tid (unat i))"
    by auto
  then show ?thesis by (auto simp: list_all_iff is_ok_iff)
qed

definition begun_receiver :: Receiver where
  "begun_receiver =
     \<lparr>rc_fs = \<lparr>fs_files = [[''d'', ''a''] \<mapsto> []], fs_dirs = (\<lambda>l. l = [''d''])\<rparr>,
      rc_transfers = [7 \<mapsto> \<lparr>rp_manifest = \<lparr>fm_files = [\<lparr>fe_relative_path = ''a'', fe_size = 2,
        fe_blake3 = [1, 2]\<rparr>], fm_total_bytes = 2\<rparr>, rp_paths = [[''d'', ''a'']],
        rp_bytes_received = [0], rp_hashers = [[]]\<rparr>]\<rparr>"

lemma begun_ready: "transfer_ready begun_receiver 7 0" "transfer_file begun_receiver 7 0 = []"
  by (simp_all add: begun_receiver_def transfer_ready_def transfer_file_def progress_wf_def)

theorem digest_checked_iff_witness:
  "let fed = feed (write_chunk io_all_ok (\<lambda>b. b)) begun_receiver
         (snd (stream_file (\<lambda>_. True) 7 0 0 (full_reads [8, 9])))
   in transfer_file (snd fed) 7 0 = [8, 9] \<and> \<not> (\<forall>v \<in> set (fst fed). \<exists>n. v = Some (Ok n))"
proof -
  let ?st = "stream_file (\<lambda>_. True) 7 0 0 (full_reads [8, 9])"
  let ?fed = "feed (write_chunk io_all_ok (\<lambda>b. b)) begun_receiver (snd ?st)"
  have "\<not> transfer_digest_ok (\<lambda>b. b) (snd ?fed) 7 0"
    by (simp add: full_reads.simps DEFAULT_CHUNK_SIZE_def begun_receiver_def write_chunk_def
        chunk_lookup_def file_write_def io_all_ok_def chunk_commit_def write_at_def
        transfer_digest_ok_def transfer_file_def)
  then show ?thesis
    using digest_checked_iff [of begun_receiver 7 0 "[8, 9]" "fst ?st" "snd ?st" "\<lambda>b. b"
        "fst ?fed" "snd ?fed"] begun_ready
    by (simp add: DEFAULT_CHUNK_SIZE_def Let_def)
qed

text \<open>
  The offer travels on the control stream and the chunks on another one, and nothing orders
  the two. If the first chunk of a file is handled before the offer, it is
  refused, and so is every later one: after the whole transfer the file is empty, and no retry
  is made.
\<close>

theorem chunk_before_offer_loses_file:
  assumes "rc_transfers rc tid = None" and "length bs < 2 ^ 64"
    and "stream_file (\<lambda>_. True) tid i 0 (full_reads bs) = (r, c # cs)"
    and "handle_chunk io blake3 rc c = (v, rc1)"
    and "receiver_begin io_all_ok drop_dir rc1 tid m = (Inr u, rc2)"
    and "unat i < length (fm_files m)"
    and "feed (handle_chunk io_all_ok blake3) rc2 cs = (rs, rc3)"
  shows "v = Some (Err (EOther ''unknown transfer'')) \<and> rc1 = rc \<and> rc3 = rc2 \<and>
    transfer_file rc3 tid (unat i) = [] \<and> (\<forall>w \<in> set rs. \<exists>e. w = Some (Err e))"
proof -
  have shape: "contiguous tid (unat i) 0 (c # cs)"
    using stream_file_shape [of _ tid i 0, simplified, OF assms(3)] by simp
  have total: "concat (map fc_data (c # cs)) = bs" using stream_file_full [OF assms(3)] by simp
  have c: "fc_data c \<noteq> []" "fc_transfer_id c = tid"
    using stream_file_data [OF assms(3)] shape by simp_all
  have first: "v = Some (Err (EOther ''unknown transfer''))" "rc1 = rc"
    using assms(1,4) c by (auto simp: handle_chunk_def write_chunk_def chunk_lookup_def)
  obtain p where "\<And>j. j < length (fm_files m) \<Longrightarrow> transfer_ready rc2 tid j \<and> transfer_file rc2 tid j = []"
    using receiver_begin_Ok [OF assms(5)] by blast
  then have rdy: "transfer_ready rc2 tid (unat i)" "transfer_file rc2 tid (unat i) = []"
    using assms(6) by auto
  have "\<forall>c \<in> set cs. fc_transfer_id c = tid \<and> unat (fc_file_index c) = unat i \<and> fc_offset c \<noteq> 0"
    using contiguous_offsets [of tid "unat i" "length (fc_data c)" cs] shape c(1) total assms(2) by auto
  then show ?thesis
    using recv.feed_refuse [OF rdy(1), of cs blake3 rs rc3] rdy(2) assms(7) first
    by (simp add: feed_handle_chunk)
qed

theorem chunk_before_offer_loses_file_witness:
  "let cs = snd (stream_file (\<lambda>_. True) 7 0 0 (full_reads [8, 9]));
       m = \<lparr>fm_files = [\<lparr>fe_relative_path = ''a'', fe_size = 2, fe_blake3 = [8, 9]\<rparr>], fm_total_bytes = 2\<rparr>;
       rc1 = snd (handle_chunk io_all_ok (\<lambda>b. b) idle_receiver (hd cs));
       rc2 = snd (receiver_begin io_all_ok [''d''] rc1 7 m)
   in length cs = 1 \<and> fst (handle_chunk io_all_ok (\<lambda>b. b) idle_receiver (hd cs)) =
        Some (Err (EOther ''unknown transfer'')) \<and>
      transfer_file (snd (feed (handle_chunk io_all_ok (\<lambda>b. b)) rc2 (tl cs))) 7 0 = []"
proof -
  let ?st = "stream_file (\<lambda>_. True) 7 0 0 (full_reads [8, 9])"
  let ?c = "\<lparr>fc_transfer_id = 7, fc_file_index = 0, fc_offset = 0, fc_data = [8, 9], fc_is_last = True\<rparr>"
  let ?h = "handle_chunk io_all_ok (\<lambda>b. b) idle_receiver ?c"
  let ?m = "\<lparr>fm_files = [\<lparr>fe_relative_path = ''a'', fe_size = 2, fe_blake3 = [8, 9]\<rparr>], fm_total_bytes = 2\<rparr>"
  let ?b = "receiver_begin io_all_ok [''d''] idle_receiver 7 ?m"
  have st: "?st = (Ok (), [?c])" by (simp add: full_reads.simps DEFAULT_CHUNK_SIZE_def)
  have h: "?h = (Some (Err (EOther ''unknown transfer'')), idle_receiver)"
    by (simp add: handle_chunk_def write_chunk_def chunk_lookup_def idle_receiver_def)
  have b: "?b = (Inr (), snd ?b)"
    by (simp add: receiver_begin_def create_dir_all_def file_create_def io_all_ok_def
        idle_receiver_def sanitize_def replace_backslash_def is_absolute_def path_components_def
        segment_component_def resolve_def Let_def)
  have "rc_transfers idle_receiver 7 = None" by (simp add: idle_receiver_def)
  from chunk_before_offer_loses_file [OF this _ st h b _ feed.simps(1)]
  show ?thesis by (simp add: st h)
qed

text \<open>
  C11: Whatever a peer sends - any offers and chunks in any order, with any names in the manifests
  and any outcome of the file operations - the files outside the drop directory stay as they
  were, and every path the receiver uses lies below the drop directory.
\<close>

theorem files_outside_untouched:
  assumes "rc_transfers rc = Map.empty" and "(file_step drop_dir blake3)\<^sup>*\<^sup>* rc rc'"
  shows "(\<forall>l. \<not> prefix drop_dir l \<longrightarrow> fs_files (rc_fs rc') l = fs_files (rc_fs rc) l) \<and>
    (\<forall>tid p. rc_transfers rc' tid = Some p \<longrightarrow> list_all (prefix drop_dir) (rp_paths p))"
proof -
  have "confined drop_dir (fs_files (rc_fs rc)) rc'"
    using recv_sys.inv_reachable [of rc "fs_files (rc_fs rc)" drop_dir blake3 rc'] assms by simp
  then show ?thesis by (simp add: confined_def)
qed

definition hostile_offer :: FileOffer where
  "hostile_offer = \<lparr>fo_transfer_id = 7, fo_manifest = \<lparr>fm_files =
     [\<lparr>fe_relative_path = ''a'', fe_size = 2, fe_blake3 = [8, 9]\<rparr>,
      \<lparr>fe_relative_path = ''../b'', fe_size = 2, fe_blake3 = [8, 9]\<rparr>], fm_total_bytes = 4\<rparr>,
     fo_compressed = False\<rparr>"

theorem files_outside_untouched_witness:
  "let rc' = snd (handle_offer io_all_ok [''d''] idle_receiver hostile_offer)
   in fs_files (rc_fs rc') [''d'', ''a''] = Some [] \<and> fs_files (rc_fs rc') [''b''] = None"
proof -
  let ?h = "handle_offer io_all_ok [''d''] idle_receiver hostile_offer"
  have "file_step [''d''] (\<lambda>b. b) idle_receiver (snd ?h)"
    by (rule file_step.offer [of io_all_ok _ _ hostile_offer "fst ?h"]) simp
  then have "(file_step [''d''] (\<lambda>b. b))\<^sup>*\<^sup>* idle_receiver (snd ?h)" by (rule r_into_rtranclp)
  from files_outside_untouched [OF _ this]
  have "fs_files (rc_fs (snd ?h)) [''b''] = None" by (simp add: idle_receiver_def)
  moreover have "fs_files (rc_fs (snd ?h)) [''d'', ''a''] = Some []"
    by (simp add: hostile_offer_def handle_offer_def receiver_begin_def create_dir_all_def
        file_create_def io_all_ok_def idle_receiver_def sanitize_def replace_backslash_def
        is_absolute_def path_components_def segment_component_def resolve_def Let_def)
  ultimately show ?thesis by (simp add: Let_def)
qed

text \<open>
  A successful offer makes every file of the transfer empty and expected from offset 0, also
  when a transfer with the same id is in progress: its progress is gone, while the records of
  all other transfers stay.
\<close>

theorem offer_resets_transfer:
  assumes "handle_offer io drop_dir rc offer = (Inr u, rc')"
  shows "resume_offsets rc' (fo_transfer_id offer) =
      Some (replicate (length (fm_files (fo_manifest offer))) 0) \<and>
    (\<forall>i < length (fm_files (fo_manifest offer)).
       transfer_file rc' (fo_transfer_id offer) i = [] \<and> transfer_ready rc' (fo_transfer_id offer) i) \<and>
    (\<forall>t. t \<noteq> fo_transfer_id offer \<longrightarrow> rc_transfers rc' t = rc_transfers rc t)"
proof -
  have b: "receiver_begin io drop_dir rc (fo_transfer_id offer) (fo_manifest offer) = (Inr u, rc')"
    using assms by (simp add: handle_offer_def)
  have "resume_offsets rc' (fo_transfer_id offer) =
      Some (replicate (length (fm_files (fo_manifest offer))) 0) \<and>
    (\<forall>t. t \<noteq> fo_transfer_id offer \<longrightarrow> rc_transfers rc' t = rc_transfers rc t)"
    using b by (auto simp: receiver_begin_def resume_offsets_def Let_def split: prod.splits sum.splits)
  with receiver_begin_Ok [OF b] show ?thesis by metis
qed

theorem offer_resets_transfer_witness:
  "let offer = \<lparr>fo_transfer_id = 7, fo_manifest = \<lparr>fm_files = [\<lparr>fe_relative_path = ''b'',
         fe_size = 0, fe_blake3 = []\<rparr>], fm_total_bytes = 0\<rparr>, fo_compressed = False\<rparr>
   in resume_offsets (snd (handle_offer io_all_ok [''d''] begun_receiver offer)) 7 = Some [0]"
proof -
  let ?o = "\<lparr>fo_transfer_id = 7, fo_manifest = \<lparr>fm_files = [\<lparr>fe_relative_path = ''b'',
     fe_size = 0, fe_blake3 = []\<rparr>], fm_total_bytes = 0\<rparr>, fo_compressed = False\<rparr>"
  let ?h = "handle_offer io_all_ok [''d''] begun_receiver ?o"
  have "?h = (Inr (), snd ?h)"
    by (simp add: handle_offer_def receiver_begin_def create_dir_all_def file_create_def
        io_all_ok_def begun_receiver_def sanitize_def replace_backslash_def is_absolute_def
        path_components_def segment_component_def resolve_def Let_def)
  from offer_resets_transfer [OF this] show ?thesis by simp
qed

end
