(* ===== verification/StdText.thy ===== *)
theory StdText
  imports FilePaths
begin

text \<open>
  Text and paths of the standard library as the local socket, the clipboard and the graphical
  interface use them: the check of \<open>String::from_utf8\<close>, the lines of \<open>read_line\<close>, white space at
  the ends of a text, and joining and splitting paths on Unix.
\<close>

section \<open>UTF-8\<close>

definition utf8_cont :: "u8 \<Rightarrow> bool" where
  "utf8_cont b \<longleftrightarrow> 0x80 \<le> b \<and> b \<le> 0xBF"

text \<open>The well-formed byte sequences of \<open>String::from_utf8\<close>.\<close>

fun utf8_valid :: "bytes \<Rightarrow> bool" where
  "utf8_valid [] \<longleftrightarrow> True"
| "utf8_valid (b # bs) \<longleftrightarrow>
     (if b < 0x80 then utf8_valid bs
      else if 0xC2 \<le> b \<and> b \<le> 0xDF then
        (case bs of c # r \<Rightarrow> utf8_cont c \<and> utf8_valid r | _ \<Rightarrow> False)
      else if 0xE0 \<le> b \<and> b \<le> 0xEF then
        (case bs of
           c # d # r \<Rightarrow>
             utf8_cont c \<and> (b = 0xE0 \<longrightarrow> 0xA0 \<le> c) \<and> (b = 0xED \<longrightarrow> c \<le> 0x9F) \<and>
             utf8_cont d \<and> utf8_valid r
         | _ \<Rightarrow> False)
      else if 0xF0 \<le> b \<and> b \<le> 0xF4 then
        (case bs of
           c # d # e # r \<Rightarrow>
             utf8_cont c \<and> (b = 0xF0 \<longrightarrow> 0x90 \<le> c) \<and> (b = 0xF4 \<longrightarrow> c \<le> 0x8F) \<and>
             utf8_cont d \<and> utf8_cont e \<and> utf8_valid r
         | _ \<Rightarrow> False)
      else False)"

lemma list_cases2: obtains "bs = []" | c where "bs = [c]" | c d r where "bs = c # d # r"
  by (cases bs; cases "tl bs") auto

lemma list_cases3:
  obtains "bs = []" | c where "bs = [c]" | c d where "bs = [c, d]" | c d e r where "bs = c # d # e # r"
  by (cases bs rule: list_cases2) (auto intro: list.exhaust)

lemma utf8_valid_append:
  "utf8_valid a \<Longrightarrow> utf8_valid (a @ b) \<longleftrightarrow> utf8_valid b"
  supply utf8_valid.simps(2) [simp del]
proof (induction a rule: utf8_valid.induct)
  case (2 x bs)
  note step = utf8_valid.simps(2) [of x]
  consider "x < 0x80" | "\<not> x < 0x80" "0xC2 \<le> x \<and> x \<le> 0xDF"
    | "\<not> x < 0x80" "\<not> (0xC2 \<le> x \<and> x \<le> 0xDF)" "0xE0 \<le> x \<and> x \<le> 0xEF"
    | "\<not> x < 0x80" "\<not> (0xC2 \<le> x \<and> x \<le> 0xDF)" "\<not> (0xE0 \<le> x \<and> x \<le> 0xEF)"
      "0xF0 \<le> x \<and> x \<le> 0xF4"
    | "\<not> x < 0x80" "\<not> (0xC2 \<le> x \<and> x \<le> 0xDF)" "\<not> (0xE0 \<le> x \<and> x \<le> 0xEF)"
      "\<not> (0xF0 \<le> x \<and> x \<le> 0xF4)" by blast
  then show ?case
  proof cases
    case 1
    with "2.prems" "2.IH"(1) show ?thesis by (simp add: step)
  next
    case 2
    with "2.prems" "2.IH"(2) show ?thesis by (cases bs) (simp_all add: step)
  next
    case 3
    with "2.prems" "2.IH"(3) show ?thesis by (cases bs rule: list_cases2) (auto simp: step)
  next
    case 4
    with "2.prems" "2.IH"(4) show ?thesis by (cases bs rule: list_cases3) (auto simp: step)
  next
    case 5
    with "2.prems" show ?thesis by (simp add: step)
  qed
qed simp

section \<open>White space\<close>

text \<open>The encodings of the characters with the property \<open>White_Space\<close>.\<close>

definition white_space :: "bytes list" where
  "white_space =
     map (\<lambda>b. [b]) [9, 10, 11, 12, 13, 32] @
     [[0xC2, 0x85], [0xC2, 0xA0], [0xE1, 0x9A, 0x80], [0xE2, 0x80, 0xA8], [0xE2, 0x80, 0xA9],
      [0xE2, 0x80, 0xAF], [0xE2, 0x81, 0x9F], [0xE3, 0x80, 0x80]] @
     map (\<lambda>b. [0xE2, 0x80, b])
       [0x80, 0x81, 0x82, 0x83, 0x84, 0x85, 0x86, 0x87, 0x88, 0x89, 0x8A]"

text \<open>The text without the white space at its end: one character is taken off at a time.\<close>

definition space_at_end :: "bytes \<Rightarrow> bytes option" where
  "space_at_end s = find (\<lambda>w. suffix w s) white_space"

lemma space_at_endD:
  assumes "space_at_end s = Some w"
  shows "suffix w s" and "0 < length w" and "length w \<le> length s"
proof -
  from assms have w: "w \<in> set white_space" "suffix w s"
    by (auto simp: space_at_end_def find_Some_iff in_set_conv_nth)
  then show "suffix w s" and "0 < length w" and "length w \<le> length s"
    by (auto simp: white_space_def suffix_length_le)
qed

function trim_end :: "bytes \<Rightarrow> bytes" where
  "trim_end s =
     (case space_at_end s of
        None \<Rightarrow> s
      | Some w \<Rightarrow> trim_end (take (length s - length w) s))"
  by pat_completeness auto
termination
proof (relation "measure length")
  fix s w assume "space_at_end s = Some w"
  then show "(take (length s - length w) s, s) \<in> measure length"
    using space_at_endD(2,3) [of s w] diff_less [of "length w" "length s"]
    by (cases w; cases s) simp_all
qed simp

declare trim_end.simps [simp del]

lemma trim_end_same: "space_at_end s = None \<Longrightarrow> trim_end s = s"
  by (simp add: trim_end.simps)

lemma trim_end_newline: "trim_end (s @ [10]) = trim_end s"
proof -
  have "space_at_end (s @ [10]) = Some [10]"
    by (simp add: space_at_end_def white_space_def suffix_def)
  then show ?thesis by (subst trim_end.simps) simp
qed

lemma trim_end_prefix: "prefix (trim_end s) s"
proof (induction s rule: trim_end.induct)
  case (1 s)
  show ?case
  proof (cases "space_at_end s")
    case (Some w)
    with 1 have "prefix (trim_end (take (length s - length w) s)) (take (length s - length w) s)" .
    with Some show ?thesis by (subst trim_end.simps) (auto intro: prefix_order.trans take_is_prefix)
  qed (simp add: trim_end_same)
qed

subsection \<open>Both ends of a text\<close>

text \<open>
  \<open>trim\<close> of a string: the characters with the property \<open>White_Space\<close> are taken off the front, and then
  off the back, one at a time. A string holds its bytes, so the characters are their encodings.
\<close>

function strip :: "'a list list \<Rightarrow> 'a list \<Rightarrow> 'a list" where
  "strip ws s =
     (case find (\<lambda>w. w \<noteq> [] \<and> prefix w s) ws of
        None \<Rightarrow> s
      | Some w \<Rightarrow> strip ws (drop (length w) s))"
  by pat_completeness auto
termination
  by (relation "measure (\<lambda>(ws, s). length s)") (auto simp: find_Some_iff prefix_def)

declare strip.simps [simp del]

definition white_space_text :: "string list" where
  "white_space_text = map (map (\<lambda>b. char_of (unat b))) white_space"

definition trim :: "string \<Rightarrow> string" where
  "trim s = rev (strip (map rev white_space_text) (rev (strip white_space_text s)))"

definition blank :: "string \<Rightarrow> bool" where
  "blank s \<longleftrightarrow> strip white_space_text s = []"

definition stripped :: "'a list list \<Rightarrow> 'a list \<Rightarrow> bool" where
  "stripped ws s \<longleftrightarrow> (\<forall>w \<in> set ws. w \<noteq> [] \<longrightarrow> \<not> prefix w s)"

lemma strip_same [simp]: "stripped ws s \<Longrightarrow> strip ws s = s"
proof -
  assume "stripped ws s"
  then have "find (\<lambda>w. w \<noteq> [] \<and> prefix w s) ws = None" by (auto simp: stripped_def find_None_iff)
  then show ?thesis by (subst strip.simps) simp
qed

lemma strip_split:
  "\<exists>vs. set vs \<subseteq> set ws \<and> s = concat vs @ strip ws s \<and> stripped ws (strip ws s)"
proof (induction ws s rule: strip.induct)
  case (1 ws s)
  show ?case
  proof (cases "find (\<lambda>w. w \<noteq> [] \<and> prefix w s) ws")
    case None
    then have "stripped ws s" by (auto simp: stripped_def find_None_iff)
    then show ?thesis by (intro exI [of _ "[]"]) simp
  next
    case (Some w)
    then have w: "w \<in> set ws" "prefix w s" by (auto simp: find_Some_iff in_set_conv_nth)
    obtain vs where vs: "set vs \<subseteq> set ws" "drop (length w) s = concat vs @ strip ws (drop (length w) s)"
      "stripped ws (strip ws (drop (length w) s))"
      using 1 [OF Some] by blast
    have step: "strip ws s = strip ws (drop (length w) s)" using Some by (subst strip.simps) simp
    have s: "s = w @ drop (length w) s" using w(2) by (auto simp: prefix_def)
    have "s = concat (w # vs) @ strip ws s" unfolding step concat.simps append_assoc
      using s vs(2) by simp
    with w(1) vs(1,3) step show ?thesis by (intro exI [of _ "w # vs"]) simp
  qed
qed

lemma stripped_strip [simp]: "stripped ws (strip ws s)"
  using strip_split by blast

lemma stripped_prefix: "stripped ws s \<Longrightarrow> prefix t s \<Longrightarrow> stripped ws t"
  by (auto simp: stripped_def intro: prefix_order.trans)

text \<open>No encoding is the beginning of another, and none begins inside another.\<close>

definition prefix_free :: "'a list list \<Rightarrow> bool" where
  "prefix_free ws \<longleftrightarrow> list_all (\<lambda>v. list_all (\<lambda>w. prefix v w \<longrightarrow> v = w) ws) ws"

lemma strip_concat:
  assumes "prefix_free ws" and "set vs \<subseteq> set ws"
  shows "strip ws (concat vs @ s) = strip ws s"
  using assms(2)
proof (induction vs)
  case (Cons v vs)
  let ?s = "v @ concat vs @ s"
  have "strip ws ?s = strip ws (concat vs @ s)"
  proof (cases "v = []")
    case False
    have only: "w = v" if "w \<in> set ws" "prefix w ?s" for w
      using that assms(1) Cons.prems prefix_same_cases [of w ?s v]
      by (auto simp: prefix_free_def list_all_iff)
    have "find (\<lambda>w. w \<noteq> [] \<and> prefix w ?s) ws = Some v"
    proof (cases "find (\<lambda>w. w \<noteq> [] \<and> prefix w ?s) ws")
      case None
      then show ?thesis using Cons.prems False by (auto simp: find_None_iff)
    next
      case (Some w)
      then have "w = v" by (intro only) (auto simp: find_Some_iff in_set_conv_nth)
      with Some show ?thesis by simp
    qed
    then show ?thesis by (subst strip.simps) simp
  qed simp
  with Cons show ?case by simp
qed simp

lemma stripped_append:
  assumes "stripped ws t" and "t \<noteq> []" and "set vs \<subseteq> set ws"
    and inner: "\<forall>v \<in> set ws. \<forall>w \<in> set ws. v \<noteq> [] \<longrightarrow> hd v \<notin> set (tl w)"
  shows "stripped ws (t @ concat vs)"
  unfolding stripped_def
proof (intro ballI impI notI)
  fix w assume w: "w \<in> set ws" "w \<noteq> []" "prefix w (t @ concat vs)"
  have "\<not> prefix w t" using assms(1) w(1,2) by (auto simp: stripped_def)
  then obtain r where r: "w = t @ r" "r \<noteq> []" "prefix r (concat vs)"
    using w(3) by (auto simp: prefix_append)
  have first: "\<exists>v \<in> set ws. v \<noteq> [] \<and> hd r = hd v"
    using r(2,3) assms(3)
  proof (induction vs)
    case (Cons v vs)
    show ?case
    proof (cases v)
      case Nil
      with Cons show ?thesis by simp
    next
      case (Cons a v')
      with \<open>prefix r (concat (v # vs))\<close> \<open>r \<noteq> []\<close> have "hd r = a" by (cases r) auto
      with Cons \<open>set (v # vs) \<subseteq> set ws\<close> show ?thesis by (intro bexI [of _ v]) auto
    qed
  qed simp
  have "hd r \<in> set (tl w)" using assms(2) r(1,2) by (cases t) auto
  with first w(1) inner show False by metis
qed

lemma white_space_text_chars [code]:
  "white_space_text =
     [[CHR 0x09], [CHR 0x0A], [CHR 0x0B], [CHR 0x0C], [CHR 0x0D], [CHR 0x20], [CHR 0xC2, CHR
      0x85], [CHR 0xC2, CHR 0xA0], [CHR 0xE1, CHR 0x9A, CHR 0x80], [CHR 0xE2, CHR 0x80, CHR
      0xA8], [CHR 0xE2, CHR 0x80, CHR 0xA9], [CHR 0xE2, CHR 0x80, CHR 0xAF], [CHR 0xE2, CHR
      0x81, CHR 0x9F], [CHR 0xE3, CHR 0x80, CHR 0x80], [CHR 0xE2, CHR 0x80, CHR 0x80], [CHR
      0xE2, CHR 0x80, CHR 0x81], [CHR 0xE2, CHR 0x80, CHR 0x82], [CHR 0xE2, CHR 0x80, CHR 0x83],
      [CHR 0xE2, CHR 0x80, CHR 0x84], [CHR 0xE2, CHR 0x80, CHR 0x85], [CHR 0xE2, CHR 0x80, CHR
      0x86], [CHR 0xE2, CHR 0x80, CHR 0x87], [CHR 0xE2, CHR 0x80, CHR 0x88], [CHR 0xE2, CHR
      0x80, CHR 0x89], [CHR 0xE2, CHR 0x80, CHR 0x8A]]"
  by (simp add: white_space_text_def white_space_def char_of_def bit_numeral_rec bit_Suc_0_iff)

lemma white_space_codes:
  "prefix_free white_space_text" "prefix_free (map rev white_space_text)"
  "\<forall>v \<in> set white_space_text. \<forall>w \<in> set white_space_text. v \<noteq> [] \<longrightarrow> hd v \<notin> set (tl w)"
  unfolding white_space_text_chars by (auto simp: prefix_free_def list_all_iff)

lemma trim_stripped:
  "stripped white_space_text (trim s)" "stripped (map rev white_space_text) (rev (trim s))"
proof -
  let ?a = "strip white_space_text s"
  show "stripped (map rev white_space_text) (rev (trim s))" by (simp add: trim_def)
  have "\<exists>v. rev ?a = v @ rev (trim s)"
    using strip_split [of "map rev white_space_text" "rev ?a"] unfolding trim_def rev_rev_ident by blast
  then have "prefix (trim s) ?a" by (metis prefixI rev_append rev_rev_ident)
  then show "stripped white_space_text (trim s)" by (rule stripped_prefix [OF stripped_strip])
qed

lemma trim_trim [simp]: "trim (trim s) = trim s"
  using trim_stripped [of s] by (simp add: trim_def [of "trim s"])

lemma trim_surrounded:
  assumes "blank pre" and "blank post" and "trim t = t" and "t \<noteq> []"
  shows "trim (pre @ t @ post) = t"
proof -
  obtain us where us: "set us \<subseteq> set white_space_text" "pre = concat us"
    using strip_split [of white_space_text pre] assms(1) by (auto simp: blank_def)
  obtain vs where vs: "set vs \<subseteq> set white_space_text" "post = concat vs"
    using strip_split [of white_space_text post] assms(2) by (auto simp: blank_def)
  have t: "stripped white_space_text t" "stripped (map rev white_space_text) (rev t)"
    using trim_stripped [of t] assms(3) by simp_all
  have "strip white_space_text (pre @ t @ post) = t @ post"
    using strip_concat [OF white_space_codes(1) us(1)] stripped_append [OF t(1) assms(4) vs(1) white_space_codes(3)]
    by (simp add: us(2) vs(2))
  moreover have "rev post = concat (rev (map rev vs))" by (simp add: vs(2) rev_concat rev_map)
  then have "strip (map rev white_space_text) (rev post @ rev t) = rev t"
    using strip_concat [OF white_space_codes(2), of "rev (map rev vs)" "rev t"] vs(1) t(2) by auto
  ultimately show ?thesis by (simp add: trim_def)
qed

section \<open>Lines\<close>

text \<open>
  \<open>read_line\<close> of a buffered reader: the bytes up to and with the first line feed and what is left;
  at the end of the stream whatever remains, possibly nothing. \<open>None\<close> while the stream is open and
  the line incomplete.
\<close>

fun take_line :: "bool \<Rightarrow> bytes \<Rightarrow> (bytes \<times> bytes) option" where
  "take_line ended [] = (if ended then Some ([], []) else None)"
| "take_line ended (b # bs) =
     (if b = 10 then Some ([b], bs)
      else map_option (\<lambda>(l, rest). (b # l, rest)) (take_line ended bs))"

lemma take_line_line: "10 \<notin> set l \<Longrightarrow> take_line ended (l @ 10 # rest) = Some (l @ [10], rest)"
  by (induction l) auto

lemma take_line_open: "10 \<notin> set l \<Longrightarrow> take_line False l = None"
  by (induction l) auto

lemma take_line_ended: "10 \<notin> set l \<Longrightarrow> take_line True l = Some (l, [])"
  by (induction l) auto

lemma take_line_split: "take_line ended bs = Some (l, rest) \<Longrightarrow> bs = l @ rest"
  by (induction bs arbitrary: l) (auto split: if_splits)

section \<open>Paths\<close>

text \<open>\<open>PathBuf::join\<close> on Unix, and the parent of a path up to redundant separators.\<close>

definition unix_join :: "string \<Rightarrow> string \<Rightarrow> string" where
  "unix_join base p =
     (if is_absolute p then p
      else if base = [] \<or> last base = CHR ''/'' then base @ p
      else base @ ''/'' @ p)"

fun component_name :: "component \<Rightarrow> string" where
  "component_name C_RootDir = []"
| "component_name C_CurDir = ''.''"
| "component_name C_ParentDir = ''..''"
| "component_name (C_Normal n) = n"

fun components_path :: "component list \<Rightarrow> string" where
  "components_path [] = []"
| "components_path [C_RootDir] = ''/''"
| "components_path [c] = component_name c"
| "components_path (c # cs) = component_name c @ ''/'' @ components_path cs"

definition unix_parent :: "string \<Rightarrow> string option" where
  "unix_parent p =
     (let cs = path_components p in
      if cs = [] \<or> last cs = C_RootDir then None else Some (components_path (butlast cs)))"

end
