(* ===== verification/ClipboardSync.thy ===== *)
theory ClipboardSync
  imports SessionClient StdText
begin

text \<open>
  Clipboard synchronisation: the originator registry and the backends of
  \<open>crates/clipboard/src/lib.rs\<close>, the poll loop and the inbound handler of
  \<open>crates/daemon/src/clipboard_mgr.rs\<close>. The blake3 digest is the parameter \<open>blake3\<close>; the
  clipboard of the operating system and the image codec are the fields of \<open>ArboardEnv\<close>.
\<close>

section \<open>Interface of a backend\<close>

text \<open>
  What the manager relies on: a payload written successfully is what a read of that format
  returns next, for the contents the backend carries unchanged; and a read, which may change the
  backend's own state, changes nothing that is read later.
\<close>

locale clipboard_backend =
  fixes rd :: "'b \<Rightarrow> ClipboardFormat \<Rightarrow> (Error + bytes) \<times> 'b"
    and put :: "'b \<Rightarrow> ClipboardPayload \<Rightarrow> (Error + unit) \<times> 'b"
    and carries :: "ClipboardFormat \<Rightarrow> bytes \<Rightarrow> bool"
  assumes read_put:
    "carries (cp_format p) (cp_bytes p) \<Longrightarrow> put b p = (Inr u, b') \<Longrightarrow>
     fst (rd b' (cp_format p)) = Ok (cp_bytes p)"
    and read_keeps: "fst (rd (snd (rd b f)) g) = fst (rd b g)"

section \<open>Originator registry\<close>

type_synonym OriginatorRegistry = "hash \<Rightarrow> PeerId option"

definition registry_new :: OriginatorRegistry where
  [simp]: "registry_new = Map.empty"

definition record_originator :: "hash \<Rightarrow> PeerId \<Rightarrow> OriginatorRegistry \<Rightarrow> OriginatorRegistry" where
  "record_originator h originator seen = seen(h \<mapsto> originator)"

definition originator :: "OriginatorRegistry \<Rightarrow> hash \<Rightarrow> PeerId option" where
  "originator seen h = seen h"

interpretation registry: key_store record_originator originator
  by unfold_locales (simp_all add: record_originator_def originator_def)

definition hash_content :: "(bytes \<Rightarrow> hash) \<Rightarrow> bytes \<Rightarrow> hash" where
  "hash_content blake3 b = blake3 b"

section \<open>The stub backend\<close>

record StubBackend =
  sb_formats :: "ClipboardFormat list"
  sb_contents :: "ClipboardFormat \<Rightarrow> bytes option"

definition stub_list_formats :: "StubBackend \<Rightarrow> Error + ClipboardFormat list" where
  "stub_list_formats b = Ok (sb_formats b)"

definition stub_read :: "StubBackend \<Rightarrow> ClipboardFormat \<Rightarrow> Error + bytes" where
  "stub_read b f = Ok (case sb_contents b f of None \<Rightarrow> [] | Some c \<Rightarrow> c)"

definition stub_write :: "StubBackend \<Rightarrow> ClipboardPayload \<Rightarrow> (Error + unit) \<times> StubBackend" where
  "stub_write b p =
     (Ok (),
      \<lparr>sb_formats = (if cp_format p \<in> set (sb_formats b) then sb_formats b
                    else sb_formats b @ [cp_format p]),
       sb_contents = (sb_contents b)(cp_format p \<mapsto> cp_bytes p)\<rparr>)"

definition stub_default :: StubBackend where
  "stub_default = \<lparr>sb_formats = [], sb_contents = Map.empty\<rparr>"

interpretation stub: clipboard_backend "\<lambda>b f. (stub_read b f, b)" stub_write "\<lambda>_ _. True"
  by unfold_locales (auto simp: stub_read_def stub_write_def)

section \<open>The system backend\<close>

text \<open>
  \<open>ae_new\<close>, \<open>ae_get_text\<close>, ... are the calls of arboard with their results, errors by their
  display text; \<open>ae_from_raw\<close>, \<open>ae_encode_png\<close> and \<open>ae_decode_png\<close> are the image crate. An
  image is its width, height and pixels. The backend itself keeps whether the clipboard is open.
\<close>

type_synonym image = "u32 \<times> u32 \<times> bytes"

record ArboardEnv =
  ae_new :: "string + unit"
  ae_get_text :: "string + bytes"
  ae_get_image :: "string + image"
  ae_set_text :: "bytes \<Rightarrow> string + unit"
  ae_set_image :: "image \<Rightarrow> string + unit"
  ae_from_raw :: "image \<Rightarrow> image option"
  ae_encode_png :: "image \<Rightarrow> string + bytes"
  ae_decode_png :: "bytes \<Rightarrow> string + image"

datatype clip_call = SetText bytes | SetImage image

text \<open>The system clipboard is opened at its first use; the flag says whether it is.\<close>

definition arboard_new :: bool where
  "arboard_new = False"

definition default_backend :: bool where
  "default_backend = arboard_new"

definition map_ab :: "string + 'a \<Rightarrow> Error + 'a" where
  "map_ab r = map_err (\<lambda>e. EOther (''clipboard: '' @ e)) r"

definition ensure :: "ArboardEnv \<Rightarrow> bool \<Rightarrow> (Error + unit) \<times> bool" where
  "ensure env inner =
     (if inner then (Ok (), inner)
      else (case ae_new env of
              Inl e \<Rightarrow> (Err (EOther (''arboard init: '' @ e)), inner)
            | Inr _ \<Rightarrow> (Ok (), True)))"

definition arboard_list_formats ::
  "ArboardEnv \<Rightarrow> bool \<Rightarrow> (Error + ClipboardFormat list) \<times> bool" where
  "arboard_list_formats env inner =
     (case ensure env inner of
        (Inl e, inner') \<Rightarrow> (Err e, inner')
      | (Inr _, inner') \<Rightarrow>
          (Ok ((case ae_get_text env of
                  Inl _ \<Rightarrow> [] | Inr s \<Rightarrow> if s = [] then [] else [CF_PlainText]) @
               (if is_ok (ae_get_image env) then [CF_Png] else [])), inner'))"

definition arboard_get :: "ArboardEnv \<Rightarrow> ClipboardFormat \<Rightarrow> Error + bytes" where
  "arboard_get env f =
     (case f of
        CF_PlainText \<Rightarrow> map_ab (ae_get_text env)
      | CF_Png \<Rightarrow>
          try_then (map_ab (ae_get_image env))
            (\<lambda>img. try_then (ok_or (EOther ''clipboard image: bad dimensions'') (ae_from_raw env img))
              (\<lambda>rgba. map_err (\<lambda>e. EOther (''encode png: '' @ e)) (ae_encode_png env rgba)))
      | CF_Html \<Rightarrow> Ok []
      | CF_Rtf \<Rightarrow> Ok []
      | CF_UriList \<Rightarrow> Ok [])"

definition arboard_read ::
  "ArboardEnv \<Rightarrow> bool \<Rightarrow> ClipboardFormat \<Rightarrow> (Error + bytes) \<times> bool" where
  "arboard_read env inner f =
     (case ensure env inner of
        (Inl e, inner') \<Rightarrow> (Err e, inner')
      | (Inr _, inner') \<Rightarrow> (arboard_get env f, inner'))"

text \<open>
  Writing: the result and the calls that change the system clipboard. The position that Rust
  prints with a UTF-8 error is left out.
\<close>

definition arboard_put :: "ArboardEnv \<Rightarrow> ClipboardPayload \<Rightarrow> (Error + unit) \<times> clip_call list" where
  "arboard_put env p =
     (case cp_format p of
        CF_PlainText \<Rightarrow>
          if utf8_valid (cp_bytes p)
          then (map_ab (ae_set_text env (cp_bytes p)), [SetText (cp_bytes p)])
          else (Err (EOther ''clipboard utf8''), [])
      | CF_Png \<Rightarrow>
          (case ae_decode_png env (cp_bytes p) of
             Inl _ \<Rightarrow> (Ok (), [])
           | Inr img \<Rightarrow> (map_ab (ae_set_image env img), [SetImage img]))
      | _ \<Rightarrow> (Ok (), []))"

definition arboard_write ::
  "ArboardEnv \<Rightarrow> bool \<Rightarrow> ClipboardPayload \<Rightarrow> (Error + unit) \<times> bool \<times> clip_call list" where
  "arboard_write env inner p =
     (case ensure env inner of
        (Inl e, inner') \<Rightarrow> (Err e, inner', [])
      | (Inr _, inner') \<Rightarrow> (case arboard_put env p of (r, calls) \<Rightarrow> (r, inner', calls)))"

text \<open>
  The backend on a clipboard of the system: \<open>env\<close> says what the calls answer while the system's
  clipboard is in a state, \<open>change\<close> what a successful call that changes it leaves. The state of the
  backend is that of the system's clipboard with the flag.
\<close>

definition system_read ::
  "('c \<Rightarrow> ArboardEnv) \<Rightarrow> 'c \<times> bool \<Rightarrow> ClipboardFormat \<Rightarrow> (Error + bytes) \<times> 'c \<times> bool" where
  "system_read env st f =
     (case st of (c, inner) \<Rightarrow> (case arboard_read (env c) inner f of (r, inner') \<Rightarrow> (r, c, inner')))"

definition system_write ::
  "('c \<Rightarrow> ArboardEnv) \<Rightarrow> (clip_call \<Rightarrow> 'c \<Rightarrow> 'c) \<Rightarrow> 'c \<times> bool \<Rightarrow> ClipboardPayload \<Rightarrow> (Error + unit) \<times> 'c \<times> bool" where
  "system_write env change st p =
     (case st of (c, inner) \<Rightarrow>
        (case arboard_write (env c) inner p of
           (r, inner', calls) \<Rightarrow> (r, if is_ok r then fold change calls c else c, inner')))"

text \<open>
  What is assumed of arboard where text is concerned: the clipboard can be opened, a text can be set,
  and a text that was set is what is there.
\<close>

definition keeps_text :: "('c \<Rightarrow> ArboardEnv) \<Rightarrow> (clip_call \<Rightarrow> 'c \<Rightarrow> 'c) \<Rightarrow> bool" where
  "keeps_text env change \<longleftrightarrow>
     (\<forall>c t. ae_new (env c) = Ok () \<and> ae_set_text (env c) t = Ok () \<and> ae_get_text (env (change (SetText t) c)) = Ok t)"

lemma system_read_text:
  "ae_new (env c) = Ok () \<Longrightarrow> fst (system_read env (c, inner) CF_PlainText) = map_ab (ae_get_text (env c))"
  by (simp add: system_read_def arboard_read_def ensure_def arboard_get_def)

lemma system_write_text:
  assumes "keeps_text env change" and "utf8_valid t" and "cp_format p = CF_PlainText" and "cp_bytes p = t"
  shows "system_write env change (c, inner) p = (Ok (), change (SetText t) c, True)"
  using assms
  by (simp add: system_write_def arboard_write_def ensure_def arboard_put_def keeps_text_def map_ab_def)

lemma system_backend:
  assumes "keeps_text env change"
  shows "clipboard_backend (system_read env) (system_write env change) (\<lambda>f t. f = CF_PlainText \<and> utf8_valid t)"
proof
  show "fst (system_read env b' (cp_format p)) = Ok (cp_bytes p)"
    if "cp_format p = CF_PlainText \<and> utf8_valid (cp_bytes p)" "system_write env change b p = (Inr u, b')" for p b u b'
    using that assms system_write_text [OF assms, of "cp_bytes p" p "fst b" "snd b"]
    by (cases b) (auto simp: system_read_text keeps_text_def map_ab_def)
  show "fst (system_read env (snd (system_read env b f)) g) = fst (system_read env b g)" for b f g
    by (cases b) (auto simp: system_read_def arboard_read_def ensure_def split: sum.splits)
qed

section \<open>The clipboard manager\<close>

record ClipboardManager =
  cm_originators :: OriginatorRegistry
  cm_last_hash :: "hash option"
  cm_local_peer_id :: PeerId

definition clipboard_new :: "PeerId \<Rightarrow> ClipboardManager" where
  "clipboard_new me = \<lparr>cm_originators = registry_new, cm_last_hash = None, cm_local_peer_id = me\<rparr>"

text \<open>What is on the clipboard: text first, then an image; the format and the digest.\<close>

definition detect ::
  "(bytes \<Rightarrow> hash) \<Rightarrow> (ClipboardFormat \<Rightarrow> Error + bytes) \<Rightarrow> (ClipboardFormat list \<times> hash) option" where
  "detect blake3 rd =
     (case rd CF_PlainText of
        Inr (b # bs) \<Rightarrow> Some ([CF_PlainText], hash_content blake3 (b # bs))
      | _ \<Rightarrow>
          (case rd CF_Png of
             Inr (b # bs) \<Rightarrow> Some ([CF_Png], hash_content blake3 (b # bs))
           | _ \<Rightarrow> None))"

text \<open>One turn of the poll loop: the new state and the messages, each with its channel.\<close>

definition poll ::
  "(bytes \<Rightarrow> hash) \<Rightarrow> (ClipboardFormat \<Rightarrow> Error + bytes) \<Rightarrow> PeerHandle list \<Rightarrow> ClipboardManager \<Rightarrow>
   ClipboardManager \<times> (nat \<times> Message) list" where
  "poll blake3 rd peers cm =
     (case detect blake3 rd of
        None \<Rightarrow> (cm, [])
      | Some (formats, h) \<Rightarrow>
          if cm_last_hash cm = Some h then (cm, [])
          else if originator (cm_originators cm) h = Some (cm_local_peer_id cm) then (cm, [])
          else if originator (cm_originators cm) h \<noteq> None then (cm\<lparr>cm_last_hash := Some h\<rparr>, [])
          else (cm\<lparr>cm_last_hash := Some h,
                   cm_originators :=
                     record_originator h (cm_local_peer_id cm) (cm_originators cm)\<rparr>,
                map (\<lambda>p. (ph_chan p, M_ClipboardFormats formats h)) peers))"

text \<open>An inbound message of a peer: the new state, the replies and the payload to be written.\<close>

fun handle_inbound ::
  "(bytes \<Rightarrow> hash) \<Rightarrow> (ClipboardFormat \<Rightarrow> Error + bytes) \<Rightarrow> PeerId \<Rightarrow> Message \<Rightarrow> ClipboardManager \<Rightarrow>
   ClipboardManager \<times> Message list \<times> ClipboardPayload option" where
  "handle_inbound blake3 rd from_peer (M_ClipboardFormats formats h) cm =
     (fold (\<lambda>_ m. m\<lparr>cm_originators := record_originator h from_peer (cm_originators m)\<rparr>) formats cm,
      map M_ClipboardRequest formats, None)"
| "handle_inbound blake3 rd from_peer (M_ClipboardRequest f) cm =
     (case rd f of
        Inl _ \<Rightarrow> (cm, [], None)
      | Inr b \<Rightarrow>
          (cm, [M_ClipboardData \<lparr>cp_format = f, cp_bytes = b, cp_originator = cm_local_peer_id cm,
                                 cp_hash = hash_content blake3 b\<rparr>], None))"
| "handle_inbound blake3 rd from_peer (M_ClipboardData p) cm =
     (cm\<lparr>cm_originators := record_originator (cp_hash p) (cp_originator p) (cm_originators cm),
         cm_last_hash := Some (cp_hash p)\<rparr>, [], Some p)"
| "handle_inbound blake3 rd from_peer _ cm = (cm, [], None)"

section \<open>Runs\<close>

text \<open>
  Turns of the poll loop and inbound messages, in the order they take the locks; each with what
  the clipboard held at that moment. The outputs are listed per event.
\<close>

datatype ClipEvent =
    Poll "ClipboardFormat \<Rightarrow> Error + bytes" "PeerHandle list"
  | Inbound "ClipboardFormat \<Rightarrow> Error + bytes" PeerHandle Message

fun clip_step ::
  "(bytes \<Rightarrow> hash) \<Rightarrow> ClipboardManager \<Rightarrow> ClipEvent \<Rightarrow> ClipboardManager \<times> (nat \<times> Message) list" where
  "clip_step blake3 cm (Poll rd peers) = poll blake3 rd peers cm"
| "clip_step blake3 cm (Inbound rd p msg) =
     (case handle_inbound blake3 rd (ph_peer_id p) msg cm of
        (cm', replies, _) \<Rightarrow> (cm', map (Pair (ph_chan p)) replies))"

fun clip_run ::
  "(bytes \<Rightarrow> hash) \<Rightarrow> ClipboardManager \<Rightarrow> ClipEvent list \<Rightarrow>
   ClipboardManager \<times> (nat \<times> Message) list list" where
  "clip_run blake3 cm [] = (cm, [])"
| "clip_run blake3 cm (ev # evs) =
     (case clip_step blake3 cm ev of
        (cm1, out) \<Rightarrow> (case clip_run blake3 cm1 evs of (cm2, outs) \<Rightarrow> (cm2, out # outs)))"

definition advertises :: "hash \<Rightarrow> (nat \<times> Message) list \<Rightarrow> bool" where
  "advertises h out \<longleftrightarrow> (\<exists>m \<in> snd ` set out. case m of M_ClipboardFormats _ h' \<Rightarrow> h' = h | _ \<Rightarrow> False)"

lemma advertises_Nil [simp]: "\<not> advertises h []"
  by (simp add: advertises_def)

lemma fold_record:
  "cm_originators (fold (\<lambda>_ m. m\<lparr>cm_originators := record_originator h p (cm_originators m)\<rparr>) fs cm) =
     (if fs = [] then cm_originators cm else record_originator h p (cm_originators cm))"
  by (induction fs arbitrary: cm) (auto simp: record_originator_def)

lemma fold_record_rest [simp]:
  "cm_last_hash (fold (\<lambda>_ m. m\<lparr>cm_originators := record_originator h p (cm_originators m)\<rparr>) fs cm) =
     cm_last_hash cm"
  "cm_local_peer_id (fold (\<lambda>_ m. m\<lparr>cm_originators := record_originator h p (cm_originators m)\<rparr>) fs cm) =
     cm_local_peer_id cm"
  by (induction fs arbitrary: cm) simp_all

lemma clip_step_keeps:
  assumes "clip_step blake3 cm ev = (cm', out)" and "originator (cm_originators cm) h \<noteq> None"
  shows "originator (cm_originators cm') h \<noteq> None" and "\<not> advertises h out"
proof -
  have "originator (cm_originators cm') h \<noteq> None \<and> \<not> advertises h out"
  proof (cases ev)
    case (Poll rd peers)
    then show ?thesis
      using assms
      by (auto simp: poll_def advertises_def registry.get_put split: option.splits if_splits)
  next
    case (Inbound rd p msg)
    then show ?thesis
      using assms
      by (cases msg) (auto simp: advertises_def fold_record registry.get_put split: sum.splits if_splits)
  qed
  then show "originator (cm_originators cm') h \<noteq> None" "\<not> advertises h out" by simp_all
qed

lemma clip_step_advertises:
  assumes "clip_step blake3 cm ev = (cm', out)" and "advertises h out"
  shows "originator (cm_originators cm') h = Some (cm_local_peer_id cm)"
proof (cases ev)
  case (Poll rd peers)
  then show ?thesis
    using assms
    by (auto simp: poll_def advertises_def registry.get_put split: option.splits if_splits)
next
  case (Inbound rd p msg)
  then show ?thesis
    using assms by (cases msg) (auto simp: advertises_def split: sum.splits)
qed

lemma clip_run_keeps:
  assumes "clip_run blake3 cm evs = (cm', outs)" and "originator (cm_originators cm) h \<noteq> None"
  shows "\<forall>out \<in> set outs. \<not> advertises h out"
  using assms
proof (induction evs arbitrary: cm outs)
  case (Cons ev evs)
  obtain cm1 out where s: "clip_step blake3 cm ev = (cm1, out)" by fastforce
  obtain outs2 where r: "clip_run blake3 cm1 evs = (cm', outs2)" "outs = out # outs2"
    using Cons.prems(1) s by (auto split: prod.splits)
  show ?case using clip_step_keeps [OF s Cons.prems(2)] Cons.IH [OF r(1)] r(2) by simp
qed simp

section \<open>Two machines\<close>

text \<open>
  A machine: the handle of the other one, its manager and its backend. A turn of its poll loop and an
  inbound message with what they do to the backend, and the messages they send to the other machine.
\<close>

record 'b ClipHost =
  ho_peer :: PeerHandle
  ho_manager :: ClipboardManager
  ho_backend :: 'b

definition host_reads :: "('b \<Rightarrow> ClipboardFormat \<Rightarrow> (Error + bytes) \<times> 'b) \<Rightarrow> 'b ClipHost \<Rightarrow> ClipboardFormat \<Rightarrow> Error + bytes" where
  "host_reads rd m f = fst (rd (ho_backend m) f)"

definition polled :: "('b \<Rightarrow> ClipboardFormat \<Rightarrow> (Error + bytes) \<times> 'b) \<Rightarrow> 'b \<Rightarrow> 'b" where
  "polled rd bk =
     (case rd bk CF_PlainText of
        (Inr (b # bs), bk1) \<Rightarrow> bk1
      | (_, bk1) \<Rightarrow> snd (rd bk1 CF_Png))"

definition host_poll ::
  "('b \<Rightarrow> ClipboardFormat \<Rightarrow> (Error + bytes) \<times> 'b) \<Rightarrow> (bytes \<Rightarrow> hash) \<Rightarrow> 'b ClipHost \<Rightarrow> 'b ClipHost \<times> Message list" where
  "host_poll rd blake3 m =
     (case poll blake3 (host_reads rd m) [ho_peer m] (ho_manager m) of
        (cm, out) \<Rightarrow>
          (m\<lparr>ho_manager := cm, ho_backend := polled rd (ho_backend m)\<rparr>, map snd out))"

definition host_inbound ::
  "('b \<Rightarrow> ClipboardFormat \<Rightarrow> (Error + bytes) \<times> 'b) \<Rightarrow> ('b \<Rightarrow> ClipboardPayload \<Rightarrow> (Error + unit) \<times> 'b) \<Rightarrow>
   (bytes \<Rightarrow> hash) \<Rightarrow> Message \<Rightarrow> 'b ClipHost \<Rightarrow> 'b ClipHost \<times> Message list" where
  "host_inbound rd put blake3 msg m =
     (case handle_inbound blake3 (host_reads rd m) (ph_peer_id (ho_peer m)) msg (ho_manager m) of
        (cm, replies, written) \<Rightarrow>
          (m\<lparr>ho_manager := cm,
             ho_backend := (case written of
                              Some p \<Rightarrow> snd (put (ho_backend m) p)
                            | None \<Rightarrow>
                                (case msg of M_ClipboardRequest f \<Rightarrow> snd (rd (ho_backend m) f)
                                           | _ \<Rightarrow> ho_backend m))\<rparr>,
           replies))"

text \<open>
  The two machines with the clipboard messages on their way, in the order they were sent: their poll
  loops turn and messages arrive in any interleaving.
\<close>

type_synonym 'b clip_pair = "'b ClipHost \<times> 'b ClipHost \<times> Message list \<times> Message list"

inductive clip_pair_step ::
  "('b \<Rightarrow> ClipboardFormat \<Rightarrow> (Error + bytes) \<times> 'b) \<Rightarrow> ('b \<Rightarrow> ClipboardPayload \<Rightarrow> (Error + unit) \<times> 'b) \<Rightarrow>
   (bytes \<Rightarrow> hash) \<Rightarrow> 'b clip_pair \<Rightarrow> 'b clip_pair \<Rightarrow> bool" for rd put blake3 where
  poll_a: "host_poll rd blake3 a = (a', out) \<Longrightarrow> clip_pair_step rd put blake3 (a, b, ab, ba) (a', b, ab @ out, ba)"
| poll_b: "host_poll rd blake3 b = (b', out) \<Longrightarrow> clip_pair_step rd put blake3 (a, b, ab, ba) (a, b', ab, ba @ out)"
| to_b: "host_inbound rd put blake3 m b = (b', out) \<Longrightarrow>
    clip_pair_step rd put blake3 (a, b, m # ab, ba) (a, b', ab, ba @ out)"
| to_a: "host_inbound rd put blake3 m a = (a', out) \<Longrightarrow>
    clip_pair_step rd put blake3 (a, b, ab, m # ba) (a', b, ab @ out, ba)"

inductive_cases clip_pair_stepE: "clip_pair_step rd put blake3 (a, b, ab, ba) s"

text \<open>A machine that knows a digest; one whose clipboard is empty or holds a content it knows.\<close>

definition host_knows :: "'b ClipHost \<Rightarrow> hash \<Rightarrow> bool" where
  "host_knows m h \<longleftrightarrow> originator (cm_originators (ho_manager m)) h \<noteq> None"

definition host_quiet :: "('b \<Rightarrow> ClipboardFormat \<Rightarrow> (Error + bytes) \<times> 'b) \<Rightarrow> (bytes \<Rightarrow> hash) \<Rightarrow> 'b ClipHost \<Rightarrow> bool" where
  "host_quiet rd blake3 m \<longleftrightarrow>
     (case detect blake3 (host_reads rd m) of None \<Rightarrow> True | Some (_, h) \<Rightarrow> host_knows m h)"

text \<open>
  The way of a text: not noticed; advertised; requested; on its way; arrived.
\<close>

definition clip_phase ::
  "('b \<Rightarrow> ClipboardFormat \<Rightarrow> (Error + bytes) \<times> 'b) \<Rightarrow> (bytes \<Rightarrow> hash) \<Rightarrow> bytes \<Rightarrow> nat \<Rightarrow> 'b clip_pair \<Rightarrow> bool" where
  "clip_phase rd blake3 t n s \<longleftrightarrow>
     (case s of (a, b, ab, ba) \<Rightarrow>
        host_reads rd a CF_PlainText = Ok t \<and> host_quiet rd blake3 b \<and>
        (if n = 0
         then \<not> host_knows a (blake3 t) \<and> cm_last_hash (ho_manager a) \<noteq> Some (blake3 t) \<and> ab = [] \<and> ba = []
         else host_knows a (blake3 t) \<and>
           (n = 1 \<and> ab = [M_ClipboardFormats [CF_PlainText] (blake3 t)] \<and> ba = [] \<or>
            n = 2 \<and> ab = [] \<and> ba = [M_ClipboardRequest CF_PlainText] \<or>
            n = 3 \<and> ba = [] \<and> (\<exists>p. ab = [M_ClipboardData \<lparr>cp_format = CF_PlainText, cp_bytes = t,
               cp_originator = p, cp_hash = blake3 t\<rparr>]) \<or>
            n = 4 \<and> ab = [] \<and> ba = [] \<and> host_reads rd b CF_PlainText = Ok t)))"

lemma detect_text: "r CF_PlainText = Ok t \<Longrightarrow> t \<noteq> [] \<Longrightarrow> detect blake3 r = Some ([CF_PlainText], blake3 t)"
  by (cases t) (simp_all add: detect_def hash_content_def)

lemma poll_known:
  assumes "poll blake3 r peers cm = (cm', out)"
    and "case detect blake3 r of None \<Rightarrow> True | Some (_, h) \<Rightarrow> originator (cm_originators cm) h \<noteq> None"
  shows "out = [] \<and> cm_originators cm' = cm_originators cm"
  using assms by (auto simp: poll_def split: option.splits if_splits)

context clipboard_backend
begin

lemma polled_reads: "fst (rd (polled rd bk) f) = fst (rd bk f)"
proof -
  obtain r bk1 where r: "rd bk CF_PlainText = (r, bk1)" by fastforce
  then have keeps: "fst (rd bk1 g) = fst (rd bk g)" for g using read_keeps [of bk CF_PlainText g] by simp
  show ?thesis
  proof (cases r)
    case (Inr bs)
    then show ?thesis by (cases bs) (simp_all add: polled_def r keeps read_keeps)
  qed (simp add: polled_def r keeps read_keeps)
qed

lemma host_poll_reads: "host_poll rd blake3 m = (m', out) \<Longrightarrow> host_reads rd m' = host_reads rd m"
  by (auto simp: host_poll_def host_reads_def polled_reads split: prod.splits)

lemma quiet_poll:
  assumes "host_poll rd blake3 m = (m', out)" and "host_quiet rd blake3 m"
  shows "out = []" and "host_reads rd m' = host_reads rd m" and "host_knows m' h \<longleftrightarrow> host_knows m h"
    and "host_quiet rd blake3 m'"
proof -
  obtain cm o' where p: "poll blake3 (host_reads rd m) [ho_peer m] (ho_manager m) = (cm, o')" by fastforce
  have k: "o' = [] \<and> cm_originators cm = cm_originators (ho_manager m)"
    by (rule poll_known [OF p]) (use assms(2) in \<open>auto simp: host_quiet_def host_knows_def split: option.splits\<close>)
  then show out: "out = []" using assms(1) p by (auto simp: host_poll_def)
  show reads: "host_reads rd m' = host_reads rd m" by (rule host_poll_reads [OF assms(1)])
  have kn: "host_knows m' h \<longleftrightarrow> host_knows m h" for h
    using assms(1) p k by (auto simp: host_poll_def host_knows_def)
  then show "host_knows m' h \<longleftrightarrow> host_knows m h" .
  show "host_quiet rd blake3 m'" using assms(2) kn by (auto simp: host_quiet_def reads split: option.splits)
qed

lemma fresh_poll:
  assumes "host_poll rd blake3 m = (m', out)" and "host_reads rd m CF_PlainText = Ok t" and "t \<noteq> []"
    and "\<not> host_knows m (blake3 t)" and "cm_last_hash (ho_manager m) \<noteq> Some (blake3 t)"
  shows "out = [M_ClipboardFormats [CF_PlainText] (blake3 t)] \<and> host_knows m' (blake3 t)"
  using assms
  by (auto simp: host_poll_def poll_def detect_text host_knows_def registry.get_put)

lemma phase_step:
  assumes step: "clip_pair_step rd put blake3 s s'" and phase: "clip_phase rd blake3 t n s" and "t \<noteq> []"
    and ok: "carries CF_PlainText t" "\<forall>bk p. cp_format p = CF_PlainText \<longrightarrow> cp_bytes p = t \<longrightarrow> is_ok (fst (put bk p))"
  shows "clip_phase rd blake3 t n s' \<or> clip_phase rd blake3 t (Suc n) s'"
  using step phase
proof cases
  case (poll_a a a' out b ab ba)
  have reads: "host_reads rd a' = host_reads rd a" by (rule host_poll_reads [OF poll_a(3)])
  have content: "host_reads rd a CF_PlainText = Ok t" using phase poll_a(1) by (simp add: clip_phase_def)
  show ?thesis
  proof (cases "n = 0")
    case True
    then show ?thesis
      using phase poll_a(1,2) reads fresh_poll [OF poll_a(3) content assms(3)] by (simp add: clip_phase_def)
  next
    case False
    then have "host_quiet rd blake3 a"
      using phase poll_a(1) content assms(3) by (simp add: clip_phase_def host_quiet_def detect_text)
    from quiet_poll [OF poll_a(3) this] have "clip_phase rd blake3 t n s'"
      using phase False unfolding poll_a(1,2) by (simp add: clip_phase_def)
    then show ?thesis ..
  qed
next
  case (poll_b b b' out a ab ba)
  then have "host_quiet rd blake3 b" using phase by (simp add: clip_phase_def)
  from quiet_poll [OF poll_b(3) this] have "clip_phase rd blake3 t n s'"
    using phase unfolding poll_b(1,2) by (cases "n = 0") (simp_all add: clip_phase_def)
  then show ?thesis ..
next
  case (to_b m b b' out a ab ba)
  show ?thesis
  proof (cases "n = 1")
    case True
    then have m: "m = M_ClipboardFormats [CF_PlainText] (blake3 t)" "ab = []" "ba = []"
      using phase to_b(1) by (simp_all add: clip_phase_def)
    have b: "b' = b\<lparr>ho_manager := (ho_manager b)\<lparr>cm_originators :=
        record_originator (blake3 t) (ph_peer_id (ho_peer b)) (cm_originators (ho_manager b))\<rparr>\<rparr>"
      "out = [M_ClipboardRequest CF_PlainText]"
      using to_b(3) by (auto simp: m host_inbound_def)
    then have "host_reads rd b' = host_reads rd b" "host_knows b h \<Longrightarrow> host_knows b' h" for h
      by (auto simp: host_reads_def host_knows_def registry.get_put fun_eq_iff)
    then have "host_quiet rd blake3 b \<Longrightarrow> host_quiet rd blake3 b'"
      by (auto simp: host_quiet_def split: option.splits)
    then show ?thesis using phase to_b(1,2) m b True by (simp add: clip_phase_def)
  next
    case False
    then obtain p where n: "n = 3" and m: "m = M_ClipboardData \<lparr>cp_format = CF_PlainText, cp_bytes = t,
        cp_originator = p, cp_hash = blake3 t\<rparr>" "ab = []" "ba = []"
      using phase to_b(1) by (auto simp: clip_phase_def split: if_splits)
    let ?p = "\<lparr>cp_format = CF_PlainText, cp_bytes = t, cp_originator = p, cp_hash = blake3 t\<rparr>"
    obtain r bk where w: "put (ho_backend b) ?p = (r, bk)" by fastforce
    moreover have "is_ok (fst (put (ho_backend b) ?p))" using ok(2) by simp
    ultimately obtain u where "put (ho_backend b) ?p = (Inr u, bk)" by auto
    from read_put [OF _ this] ok(1) have got: "fst (rd bk CF_PlainText) = Ok t" by simp
    have b: "b' = b\<lparr>ho_manager := (ho_manager b)\<lparr>cm_originators := record_originator (blake3 t) p (cm_originators (ho_manager b)),
        cm_last_hash := Some (blake3 t)\<rparr>, ho_backend := bk\<rparr>" "out = []"
      using to_b(3) w by (auto simp: m host_inbound_def)
    then have content: "host_reads rd b' CF_PlainText = Ok t" "host_knows b' (blake3 t)"
      using got by (simp_all add: host_reads_def host_knows_def registry.get_put)
    then have "host_quiet rd blake3 b'" using assms(3) by (simp add: host_quiet_def detect_text)
    then show ?thesis using phase to_b(1,2) m b(2) n content by (simp add: clip_phase_def)
  qed
next
  case (to_a m a a' out b ab ba)
  then have n: "n = 2" and m: "m = M_ClipboardRequest CF_PlainText" "ab = []" "ba = []"
    and content: "host_reads rd a CF_PlainText = Ok t"
    using phase by (auto simp: clip_phase_def split: if_splits)
  have a: "a' = a\<lparr>ho_manager := ho_manager a, ho_backend := snd (rd (ho_backend a) CF_PlainText)\<rparr>"
    "out = [M_ClipboardData \<lparr>cp_format = CF_PlainText, cp_bytes = t,
       cp_originator = cm_local_peer_id (ho_manager a), cp_hash = blake3 t\<rparr>]"
    using to_a(3) content by (auto simp: m host_inbound_def hash_content_def)
  then have "host_reads rd a' = host_reads rd a" "host_knows a' h = host_knows a h" for h
    by (auto simp: host_reads_def host_knows_def read_keeps fun_eq_iff)
  then show ?thesis using phase to_a(1,2) m a(2) n content by (simp add: clip_phase_def)
qed

lemma phase_steps:
  assumes "(clip_pair_step rd put blake3)\<^sup>*\<^sup>* s s'" and "clip_phase rd blake3 t n s" and "t \<noteq> []"
    and ok: "carries CF_PlainText t" "\<forall>bk p. cp_format p = CF_PlainText \<longrightarrow> cp_bytes p = t \<longrightarrow> is_ok (fst (put bk p))"
  shows "\<exists>k \<ge> n. clip_phase rd blake3 t k s'"
  using assms(1)
proof (induction rule: rtranclp_induct)
  case base
  then show ?case using assms(2) by blast
next
  case (step s1 s2)
  then obtain k where k: "n \<le> k" "clip_phase rd blake3 t k s1" by blast
  from phase_step [OF step.hyps(2) k(2) assms(3) ok] k(1) show ?case by (metis le_SucI)
qed

lemma phase_progress:
  assumes "clip_phase rd blake3 t n (a, b, ab, ba)" and "n < 4" and "t \<noteq> []"
    and ok: "carries CF_PlainText t" "\<forall>bk p. cp_format p = CF_PlainText \<longrightarrow> cp_bytes p = t \<longrightarrow> is_ok (fst (put bk p))"
  shows "\<exists>s'. clip_pair_step rd put blake3 (a, b, ab, ba) s' \<and> clip_phase rd blake3 t (Suc n) s'"
proof -
  have moved: "clip_phase rd blake3 t (Suc n) s'"
    if "clip_pair_step rd put blake3 (a, b, ab, ba) s'" "\<not> clip_phase rd blake3 t n s'" for s'
    using phase_step [OF that(1) assms(1,3) ok] that(2) by blast
  consider "n = 0" | "n = 2" | "n = 1 \<or> n = 3" using assms(2) by linarith
  then show ?thesis
  proof cases
    case 1
    obtain a' out where p: "host_poll rd blake3 a = (a', out)" by fastforce
    then have "host_knows a' (blake3 t)"
      using fresh_poll [OF p] assms(1,3) 1 by (simp add: clip_phase_def)
    then have "\<not> clip_phase rd blake3 t n (a', b, ab @ out, ba)" using 1 by (simp add: clip_phase_def)
    with moved clip_pair_step.poll_a [OF p, where b = b and ab = ab and ba = ba] show ?thesis by blast
  next
    case 2
    then obtain m where ba: "ba = [m]" using assms(1) by (auto simp: clip_phase_def)
    obtain a' out where p: "host_inbound rd put blake3 m a = (a', out)" by fastforce
    have "\<not> clip_phase rd blake3 t n (a', b, ab @ out, [])" using 2 by (simp add: clip_phase_def)
    with moved clip_pair_step.to_a [OF p, where b = b and ab = ab and ba = "[]"] show ?thesis unfolding ba by blast
  next
    case 3
    then obtain m where ab: "ab = [m]" using assms(1) by (auto simp: clip_phase_def)
    obtain b' out where p: "host_inbound rd put blake3 m b = (b', out)" by fastforce
    have "\<not> clip_phase rd blake3 t n (a, b', [], ba @ out)" using 3 by (auto simp: clip_phase_def)
    with moved clip_pair_step.to_b [OF p, where a = a and ab = "[]" and ba = ba] show ?thesis unfolding ab by blast
  qed
qed

lemma phase_finishes:
  assumes "clip_phase rd blake3 t n s" and "n \<le> 4" and "t \<noteq> []"
    and ok: "carries CF_PlainText t" "\<forall>bk p. cp_format p = CF_PlainText \<longrightarrow> cp_bytes p = t \<longrightarrow> is_ok (fst (put bk p))"
  shows "\<exists>s'. (clip_pair_step rd put blake3)\<^sup>*\<^sup>* s s' \<and> clip_phase rd blake3 t 4 s'"
  using assms(1,2)
proof (induction "4 - n" arbitrary: n s)
  case 0
  then have "n = 4" by simp
  with 0 show ?case by blast
next
  case (Suc k)
  obtain a b ab ba where s: "s = (a, b, ab, ba)" by (cases s)
  from Suc.hyps(2) have "n < 4" by simp
  from phase_progress [OF Suc.prems(1) [unfolded s] this assms(3) ok]
  obtain s1 where s1: "clip_pair_step rd put blake3 s s1" "clip_phase rd blake3 t (Suc n) s1" by (auto simp: s)
  have "k = 4 - Suc n" "Suc n \<le> 4" using Suc.hyps(2) by simp_all
  from Suc.hyps(1) [OF this(1) s1(2) this(2)]
  obtain s' where "(clip_pair_step rd put blake3)\<^sup>*\<^sup>* s1 s'" "clip_phase rd blake3 t 4 s'" by blast
  with s1(1) show ?case by (meson converse_rtranclp_into_rtranclp)
qed

end

lemma clip_phase_le: "clip_phase rd blake3 t n s \<Longrightarrow> n \<le> 4"
  by (cases s) (auto simp: clip_phase_def split: if_splits)

section \<open>Properties\<close>

text \<open>
  C31: No echo. Once a digest is registered - because a peer advertised it with some format, or
  sent data under it, or because it was broadcast here - no later poll advertises it to anyone,
  whatever the clipboard holds and whatever peers send in between.
\<close>

theorem no_echo:
  assumes "clip_step blake3 cm (Inbound rd p msg) = (cm1, out)"
    and "msg = M_ClipboardFormats (f # fs) h \<or> (\<exists>d. msg = M_ClipboardData d \<and> cp_hash d = h)"
    and "clip_run blake3 cm1 evs = (cm2, outs)"
  shows "\<forall>o' \<in> set outs. \<not> advertises h o'"
proof (rule clip_run_keeps [OF assms(3)])
  show "originator (cm_originators cm1) h \<noteq> None"
    using assms(1,2) by (auto simp: fold_record registry.get_put)
qed

text \<open>
  C32: Each content is advertised at most once in the life of the manager: of all events of a
  run, at most one sends out an advertisement of a given digest. In particular a content that is
  copied again after something else is not offered to the peers again.
\<close>

theorem advertised_at_most_once:
  assumes "clip_run blake3 cm evs = (cm', outs)"
  shows "length (filter (advertises h) outs) \<le> 1"
  using assms
proof (induction evs arbitrary: cm outs)
  case (Cons ev evs)
  obtain cm1 out where s: "clip_step blake3 cm ev = (cm1, out)" by fastforce
  obtain outs2 where r: "clip_run blake3 cm1 evs = (cm', outs2)" "outs = out # outs2"
    using Cons.prems(1) s by (auto split: prod.splits)
  show ?case
  proof (cases "advertises h out")
    case True
    then have "\<forall>o' \<in> set outs2. \<not> advertises h o'"
      using clip_run_keeps [OF r(1)] clip_step_advertises [OF s] by simp
    then show ?thesis using r(2) by simp
  next
    case False
    then show ?thesis using Cons.IH [OF r(1)] r(2) by simp
  qed
qed simp

theorem no_echo_witness:
  "let run = clip_run (\<lambda>b. b)
         (fst (clip_step (\<lambda>b. b) (clipboard_new (PeerId 1))
            (Inbound (\<lambda>_. Ok []) \<lparr>ph_peer_id = PeerId 2, ph_peer_name = ''b'', ph_remote_addr = None, ph_chan = 0\<rparr>
               (M_ClipboardFormats [CF_PlainText] [65]))))
         [Poll (\<lambda>_. Ok [65]) [\<lparr>ph_peer_id = PeerId 2, ph_peer_name = ''b'', ph_remote_addr = None, ph_chan = 0\<rparr>]]
   in \<forall>o' \<in> set (snd run). \<not> advertises [65] o'"
  unfolding Let_def by (rule no_echo [OF surjective_pairing disjI1 [OF refl] surjective_pairing])

theorem advertised_at_most_once_witness:
  "let outs = snd (clip_run (\<lambda>b. b) (clipboard_new (PeerId 1))
         (map (\<lambda>c. Poll (\<lambda>_. Ok c) [\<lparr>ph_peer_id = PeerId 2, ph_peer_name = ''b'', ph_remote_addr = None, ph_chan = 0\<rparr>])
            [[65], [66], [65]]))
   in length (filter (advertises [65]) outs) \<le> 1 \<and> advertises [65] (outs ! 0)"
  unfolding Let_def
  by (rule conjI [OF advertised_at_most_once [OF surjective_pairing]])
    (simp add: clipboard_new_def poll_def detect_def hash_content_def originator_def advertises_def
      split: prod.split)

text \<open>
  C33: Two machines synchronise a text through the clipboards of their systems. One machine's clipboard
  holds a text that its manager has not seen, the other's is empty or holds a content its own manager
  knows; nothing is on its way. However their poll loops and the arrivals interleave, at most one message
  is on its way, the first clipboard keeps the text, and a run can always go on until the other clipboard
  holds exactly the text; once the text was noticed and nothing is on its way, the other clipboard holds
  it, and no message is ever sent again. Both machines use the backend that \<open>ClipboardManager::new\<close> takes,
  opened already or not; of the system it is assumed that a text that is set is kept, and nobody else uses
  the clipboards. The content travels as soon as it is advertised, not when it is pasted.
\<close>

theorem clipboard_text_synchronised:
  fixes env :: "'c \<Rightarrow> ArboardEnv"
  assumes "keeps_text env change" and "ae_get_text (env (fst (ho_backend a))) = Ok t" and "t \<noteq> []"
    and "utf8_valid t" and "\<not> host_knows a (blake3 t)" and "cm_last_hash (ho_manager a) \<noteq> Some (blake3 t)"
    and "host_quiet (system_read env) blake3 b"
    and "(clip_pair_step (system_read env) (system_write env change) blake3)\<^sup>*\<^sup>* (a, b, [], []) (a', b', ab, ba)"
  shows "length (ab @ ba) \<le> 1 \<and> host_reads (system_read env) a' CF_PlainText = Ok t \<and>
    (\<exists>a'' b''. (clip_pair_step (system_read env) (system_write env change) blake3)\<^sup>*\<^sup>* (a', b', ab, ba) (a'', b'', [], []) \<and>
       host_reads (system_read env) b'' CF_PlainText = Ok t) \<and>
    (host_knows a' (blake3 t) \<and> ab = [] \<and> ba = [] \<longrightarrow>
       host_reads (system_read env) b' CF_PlainText = Ok t \<and>
       (\<forall>a'' b'' ab' ba'. (clip_pair_step (system_read env) (system_write env change) blake3)\<^sup>*\<^sup>* (a', b', [], []) (a'', b'', ab', ba') \<longrightarrow>
          ab' = [] \<and> ba' = []))"
proof -
  let ?rd = "system_read env" and ?put = "system_write env change"
  have ok: "CF_PlainText = CF_PlainText \<and> utf8_valid t"
    "\<forall>bk p. cp_format p = CF_PlainText \<longrightarrow> cp_bytes p = t \<longrightarrow> is_ok (fst (?put bk p))"
    using system_write_text [OF assms(1,4)] assms(4) by (auto simp: is_ok_def)
  have "host_reads ?rd a CF_PlainText = Ok t"
    using assms(1,2) system_read_text [of env "fst (ho_backend a)" "snd (ho_backend a)"]
    by (simp add: host_reads_def keeps_text_def map_ab_def)
  then have start: "clip_phase ?rd blake3 t 0 (a, b, [], [])" using assms(5-7) by (simp add: clip_phase_def)
  note steps = clipboard_backend.phase_steps [OF system_backend [OF assms(1)] _ _ assms(3) ok]
  note finishes = clipboard_backend.phase_finishes [OF system_backend [OF assms(1)] _ _ assms(3) ok]
  obtain n where n: "clip_phase ?rd blake3 t n (a', b', ab, ba)" using steps [OF assms(8) start] by blast
  obtain a'' b'' ab'' ba'' where run: "(clip_pair_step ?rd ?put blake3)\<^sup>*\<^sup>* (a', b', ab, ba) (a'', b'', ab'', ba'')"
    "clip_phase ?rd blake3 t 4 (a'', b'', ab'', ba'')"
    using finishes [OF n clip_phase_le [OF n]] by auto
  then have done_: "\<exists>a'' b''. (clip_pair_step ?rd ?put blake3)\<^sup>*\<^sup>* (a', b', ab, ba) (a'', b'', [], []) \<and>
      host_reads ?rd b'' CF_PlainText = Ok t"
    by (auto simp: clip_phase_def)
  have settled: "host_reads ?rd b' CF_PlainText = Ok t \<and> (\<forall>a'' b'' ab' ba'.
      (clip_pair_step ?rd ?put blake3)\<^sup>*\<^sup>* (a', b', [], []) (a'', b'', ab', ba') \<longrightarrow> ab' = [] \<and> ba' = [])"
    if q: "host_knows a' (blake3 t) \<and> ab = [] \<and> ba = []"
  proof -
    have four: "clip_phase ?rd blake3 t 4 (a', b', [], [])"
      using n q by (auto simp: clip_phase_def split: if_splits)
    have "ab' = [] \<and> ba' = []" if r: "(clip_pair_step ?rd ?put blake3)\<^sup>*\<^sup>* (a', b', [], []) (x, y, ab', ba')" for x y ab' ba'
    proof -
      obtain k where "4 \<le> k" "clip_phase ?rd blake3 t k (x, y, ab', ba')" using steps [OF r four] by blast
      then have "clip_phase ?rd blake3 t 4 (x, y, ab', ba')" using clip_phase_le by (metis le_antisym)
      then show ?thesis by (simp add: clip_phase_def)
    qed
    with four show ?thesis by (auto simp: clip_phase_def)
  qed
  have "length (ab @ ba) \<le> 1" "host_reads ?rd a' CF_PlainText = Ok t"
    using n by (auto simp: clip_phase_def split: if_splits)
  with done_ settled show ?thesis by blast
qed

text \<open>A system whose clipboard holds a text or nothing.\<close>

definition text_env :: "bytes option \<Rightarrow> ArboardEnv" where
  "text_env c =
     \<lparr>ae_new = Ok (), ae_get_text = (case c of Some t \<Rightarrow> Ok t | None \<Rightarrow> Err ''no text''),
      ae_get_image = Err ''no image'', ae_set_text = (\<lambda>_. Ok ()), ae_set_image = (\<lambda>_. Err ''no images''),
      ae_from_raw = (\<lambda>_. None), ae_encode_png = (\<lambda>_. Err ''png''), ae_decode_png = (\<lambda>_. Err ''png'')\<rparr>"

fun text_change :: "clip_call \<Rightarrow> bytes option \<Rightarrow> bytes option" where
  "text_change (SetText t) c = Some t"
| "text_change (SetImage i) c = c"

lemma text_env_keeps: "keeps_text text_env text_change"
  by (simp add: keeps_text_def text_env_def)

interpretation text_clipboard: clipboard_backend "system_read text_env" "system_write text_env text_change"
  "\<lambda>f t. f = CF_PlainText \<and> utf8_valid t"
  by (rule system_backend [OF text_env_keeps])

theorem clipboard_text_synchronised_witness:
  "let peer = (\<lambda>n. \<lparr>ph_peer_id = PeerId n, ph_peer_name = ''p'', ph_remote_addr = None, ph_chan = 0\<rparr>);
       a = \<lparr>ho_peer = peer 2, ho_manager = clipboard_new (PeerId 1), ho_backend = (Some [72, 105], default_backend)\<rparr>;
       b = \<lparr>ho_peer = peer 1, ho_manager = clipboard_new (PeerId 2), ho_backend = (None, default_backend)\<rparr>
   in \<exists>a' b'. (clip_pair_step (system_read text_env) (system_write text_env text_change) (\<lambda>x. x))\<^sup>*\<^sup>*
        (a, b, [], []) (a', b', [], []) \<and> host_reads (system_read text_env) b' CF_PlainText = Ok [72, 105]"
proof -
  let ?peer = "\<lambda>n. \<lparr>ph_peer_id = PeerId n, ph_peer_name = ''p'', ph_remote_addr = None, ph_chan = 0\<rparr>"
  let ?a = "\<lparr>ho_peer = ?peer 2, ho_manager = clipboard_new (PeerId 1), ho_backend = (Some [72, 105], default_backend)\<rparr>"
  let ?b = "\<lparr>ho_peer = ?peer 1, ho_manager = clipboard_new (PeerId 2), ho_backend = (None, default_backend)\<rparr>"
  have content: "ae_get_text (text_env (fst (ho_backend ?a))) = Ok [72, 105]" "utf8_valid [72, 105]"
    by (simp_all add: text_env_def)
  have a: "\<not> host_knows ?a [72, 105]" "cm_last_hash (ho_manager ?a) \<noteq> Some [72, 105]"
    by (simp_all add: host_knows_def clipboard_new_def originator_def)
  have b: "host_quiet (system_read text_env) (\<lambda>x. x) ?b"
    by (simp add: host_quiet_def detect_def host_reads_def system_read_def arboard_read_def ensure_def
        arboard_get_def text_env_def map_ab_def)
  from clipboard_text_synchronised [OF text_env_keeps content(1) _ content(2) a b rtranclp.rtrancl_refl]
  show ?thesis unfolding Let_def by blast
qed

end
