(* ===== verification/DaemonConfig.thy ===== *)
theory DaemonConfig
  imports CoreTypes
begin

text \<open>
  The configuration (\<open>crates/core/src/config.rs\<close>) and how the daemon arrives at the one it runs
  with (the first part of \<open>run\<close> in \<open>crates/daemon/src/app.rs\<close>, and \<open>init_config\<close>). The toml
  reader and printer are parameters; socket addresses and paths are kept in their display form.
\<close>

section \<open>The configuration\<close>

datatype ServerRole = RoleServer | RoleClient

record NetworkConfig =
  nc_listen :: string
  nc_connect :: "string option"
  nc_heartbeat_interval_ms :: u64
  nc_heartbeat_timeout_ms :: u64
  nc_reconnect_initial_ms :: u64
  nc_reconnect_max_ms :: u64
  nc_trusted_fingerprints :: "string list"

record ClipboardConfig =
  clc_enabled :: bool
  clc_max_bytes :: u64
  clc_sync_images :: bool
  clc_sync_files :: bool

record FileTransferConfig =
  ftc_enabled :: bool
  ftc_drop_dir :: "string option"
  ftc_chunk_size :: u32
  ftc_max_concurrent :: u32
  ftc_compress :: bool

record Config =
  cfg_role :: ServerRole
  cfg_peer_name :: string
  cfg_network :: NetworkConfig
  cfg_clipboard :: ClipboardConfig
  cfg_file_transfer :: FileTransferConfig
  cfg_layout :: ScreenLayout
  cfg_emergency_hotkey :: string
  cfg_log_dir :: "string option"

definition network_default :: NetworkConfig where
  "network_default =
     \<lparr>nc_listen = ''0.0.0.0:24800'', nc_connect = None, nc_heartbeat_interval_ms = 2000,
      nc_heartbeat_timeout_ms = 6000, nc_reconnect_initial_ms = 500, nc_reconnect_max_ms = 30000,
      nc_trusted_fingerprints = []\<rparr>"

definition clipboard_default :: ClipboardConfig where
  "clipboard_default =
     \<lparr>clc_enabled = True, clc_max_bytes = 100 * 1024 * 1024, clc_sync_images = True,
      clc_sync_files = True\<rparr>"

definition file_transfer_default :: FileTransferConfig where
  "file_transfer_default =
     \<lparr>ftc_enabled = True, ftc_drop_dir = None, ftc_chunk_size = 64 * 1024, ftc_max_concurrent = 4,
      ftc_compress = True\<rparr>"

text \<open>The environment variables are the map \<open>env\<close>.\<close>

definition hostname_or_unknown :: "(string \<Rightarrow> string option) \<Rightarrow> string" where
  "hostname_or_unknown env =
     (case env ''COMPUTERNAME'' of
        Some n \<Rightarrow> n
      | None \<Rightarrow> (case env ''HOSTNAME'' of Some n \<Rightarrow> n | None \<Rightarrow> ''unknown''))"

definition config_default :: "(string \<Rightarrow> string option) \<Rightarrow> Config" where
  "config_default env =
     \<lparr>cfg_role = RoleServer, cfg_peer_name = hostname_or_unknown env,
      cfg_network = network_default, cfg_clipboard = clipboard_default,
      cfg_file_transfer = file_transfer_default, cfg_layout = layout_default,
      cfg_emergency_hotkey = ''Ctrl+Alt+Shift+Esc'', cfg_log_dir = None\<rparr>"

section \<open>Loading and saving\<close>

text \<open>
  A configuration file that is absent, that cannot be read (with the error), or its text.
\<close>

datatype ConfigFile = Absent | Unreadable string | Contents string

definition config_load :: "(string \<Rightarrow> string + Config) \<Rightarrow> string \<Rightarrow> ConfigFile \<Rightarrow> Error + Config" where
  "config_load from_toml path file_state =
     (case file_state of
        Absent \<Rightarrow> Err (EConfigMissing path)
      | Unreadable e \<Rightarrow> Err (EIo e)
      | Contents t \<Rightarrow> map_err ETomlDe (from_toml t))"

definition config_load_or_default ::
  "(string \<Rightarrow> string + Config) \<Rightarrow> (string \<Rightarrow> string option) \<Rightarrow> string \<Rightarrow> ConfigFile \<Rightarrow> Config" where
  "config_load_or_default from_toml env path file_state =
     (case config_load from_toml path file_state of Inl _ \<Rightarrow> config_default env | Inr c \<Rightarrow> c)"

record SaveWorld =
  svw_create_dir :: "string + unit"
  svw_write :: "(string \<times> nat) option"

definition config_save ::
  "(Config \<Rightarrow> string + string) \<Rightarrow> SaveWorld \<Rightarrow> Config \<Rightarrow> ConfigFile \<Rightarrow> (Error + unit) \<times> ConfigFile" where
  "config_save to_toml w c file_state =
     (case svw_create_dir w of
        Inl e \<Rightarrow> (Err (EIo e), file_state)
      | Inr _ \<Rightarrow>
          (case to_toml c of
             Inl e \<Rightarrow> (Err (ETomlSer e), file_state)
           | Inr t \<Rightarrow>
               (case svw_write w of
                  Some (e, n) \<Rightarrow> (Err (EIo e), Contents (take n t))
                | None \<Rightarrow> (Ok (), Contents t))))"

definition init_config ::
  "(Config \<Rightarrow> string + string) \<Rightarrow> SaveWorld \<Rightarrow> (string \<Rightarrow> string option) \<Rightarrow> string \<Rightarrow> bool \<Rightarrow>
   ConfigFile \<Rightarrow> (string + unit) \<times> ConfigFile" where
  "init_config to_toml w env path force file_state =
     (if file_state \<noteq> Absent \<and> \<not> force
      then (Err (''config already exists at '' @ path @ ''; pass --force to overwrite''), file_state)
      else (case config_save to_toml w (config_default env) file_state of
              (r, file_state') \<Rightarrow> (map_err (\<lambda>_. ''save default config'') r, file_state')))"

section \<open>The configuration of a run\<close>

record RunArgs =
  ra_config_path :: "string option"
  ra_role_override :: "string option"
  ra_listen_override :: "string option"
  ra_connect_override :: "string option"
  ra_pinned_fingerprints :: "string list"
  ra_ipc_enabled :: bool

definition ascii_lower :: "char \<Rightarrow> char" where
  "ascii_lower c =
     (if 65 \<le> (of_char c :: nat) \<and> (of_char c :: nat) \<le> 90
      then char_of (of_char c + (32 :: nat)) else c)"

definition parse_role :: "string \<Rightarrow> string + ServerRole" where
  "parse_role s =
     (let l = map ascii_lower s in
      if l = ''server'' then Ok RoleServer
      else if l = ''client'' then Ok RoleClient
      else Err (''unknown role '' @ [CHR 0x27] @ l @ [CHR 0x27] @ ''; expected server or client''))"

text \<open>The command line over the file: errors of the file other than its absence end the start.\<close>

definition base_config ::
  "(string \<Rightarrow> string + Config) \<Rightarrow> (string \<Rightarrow> string option) \<Rightarrow> string \<Rightarrow> ConfigFile \<Rightarrow> Error + Config" where
  "base_config from_toml env path file_state =
     (case config_load from_toml path file_state of
        Inr c \<Rightarrow> Ok c
      | Inl e \<Rightarrow> (case e of EConfigMissing _ \<Rightarrow> Ok (config_default env) | _ \<Rightarrow> Err e))"

definition apply_overrides :: "RunArgs \<Rightarrow> Config \<Rightarrow> string + Config" where
  "apply_overrides args c =
     try_then (case ra_role_override args of
                 None \<Rightarrow> Ok c
               | Some s \<Rightarrow> try_then (parse_role s) (\<lambda>r. Ok (c\<lparr>cfg_role := r\<rparr>)))
       (\<lambda>c1.
          let n1 = (case ra_listen_override args of
                      None \<Rightarrow> cfg_network c1 | Some l \<Rightarrow> (cfg_network c1)\<lparr>nc_listen := l\<rparr>);
              n2 = (case ra_connect_override args of
                      None \<Rightarrow> n1 | Some a \<Rightarrow> n1\<lparr>nc_connect := Some a\<rparr>);
              n3 = (if ra_pinned_fingerprints args = [] then n2
                    else n2\<lparr>nc_trusted_fingerprints := ra_pinned_fingerprints args\<rparr>)
          in Ok (c1\<lparr>cfg_network := n3\<rparr>))"

section \<open>Properties\<close>

text \<open>
  Saving and loading: a configuration that the toml printer writes and the reader gives back
  unchanged is what \<open>load\<close> returns after a successful \<open>save\<close>, whatever was in the file before;
  and \<open>init_config\<close> never changes an existing file unless it is forced to.
\<close>

theorem config_save_load:
  assumes "config_save to_toml w c f0 = (Inr u, f1)"
    and "\<And>t. to_toml c = Ok t \<Longrightarrow> from_toml t = Ok c"
  shows "config_load from_toml path f1 = Ok c \<and> config_load_or_default from_toml env path f1 = c \<and>
    base_config from_toml env path f1 = Ok c \<and>
    init_config to_toml w' env path False f1 =
      (Err (''config already exists at '' @ path @ ''; pass --force to overwrite''), f1)"
proof -
  obtain t where "to_toml c = Ok t" "f1 = Contents t"
    using assms(1) by (auto simp: config_save_def split: sum.splits option.splits)
  with assms(2) show ?thesis
    by (simp add: config_load_def config_load_or_default_def base_config_def init_config_def)
qed

theorem config_save_load_witness:
  "config_load (\<lambda>_. Ok (config_default Map.empty)) ''c.toml''
     (snd (config_save (\<lambda>_. Ok ''t'') \<lparr>svw_create_dir = Ok (), svw_write = None\<rparr>
        (config_default Map.empty) Absent)) = Ok (config_default Map.empty)"
proof -
  let ?w = "\<lparr>svw_create_dir = Ok (), svw_write = None\<rparr>"
  have "config_save (\<lambda>_. Ok ''t'') ?w (config_default Map.empty) Absent = (Inr (), Contents ''t'')"
    by (simp add: config_save_def)
  from config_save_load [OF this, of "\<lambda>_. Ok (config_default Map.empty)" "''c.toml''"]
  show ?thesis by (simp add: config_save_def)
qed

text \<open>
  The command line wins over the file, field by field: where an override is given the running
  configuration has exactly that value, where none is given it has the file's; nothing else
  changes. The only failure is a role that is neither server nor client, in any letter case.
\<close>

theorem overrides_win:
  "(apply_overrides args c = Ok c' \<longrightarrow>
     nc_listen (cfg_network c') =
       (case ra_listen_override args of Some l \<Rightarrow> l | None \<Rightarrow> nc_listen (cfg_network c)) \<and>
     nc_connect (cfg_network c') =
       (case ra_connect_override args of Some a \<Rightarrow> Some a | None \<Rightarrow> nc_connect (cfg_network c)) \<and>
     nc_trusted_fingerprints (cfg_network c') =
       (if ra_pinned_fingerprints args = [] then nc_trusted_fingerprints (cfg_network c)
        else ra_pinned_fingerprints args) \<and>
     (\<forall>s. ra_role_override args = Some s \<longrightarrow> parse_role s = Ok (cfg_role c')) \<and>
     (ra_role_override args = None \<longrightarrow> cfg_role c' = cfg_role c) \<and>
     cfg_network c'\<lparr>nc_listen := nc_listen (cfg_network c), nc_connect := nc_connect (cfg_network c),
       nc_trusted_fingerprints := nc_trusted_fingerprints (cfg_network c)\<rparr> = cfg_network c \<and>
     c'\<lparr>cfg_role := cfg_role c, cfg_network := cfg_network c\<rparr> = c) \<and>
   (is_ok (apply_overrides args c) \<longleftrightarrow>
     (\<forall>s. ra_role_override args = Some s \<longrightarrow>
        map ascii_lower s = ''server'' \<or> map ascii_lower s = ''client''))"
  by (auto simp: apply_overrides_def parse_role_def Let_def split: option.splits if_splits)

theorem overrides_win_witness:
  "\<exists>c'. apply_overrides \<lparr>ra_config_path = None, ra_role_override = Some ''Client'',
       ra_listen_override = Some ''127.0.0.1:1'', ra_connect_override = None,
       ra_pinned_fingerprints = [''ab''], ra_ipc_enabled = True\<rparr> (config_default Map.empty) = Ok c' \<and>
     nc_listen (cfg_network c') = ''127.0.0.1:1'' \<and> nc_trusted_fingerprints (cfg_network c') = [''ab''] \<and>
     nc_connect (cfg_network c') = None \<and> parse_role ''Client'' = Ok (cfg_role c')"
proof -
  let ?args = "\<lparr>ra_config_path = None, ra_role_override = Some ''Client'',
     ra_listen_override = Some ''127.0.0.1:1'', ra_connect_override = None,
     ra_pinned_fingerprints = [''ab''], ra_ipc_enabled = True\<rparr>"
  have "map ascii_lower ''Client'' = ''client''" by code_simp
  then have "is_ok (apply_overrides ?args (config_default Map.empty))"
    using overrides_win [of ?args "config_default Map.empty"] by simp
  then obtain c' where c': "apply_overrides ?args (config_default Map.empty) = Ok c'" by (rule is_okE)
  then show ?thesis
    using overrides_win [of ?args "config_default Map.empty" c']
    by (simp add: config_default_def network_default_def)
qed

end
