(* ===== verification/Handshake.thy ===== *)
theory Handshake
  imports SessionClient MessageStream DaemonConfig
begin

text \<open>
  Setting up a connection: the certificate store and the pin check of
  \<open>crates/network/src/tls.rs\<close>, the server's side of the handshake
  (\<open>handle_connection\<close> of \<open>crates/network/src/server.rs\<close>) and the client's
  (\<open>connect_once\<close> of \<open>crates/network/src/client.rs\<close>). QUIC, the TLS library, certificate
  generation, blake3 and the hex encoding are parameters; the fields of the world records say
  how their calls come out.
\<close>

section \<open>Certificates\<close>

record CertBundle =
  cb_cert_chain :: "bytes list"
  cb_key :: bytes
  cb_fingerprint_hex :: string

definition sha256_hex :: "(bytes \<Rightarrow> hash) \<Rightarrow> (bytes \<Rightarrow> string) \<Rightarrow> bytes \<Rightarrow> string" where
  "sha256_hex blake3 hex b = hex (blake3 b)"

definition bundle_of :: "(bytes \<Rightarrow> hash) \<Rightarrow> (bytes \<Rightarrow> string) \<Rightarrow> bytes \<Rightarrow> bytes \<Rightarrow> CertBundle" where
  "bundle_of blake3 hex cert key =
     \<lparr>cb_cert_chain = [cert], cb_key = key, cb_fingerprint_hex = sha256_hex blake3 hex cert\<rparr>"

text \<open>The two files of the certificate directory.\<close>

record CertDir =
  cd_cert :: "bytes option"
  cd_key :: "bytes option"

text \<open>
  The outcome of each call; a failed write leaves the first \<open>n\<close> bytes, \<open>None\<close> is success.
\<close>

record CertWorld =
  cw_create_dir :: "string + unit"
  cw_read_cert :: "string + unit"
  cw_read_key :: "string + unit"
  cw_generate :: "string + bytes \<times> bytes"
  cw_write_cert :: "(string \<times> nat) option"
  cw_write_key :: "(string \<times> nat) option"

definition load_or_generate ::
  "(bytes \<Rightarrow> hash) \<Rightarrow> (bytes \<Rightarrow> string) \<Rightarrow> CertWorld \<Rightarrow> CertDir \<Rightarrow> (Error + CertBundle) \<times> CertDir" where
  "load_or_generate blake3 hex w d =
     (case cw_create_dir w of
        Inl e \<Rightarrow> (Err (EIo e), d)
      | Inr _ \<Rightarrow>
          (case (cd_cert d, cd_key d) of
             (Some cert, Some key) \<Rightarrow>
               (case cw_read_cert w of
                  Inl e \<Rightarrow> (Err (EIo e), d)
                | Inr _ \<Rightarrow>
                    (case cw_read_key w of
                       Inl e \<Rightarrow> (Err (EIo e), d)
                     | Inr _ \<Rightarrow> (Ok (bundle_of blake3 hex cert key), d)))
           | _ \<Rightarrow>
               (case cw_generate w of
                  Inl e \<Rightarrow> (Err (ENetwork (''cert generation: '' @ e)), d)
                | Inr (cert, key) \<Rightarrow>
                    (case cw_write_cert w of
                       Some (e, n) \<Rightarrow> (Err (EIo e), d\<lparr>cd_cert := Some (take n cert)\<rparr>)
                     | None \<Rightarrow>
                         (case cw_write_key w of
                            Some (e, n) \<Rightarrow>
                              (Err (EIo e), d\<lparr>cd_cert := Some cert, cd_key := Some (take n key)\<rparr>)
                          | None \<Rightarrow>
                              (Ok (bundle_of blake3 hex cert key),
                               d\<lparr>cd_cert := Some cert, cd_key := Some key\<rparr>))))))"

section \<open>The pin check\<close>

definition eq_ignore_ascii_case :: "string \<Rightarrow> string \<Rightarrow> bool" where
  "eq_ignore_ascii_case a b \<longleftrightarrow> map ascii_lower a = map ascii_lower b"

definition verify_server_cert ::
  "(bytes \<Rightarrow> hash) \<Rightarrow> (bytes \<Rightarrow> string) \<Rightarrow> string list \<Rightarrow> bytes \<Rightarrow> string + unit" where
  "verify_server_cert blake3 hex pinned end_entity =
     (let fp = sha256_hex blake3 hex end_entity in
      if pinned = [] \<or> list_ex (\<lambda>p. eq_ignore_ascii_case p fp) pinned then Ok ()
      else Err (''server cert fingerprint '' @ fp @ '' not in pin list''))"

text \<open>The signature checks accept whatever they are given.\<close>

definition verify_signature :: "bytes \<Rightarrow> bytes \<Rightarrow> bytes \<Rightarrow> string + unit" where
  "verify_signature message cert dss = Ok ()"

section \<open>The server's side\<close>

record ServerConfig =
  sc_listen :: string
  sc_local_peer_id :: PeerId
  sc_local_peer_name :: string
  sc_cert :: CertBundle

text \<open>\<open>Debug\<close> of a message type is the name of its constructor.\<close>

primrec message_type_debug :: "MessageType \<Rightarrow> string" where
  "message_type_debug T_Hello = ''Hello''"
| "message_type_debug T_Welcome = ''Welcome''"
| "message_type_debug T_Goodbye = ''Goodbye''"
| "message_type_debug T_MouseMove = ''MouseMove''"
| "message_type_debug T_MouseMoveRelative = ''MouseMoveRelative''"
| "message_type_debug T_MouseButton = ''MouseButton''"
| "message_type_debug T_MouseScroll = ''MouseScroll''"
| "message_type_debug T_KeyEvent = ''KeyEvent''"
| "message_type_debug T_ScreenEnter = ''ScreenEnter''"
| "message_type_debug T_ScreenLeave = ''ScreenLeave''"
| "message_type_debug T_ModifierSync = ''ModifierSync''"
| "message_type_debug T_ClipboardFormats = ''ClipboardFormats''"
| "message_type_debug T_ClipboardRequest = ''ClipboardRequest''"
| "message_type_debug T_ClipboardData = ''ClipboardData''"
| "message_type_debug T_FileOfferStart = ''FileOfferStart''"
| "message_type_debug T_FileChunk = ''FileChunk''"
| "message_type_debug T_FileAck = ''FileAck''"
| "message_type_debug T_FileTransferCancel = ''FileTransferCancel''"
| "message_type_debug T_Ping = ''Ping''"
| "message_type_debug T_Pong = ''Pong''"
| "message_type_debug T_Error = ''Error''"

text \<open>The answer to the first message: the error and what is written, or the hello and the welcome.\<close>

definition server_answer ::
  "ServerConfig \<Rightarrow> Message \<Rightarrow> (Error \<times> Message list) + (Hello \<times> Message)" where
  "server_answer cfg msg =
     (case msg of
        M_Hello h \<Rightarrow>
          if hello_protocol_version h \<noteq> PROTOCOL_VERSION
          then Err (EVersionMismatch PROTOCOL_VERSION (hello_protocol_version h),
                    [M_Error 1 ''version mismatch''])
          else Ok (h, M_Welcome
                 \<lparr>wel_peer_id = sc_local_peer_id cfg, wel_peer_name = sc_local_peer_name cfg,
                  wel_accepted_capabilities = negotiate capabilities_full (hello_capabilities h),
                  wel_assigned_screen = ScreenId 1\<rparr>)
      | other \<Rightarrow>
          Err (EProtocol (''expected Hello, got '' @ message_type_debug (message_type other)), []))"

text \<open>
  A connection on the server: whether the control stream is opened, what reading the first message
  yields, and whether the welcome is written. The result, the messages written to the control
  stream and the events sent to the daemon; the peer loop runs between the last two events.
\<close>

record ServerWorld =
  sw_accept_bi :: "string + unit"
  sw_first :: "Error + Message"
  sw_welcome :: "Error + unit"
  sw_remote :: string
  sw_channel :: nat

definition handle_connection ::
  "ServerConfig \<Rightarrow> ServerWorld \<Rightarrow> (Error + unit) \<times> Message list \<times> ServerEvent list" where
  "handle_connection cfg w =
     (case sw_accept_bi w of
        Inl e \<Rightarrow> (Err (ENetwork (''accept_bi: '' @ e)), [], [])
      | Inr _ \<Rightarrow>
          (case sw_first w of
             Inl e \<Rightarrow> (Err e, [], [])
           | Inr msg \<Rightarrow>
               (case server_answer cfg msg of
                  Inl (e, replies) \<Rightarrow> (Err e, replies, [])
                | Inr (h, welcome) \<Rightarrow>
                    (case sw_welcome w of
                       Inl e \<Rightarrow> (Err e, [], [])
                     | Inr _ \<Rightarrow>
                         (Ok (), [welcome],
                          [SrvConnected \<lparr>ph_peer_id = hello_peer_id h,
                             ph_peer_name = hello_peer_name h,
                             ph_remote_addr = Some (sw_remote w), ph_chan = sw_channel w\<rparr>,
                           SrvDisconnected (hello_peer_id h)])))))"

section \<open>The client's side\<close>

record ClientConfig =
  cc_server_addr :: string
  cc_local_peer_id :: PeerId
  cc_local_peer_name :: string
  cc_trusted_fingerprints :: "string list"
  cc_heartbeat_interval_ms :: u64

definition client_hello :: "ClientConfig \<Rightarrow> Message" where
  "client_hello cfg = M_Hello
     \<lparr>hello_peer_id = cc_local_peer_id cfg, hello_peer_name = cc_local_peer_name cfg,
      hello_protocol_version = PROTOCOL_VERSION, hello_capabilities = capabilities_full\<rparr>"

definition client_accept :: "Message \<Rightarrow> Error + Welcome" where
  "client_accept msg =
     (case msg of
        M_Welcome w \<Rightarrow> Ok w
      | M_Error code message \<Rightarrow>
          Err (EPeerRejected (''['' @ show_nat (unat code) @ ''] '' @ message))
      | other \<Rightarrow>
          Err (EProtocol (''expected Welcome, got '' @ message_type_debug (message_type other))))"

text \<open>
  One attempt. The TLS library presents the server's certificate to the pin check during the QUIC
  handshake (\<open>kw_handshake\<close>: the certificate, or a failure of its own).
\<close>

record ClientWorld =
  kw_tls :: "string + unit"
  kw_connect :: "string + unit"
  kw_handshake :: "string + bytes"
  kw_open_bi :: "string + unit"
  kw_hello :: "Error + unit"
  kw_reply :: "Error + Message"
  kw_remote :: string
  kw_channel :: nat

definition connect_once ::
  "(bytes \<Rightarrow> hash) \<Rightarrow> (bytes \<Rightarrow> string) \<Rightarrow> ClientConfig \<Rightarrow> ClientWorld \<Rightarrow>
   (Error + unit) \<times> Message list \<times> ClientEvent list" where
  "connect_once blake3 hex cfg w =
     (case kw_tls w of
        Inl e \<Rightarrow> (Err (ENetwork (''quic client: '' @ e)), [], [])
      | Inr _ \<Rightarrow>
     (case kw_connect w of
        Inl e \<Rightarrow> (Err (ENetwork (''connect: '' @ e)), [], [])
      | Inr _ \<Rightarrow>
     (case try_then (kw_handshake w)
             (\<lambda>cert. verify_server_cert blake3 hex (cc_trusted_fingerprints cfg) cert) of
        Inl e \<Rightarrow> (Err (ENetwork (''handshake: '' @ e)), [], [])
      | Inr _ \<Rightarrow>
     (case kw_open_bi w of
        Inl e \<Rightarrow> (Err (ENetwork (''open_bi: '' @ e)), [], [])
      | Inr _ \<Rightarrow>
     (case kw_hello w of
        Inl e \<Rightarrow> (Err e, [], [])
      | Inr _ \<Rightarrow>
     (case try_then (kw_reply w) client_accept of
        Inl e \<Rightarrow> (Err e, [client_hello cfg], [])
      | Inr wel \<Rightarrow>
          (Ok (), [client_hello cfg],
           [CltConnected \<lparr>ph_peer_id = wel_peer_id wel, ph_peer_name = wel_peer_name wel,
              ph_remote_addr = Some (kw_remote w), ph_chan = kw_channel w\<rparr>,
            CltDisconnected (wel_peer_id wel)])))))))"

section \<open>Properties\<close>

lemma eq_ignore_ascii_case_refl [simp]: "eq_ignore_ascii_case a a"
  by (simp add: eq_ignore_ascii_case_def)

lemma connect_once_events:
  "connect_once blake3 hex cfg w = (r, msgs, evs) \<Longrightarrow> evs \<noteq> [] \<Longrightarrow>
   \<exists>cert wel. kw_handshake w = Ok cert \<and>
     verify_server_cert blake3 hex (cc_trusted_fingerprints cfg) cert = Ok () \<and>
     kw_reply w = Ok (M_Welcome wel) \<and> r = Ok () \<and> msgs = [client_hello cfg] \<and>
     evs = [CltConnected \<lparr>ph_peer_id = wel_peer_id wel, ph_peer_name = wel_peer_name wel,
              ph_remote_addr = Some (kw_remote w), ph_chan = kw_channel w\<rparr>, CltDisconnected (wel_peer_id wel)]"
  by (auto simp: connect_once_def client_accept_def
      split: sum.splits if_splits Message.splits elim!: try_then.elims)

text \<open>
  C19: The two ends of a connection agree on who they are. When the client's hello crosses the wire
  as a frame and the server's reply does so too, with the pin check passed and no I/O failure, the
  server reports a peer with the client's id and name, the client one with the server's, each
  exactly one connection followed by its end, and the accepted capabilities are what both support.
\<close>

theorem handshake_agrees:
  assumes "wire_ok ser de (client_hello kcfg)" and "message_bytes ser (client_hello kcfg) = Ok hb"
    and "sw_accept_bi sw = Ok ()" and "sw_first sw = fst (read_message eof de (hb @ rest))"
    and "sw_welcome sw = Ok ()"
    and "handle_connection scfg sw = (r, [reply], evs)"
    and "wire_ok ser de reply" and "message_bytes ser reply = Ok wb"
    and "kw_tls kw = Ok ()" and "kw_connect kw = Ok ()" and "kw_handshake kw = Ok cert"
    and "verify_server_cert blake3 hex (cc_trusted_fingerprints kcfg) cert = Ok ()"
    and "kw_open_bi kw = Ok ()" and "kw_hello kw = Ok ()"
    and "kw_reply kw = fst (read_message eof de (wb @ rest'))"
    and "connect_once blake3 hex kcfg kw = (r', msgs', evs')"
  shows "r = Ok () \<and> r' = Ok () \<and>
    evs = [SrvConnected \<lparr>ph_peer_id = cc_local_peer_id kcfg, ph_peer_name = cc_local_peer_name kcfg,
             ph_remote_addr = Some (sw_remote sw), ph_chan = sw_channel sw\<rparr>, SrvDisconnected (cc_local_peer_id kcfg)] \<and>
    evs' = [CltConnected \<lparr>ph_peer_id = sc_local_peer_id scfg, ph_peer_name = sc_local_peer_name scfg,
              ph_remote_addr = Some (kw_remote kw), ph_chan = kw_channel kw\<rparr>, CltDisconnected (sc_local_peer_id scfg)] \<and>
    (\<exists>w. reply = M_Welcome w \<and> wel_accepted_capabilities w = capabilities_full)"
proof -
  have first: "sw_first sw = Ok (client_hello kcfg)"
    using stream.rd_wr [OF assms(1,2)] assms(4) by simp
  have "kw_reply kw = Ok reply"
    using stream.rd_wr [OF assms(7,8)] assms(15) by simp
  have server: "r = Ok ()" "evs = [SrvConnected \<lparr>ph_peer_id = cc_local_peer_id kcfg,
        ph_peer_name = cc_local_peer_name kcfg,
        ph_remote_addr = Some (sw_remote sw), ph_chan = sw_channel sw\<rparr>,
      SrvDisconnected (cc_local_peer_id kcfg)]"
    "reply = M_Welcome \<lparr>wel_peer_id = sc_local_peer_id scfg, wel_peer_name = sc_local_peer_name scfg,
      wel_accepted_capabilities = capabilities_full, wel_assigned_screen = ScreenId 1\<rparr>"
    using assms(6)
    by (simp_all add: handle_connection_def first server_answer_def client_hello_def assms(3,5)
        negotiate_inf full_top)
  have "r' = Ok () \<and> evs' = [CltConnected \<lparr>ph_peer_id = sc_local_peer_id scfg,
        ph_peer_name = sc_local_peer_name scfg,
        ph_remote_addr = Some (kw_remote kw), ph_chan = kw_channel kw\<rparr>,
      CltDisconnected (sc_local_peer_id scfg)]"
    using assms(16)
    by (auto simp: connect_once_def client_accept_def assms(9-14) \<open>kw_reply kw = Ok reply\<close> server(3))
  with server show ?thesis by simp
qed

text \<open>
  A client only ever connects to a server whose certificate is pinned - its fingerprint is in
  the list, letter case aside - or without any check when the list is empty; and only after the
  server sent a welcome. Otherwise no event reaches the daemon.
\<close>

theorem connected_only_if_pinned:
  assumes "connect_once blake3 hex cfg w = (r, msgs, evs)" and "evs \<noteq> []"
  shows "\<exists>cert wel. kw_handshake w = Ok cert \<and> kw_reply w = Ok (M_Welcome wel) \<and>
    (cc_trusted_fingerprints cfg = [] \<or>
     (\<exists>p \<in> set (cc_trusted_fingerprints cfg). eq_ignore_ascii_case p (hex (blake3 cert))))"
  using connect_once_events [OF assms]
  by (auto simp: verify_server_cert_def sha256_hex_def list_ex_iff Let_def split: if_splits)

definition demo_client :: ClientConfig where
  "demo_client = \<lparr>cc_server_addr = ''10.0.0.1:24800'', cc_local_peer_id = PeerId 1,
     cc_local_peer_name = ''c'', cc_trusted_fingerprints = [''AB''], cc_heartbeat_interval_ms = 2000\<rparr>"

definition demo_server :: ServerConfig where
  "demo_server = \<lparr>sc_listen = ''0.0.0.0:24800'', sc_local_peer_id = PeerId 2, sc_local_peer_name = ''s'',
     sc_cert = \<lparr>cb_cert_chain = [], cb_key = [], cb_fingerprint_hex = []\<rparr>\<rparr>"

definition demo_welcome :: Message where
  "demo_welcome = M_Welcome \<lparr>wel_peer_id = PeerId 2, wel_peer_name = ''s'',
     wel_accepted_capabilities = capabilities_full, wel_assigned_screen = ScreenId 1\<rparr>"

definition demo_client_world :: ClientWorld where
  "demo_client_world = \<lparr>kw_tls = Ok (), kw_connect = Ok (), kw_handshake = Ok [1], kw_open_bi = Ok (),
     kw_hello = Ok (), kw_reply = Ok demo_welcome, kw_remote = ''10.0.0.9:24800'', kw_channel = 0\<rparr>"

lemma demo_pin: "verify_server_cert (\<lambda>b. b) (\<lambda>_. ''ab'') [''AB''] c = Ok ()"
proof -
  have "eq_ignore_ascii_case ''AB'' ''ab''" by code_simp
  then show ?thesis by (simp add: verify_server_cert_def sha256_hex_def)
qed

theorem connected_only_if_pinned_witness:
  "let out = connect_once (\<lambda>b. b) (\<lambda>_. ''ab'') demo_client demo_client_world
   in length (snd (snd out)) = 2 \<and> eq_ignore_ascii_case ''AB'' ''ab''"
proof -
  let ?out = "connect_once (\<lambda>b. b) (\<lambda>_. ''ab'') demo_client demo_client_world"
  have evs: "length (snd (snd ?out)) = 2"
    by (simp add: connect_once_def demo_client_world_def demo_client_def demo_pin demo_welcome_def
        client_accept_def)
  then have "snd (snd ?out) \<noteq> []" by auto
  moreover have "connect_once (\<lambda>b. b) (\<lambda>_. ''ab'') demo_client demo_client_world =
      (fst ?out, fst (snd ?out), snd (snd ?out))" by simp
  ultimately have "\<exists>cert wel. kw_handshake demo_client_world = Ok cert \<and>
      kw_reply demo_client_world = Ok (M_Welcome wel) \<and> (cc_trusted_fingerprints demo_client = [] \<or>
      (\<exists>p \<in> set (cc_trusted_fingerprints demo_client). eq_ignore_ascii_case p ''ab''))"
    by (intro connected_only_if_pinned)
  with evs show ?thesis by (simp add: demo_client_def Let_def)
qed

text \<open>
  The server reports a peer exactly when the first message on the control stream is a hello of
  its own protocol version and the welcome could be written; a hello of another version is answered
  with error 1, any other message with nothing, and in neither case does the daemon see a peer.
\<close>

theorem server_accepts_iff:
  "handle_connection cfg w = (r, msgs, evs) \<Longrightarrow>
   (evs \<noteq> [] \<longleftrightarrow> is_ok (sw_accept_bi w) \<and> is_ok (sw_welcome w) \<and>
     (\<exists>h. sw_first w = Ok (M_Hello h) \<and> hello_protocol_version h = PROTOCOL_VERSION)) \<and>
   (evs = [] \<longleftrightarrow> \<not> is_ok r) \<and>
   (evs = [] \<longrightarrow> msgs \<in> {[], [M_Error 1 ''version mismatch'']}) \<and>
   (\<forall>h. is_ok (sw_accept_bi w) \<longrightarrow> sw_first w = Ok (M_Hello h) \<longrightarrow>
     hello_protocol_version h \<noteq> PROTOCOL_VERSION \<longrightarrow> msgs = [M_Error 1 ''version mismatch''])"
  by (auto simp: handle_connection_def server_answer_def is_ok_def
      split: sum.splits Message.splits if_splits)

theorem server_accepts_iff_witness:
  "let out = handle_connection demo_server \<lparr>sw_accept_bi = Ok (),
       sw_first = Ok (M_Hello \<lparr>hello_peer_id = PeerId 1, hello_peer_name = ''c'',
         hello_protocol_version = 7, hello_capabilities = capabilities_full\<rparr>),
       sw_welcome = Ok (), sw_remote = ''10.0.0.9:24800'', sw_channel = 0\<rparr>
   in fst (snd out) = [M_Error 1 ''version mismatch''] \<and> snd (snd out) = []"
proof -
  let ?w = "\<lparr>sw_accept_bi = Ok (), sw_first = Ok (M_Hello \<lparr>hello_peer_id = PeerId 1,
     hello_peer_name = ''c'', hello_protocol_version = 7, hello_capabilities = capabilities_full\<rparr>),
     sw_welcome = Ok (), sw_remote = ''10.0.0.9:24800'', sw_channel = 0\<rparr>"
  let ?out = "handle_connection demo_server ?w"
  show ?thesis
    using server_accepts_iff [of demo_server ?w "fst ?out" "fst (snd ?out)" "snd (snd ?out)"]
    by (simp add: PROTOCOL_VERSION_def Let_def)
qed

text \<open>
  The identity of a machine survives restarts: once a certificate was generated or loaded, every
  later start that can read the two files yields the same bundle and changes nothing, and a peer
  that pinned the printed fingerprint accepts that certificate.
\<close>

theorem certificate_persists:
  assumes "load_or_generate blake3 hex w d = (Inr b, d')"
    and "is_ok (cw_create_dir w')" and "is_ok (cw_read_cert w')" and "is_ok (cw_read_key w')"
  shows "load_or_generate blake3 hex w' d' = (Inr b, d') \<and>
    verify_server_cert blake3 hex [cb_fingerprint_hex b] (hd (cb_cert_chain b)) = Ok ()"
  using assms
  by (auto simp: load_or_generate_def bundle_of_def verify_server_cert_def Let_def
      split: sum.splits option.splits prod.splits)

theorem certificate_persists_witness:
  "let w = \<lparr>cw_create_dir = Ok (), cw_read_cert = Ok (), cw_read_key = Ok (),
         cw_generate = Ok ([1], [2]), cw_write_cert = None, cw_write_key = None\<rparr>;
       first = load_or_generate (\<lambda>b. b) (\<lambda>_. ''ab'') w \<lparr>cd_cert = None, cd_key = None\<rparr>
   in load_or_generate (\<lambda>b. b) (\<lambda>_. ''ab'') (w\<lparr>cw_generate := Ok ([3], [4])\<rparr>) (snd first) = first"
proof -
  let ?w = "\<lparr>cw_create_dir = Ok (), cw_read_cert = Ok (), cw_read_key = Ok (),
     cw_generate = Ok ([1], [2]), cw_write_cert = None, cw_write_key = None\<rparr>"
  have "load_or_generate (\<lambda>b. b) (\<lambda>_. ''ab'') ?w \<lparr>cd_cert = None, cd_key = None\<rparr> =
      (Inr (bundle_of (\<lambda>b. b) (\<lambda>_. ''ab'') [1] [2]), \<lparr>cd_cert = Some [1], cd_key = Some [2]\<rparr>)"
    by (simp add: load_or_generate_def)
  from certificate_persists [OF this, of "?w\<lparr>cw_generate := Ok ([3], [4])\<rparr>"] this
  show ?thesis by (simp add: Let_def)
qed

theorem handshake_agrees_witness:
  "\<exists>hb wb.
     let ms = [client_hello demo_client, demo_welcome];
         sw = \<lparr>sw_accept_bi = Ok (), sw_first = fst (read_message ''eof'' (table_de ms) (hb @ [])),
               sw_welcome = Ok (), sw_remote = ''10.0.0.9:24800'', sw_channel = 5\<rparr>;
         kw = demo_client_world\<lparr>kw_reply := fst (read_message ''eof'' (table_de ms) (wb @ []))\<rparr>
     in message_bytes (table_ser ms) (client_hello demo_client) = Ok hb \<and>
        message_bytes (table_ser ms) demo_welcome = Ok wb \<and>
        snd (snd (handle_connection demo_server sw)) =
          [SrvConnected \<lparr>ph_peer_id = PeerId 1, ph_peer_name = ''c'',
             ph_remote_addr = Some ''10.0.0.9:24800'', ph_chan = 5\<rparr>,
           SrvDisconnected (PeerId 1)] \<and>
        snd (snd (connect_once (\<lambda>b. b) (\<lambda>_. ''ab'') demo_client kw)) =
          [CltConnected \<lparr>ph_peer_id = PeerId 2, ph_peer_name = ''s'',
             ph_remote_addr = Some ''10.0.0.9:24800'', ph_chan = 0\<rparr>,
           CltDisconnected (PeerId 2)]"
proof -
  let ?ms = "[client_hello demo_client, demo_welcome]"
  have ok: "wire_ok (table_ser ?ms) (table_de ?ms) (client_hello demo_client)"
    "wire_ok (table_ser ?ms) (table_de ?ms) demo_welcome"
    by (rule table_wire_ok; simp add: MAX_PAYLOAD_SIZE_def)+
  obtain hb where hb: "message_bytes (table_ser ?ms) (client_hello demo_client) = Ok hb"
    using stream.wr_sendable [OF ok(1)] by blast
  obtain wb where wb: "message_bytes (table_ser ?ms) demo_welcome = Ok wb"
    using stream.wr_sendable [OF ok(2)] by blast
  let ?sw = "\<lparr>sw_accept_bi = Ok (), sw_first = fst (read_message ''eof'' (table_de ?ms) (hb @ [])),
     sw_welcome = Ok (), sw_remote = ''10.0.0.9:24800'', sw_channel = 5\<rparr>"
  let ?kw = "demo_client_world\<lparr>kw_reply := fst (read_message ''eof'' (table_de ?ms) (wb @ []))\<rparr>"
  let ?h = "handle_connection demo_server ?sw"
  let ?c = "connect_once (\<lambda>b. b) (\<lambda>_. ''ab'') demo_client ?kw"
  have "fst (read_message ''eof'' (table_de ?ms) (hb @ [])) = Ok (client_hello demo_client)"
    using stream.rd_wr [OF ok(1) hb, of "''eof''" "[]"] by simp
  then have h: "?h = (fst ?h, [demo_welcome], snd (snd ?h))"
    by (simp add: handle_connection_def server_answer_def client_hello_def demo_welcome_def
        demo_server_def negotiate_inf full_top)
  have c: "?c = (fst ?c, fst (snd ?c), snd (snd ?c))" by simp
  have sw: "sw_accept_bi ?sw = Ok ()" "sw_first ?sw = fst (read_message ''eof'' (table_de ?ms) (hb @ []))"
    "sw_welcome ?sw = Ok ()" by simp_all
  have kw: "kw_tls ?kw = Ok ()" "kw_connect ?kw = Ok ()" "kw_handshake ?kw = Ok [1]"
    "kw_open_bi ?kw = Ok ()" "kw_hello ?kw = Ok ()"
    "kw_reply ?kw = fst (read_message ''eof'' (table_de ?ms) (wb @ []))"
    by (simp_all add: demo_client_world_def)
  have pin: "verify_server_cert (\<lambda>b. b) (\<lambda>_. ''ab'') (cc_trusted_fingerprints demo_client) [1] = Ok ()"
    by (simp add: demo_client_def demo_pin)
  have "snd (snd ?h) = [SrvConnected \<lparr>ph_peer_id = PeerId 1, ph_peer_name = ''c'',
             ph_remote_addr = Some ''10.0.0.9:24800'', ph_chan = 5\<rparr>,
       SrvDisconnected (PeerId 1)] \<and>
     snd (snd ?c) = [CltConnected \<lparr>ph_peer_id = PeerId 2, ph_peer_name = ''s'',
             ph_remote_addr = Some ''10.0.0.9:24800'', ph_chan = 0\<rparr>,
       CltDisconnected (PeerId 2)]"
    using handshake_agrees [OF ok(1) hb sw h ok(2) wb kw(1-3) pin kw(4-6) c]
    by (simp add: demo_client_world_def) (simp add: demo_client_def demo_server_def)
  with hb wb show ?thesis by (auto simp: Let_def)
qed

end
