(* ===== verification/ClientSupervisor.thy ===== *)
theory ClientSupervisor
  imports Handshake
begin

text \<open>
  The supervisor of the client's connection (\<open>ClientController\<close> in
  \<open>crates/network/src/client.rs\<close>) and the daemon's list of peers it feeds (the event loop of
  the client role in \<open>crates/daemon/src/app.rs\<close>). A step is what wakes the supervisor: a command,
  all controllers dropped, or progress of the one connection attempt it owns.
\<close>

section \<open>The supervisor\<close>

datatype ClientCommand = Dial ClientConfig | HangUp

text \<open>
  Waiting for a command, racing an attempt that has not been established yet, racing the peer loop
  of an established connection, or returned.
\<close>

datatype SupPhase =
    Waiting
  | Dialing ClientConfig
  | Established ClientConfig PeerHandle
  | Stopped

datatype SupInput =
    Command ClientCommand
  | Dropped
  | Accepted PeerHandle
  | Finished

text \<open>
  One turn: the next phase and the client events emitted. A command that arrives during an attempt
  drops it: \<open>connect_once\<close> emits its final event only at its very end, which is then never
  reached. A dial becomes the pending one, taken up at the top of the next pass.
\<close>

fun sup_step :: "SupPhase \<Rightarrow> SupInput \<Rightarrow> SupPhase \<times> ClientEvent list" where
  "sup_step Waiting (Command (Dial cfg)) = (Dialing cfg, [])"
| "sup_step Waiting (Command HangUp) = (Waiting, [])"
| "sup_step Waiting Dropped = (Stopped, [])"
| "sup_step (Dialing cfg) (Command (Dial cfg')) = (Dialing cfg', [])"
| "sup_step (Dialing cfg) (Command HangUp) = (Waiting, [])"
| "sup_step (Dialing cfg) Dropped = (Stopped, [])"
| "sup_step (Dialing cfg) (Accepted h) = (Established cfg h, [CltConnected h])"
| "sup_step (Dialing cfg) Finished = (Waiting, [])"
| "sup_step (Established cfg h) (Command (Dial cfg')) = (Dialing cfg', [])"
| "sup_step (Established cfg h) (Command HangUp) = (Waiting, [])"
| "sup_step (Established cfg h) Dropped = (Stopped, [])"
| "sup_step (Established cfg h) Finished = (Waiting, [CltDisconnected (ph_peer_id h)])"
| "sup_step ph _ = (ph, [])"

section \<open>The daemon's peers\<close>

record TrackedPeer =
  tp_peer_id :: PeerId
  tp_name :: string
  tp_remote_addr :: string
  tp_connected_at :: nat
  tp_last_rtt_ms :: u32

text \<open>The clock, here and in the state of the daemon, is a number of seconds.\<close>

definition track :: "nat \<Rightarrow> PeerHandle \<Rightarrow> TrackedPeer" where
  "track now h =
     \<lparr>tp_peer_id = ph_peer_id h, tp_name = ph_peer_name h,
      tp_remote_addr = (case ph_remote_addr h of None \<Rightarrow> [] | Some a \<Rightarrow> a),
      tp_connected_at = now, tp_last_rtt_ms = 0\<rparr>"

fun track_client_event :: "nat \<Rightarrow> TrackedPeer list \<Rightarrow> ClientEvent \<Rightarrow> TrackedPeer list" where
  "track_client_event now peers (CltConnected h) = peers @ [track now h]"
| "track_client_event now peers (CltDisconnected pid) = filter (\<lambda>p. tp_peer_id p \<noteq> pid) peers"

text \<open>A turn at a time, and a sequence of such turns.\<close>

definition client_turn ::
  "SupPhase \<times> TrackedPeer list \<Rightarrow> nat \<times> SupInput \<Rightarrow> SupPhase \<times> TrackedPeer list" where
  "client_turn s i =
     (case sup_step (fst s) (snd i) of
        (ph, evs) \<Rightarrow> (ph, foldl (track_client_event (fst i)) (snd s) evs))"

definition client_run ::
  "SupPhase \<times> TrackedPeer list \<Rightarrow> (nat \<times> SupInput) list \<Rightarrow> SupPhase \<times> TrackedPeer list" where
  "client_run s inputs = foldl client_turn s inputs"

lemma client_run_simps [simp]:
  "client_run s [] = s"
  "client_run s (i # inputs) = client_run (client_turn s i) inputs"
  "client_run s (xs @ ys) = client_run (client_run s xs) ys"
  by (simp_all add: client_run_def)

section \<open>Facts\<close>

text \<open>The peer the supervisor is connected to right now, and a list that shows such peers.\<close>

fun live_peers :: "SupPhase \<Rightarrow> PeerHandle list" where
  "live_peers (Established cfg h) = [h]"
| "live_peers _ = []"

definition shows_peers :: "TrackedPeer list \<Rightarrow> PeerHandle list \<Rightarrow> bool" where
  "shows_peers ps hs \<longleftrightarrow> list_all2 (\<lambda>p h. p = track (tp_connected_at p) h) ps hs"

lemma track_simps [simp]:
  "tp_peer_id (track t h) = ph_peer_id h" "tp_connected_at (track t h) = t" "tp_name (track t h) = ph_peer_name h"
  by (simp_all add: track_def)

lemma shows_peers_simps [simp]:
  "shows_peers ps [] \<longleftrightarrow> ps = []" "shows_peers [p] [h] \<longleftrightarrow> p = track (tp_connected_at p) h"
  by (simp_all add: shows_peers_def)

lemma shows_one: "shows_peers ps [h] \<Longrightarrow> ps = [track (tp_connected_at (hd ps)) h]"
  by (cases ps) (auto simp: shows_peers_def)

text \<open>Runs in which no command and no drop cuts an established connection short.\<close>

fun undisturbed :: "SupPhase \<Rightarrow> SupInput list \<Rightarrow> bool" where
  "undisturbed ph [] \<longleftrightarrow> True"
| "undisturbed ph (i # is) \<longleftrightarrow>
     (live_peers ph \<noteq> [] \<longrightarrow> i = Finished \<or> (\<exists>h. i = Accepted h)) \<and> undisturbed (fst (sup_step ph i)) is"

lemma client_turn_live:
  assumes "live_peers ph \<noteq> [] \<longrightarrow> i = Finished \<or> (\<exists>h. i = Accepted h)" and "shows_peers ps (live_peers ph)"
  shows "fst (client_turn (ph, ps) (t, i)) = fst (sup_step ph i) \<and>
    shows_peers (snd (client_turn (ph, ps) (t, i))) (live_peers (fst (sup_step ph i)))"
proof (cases "\<exists>cfg h. ph = Established cfg h")
  case True
  then obtain cfg h where ph: "ph = Established cfg h" by blast
  with assms(2) have ps: "ps = [track (tp_connected_at (hd ps)) h]" by (simp add: shows_one)
  have "tp_peer_id (hd ps) = ph_peer_id h" by (subst ps) simp
  with assms(1) ph show ?thesis by (subst (1 2) ps) (auto simp: client_turn_def)
next
  case False
  with assms(2) have "ps = []" by (cases ph) simp_all
  with False show ?thesis
    by (cases ph; cases i; simp add: client_turn_def; (rename_tac cmd, case_tac cmd; simp)?)
qed

lemma client_turn_keeps:
  assumes "p \<in> set (snd s)" and "\<And>h cfg. fst s = Established cfg h \<Longrightarrow> snd i = Finished \<Longrightarrow> ph_peer_id h \<noteq> tp_peer_id p"
  shows "p \<in> set (snd (client_turn s i))"
  using assms by (cases "(fst s, snd i)" rule: sup_step.cases) (auto simp: client_turn_def)

section \<open>Properties\<close>

text \<open>
  C38: As long as no command interrupts an established connection the daemon's list of peers is
  exact: it holds the one peer the supervisor is connected to while it is connected, and nothing
  otherwise; in particular the list never shows two.
\<close>

theorem tracked_peers_exact:
  assumes "undisturbed Waiting (map snd inputs)" and "client_run (Waiting, []) inputs = (ph, peers)"
  shows "shows_peers peers (live_peers ph) \<and> length peers \<le> 1"
proof -
  have "client_run (ph0, ps) inputs = (ph, peers) \<Longrightarrow> undisturbed ph0 (map snd inputs) \<Longrightarrow>
      shows_peers ps (live_peers ph0) \<Longrightarrow> shows_peers peers (live_peers ph)" for ph0 ps
  proof (induction inputs arbitrary: ph0 ps)
    case (Cons i rest)
    obtain t j where i: "i = (t, j)" by (cases i)
    obtain ph1 ps1 where turn: "client_turn (ph0, ps) i = (ph1, ps1)" by (cases "client_turn (ph0, ps) i")
    with client_turn_live [of ph0 j ps t] Cons.prems i
    have "ph1 = fst (sup_step ph0 j)" "shows_peers ps1 (live_peers ph1)" by simp_all
    with Cons.IH [of ph1 ps1] Cons.prems turn i show ?case by simp
  qed simp
  from this [of Waiting "[]"] assms have shown: "shows_peers peers (live_peers ph)" by simp
  then have "length peers = length (live_peers ph)" by (simp add: shows_peers_def list_all2_lengthD)
  with shown show ?thesis by (cases ph) simp_all
qed

theorem tracked_peers_exact_witness:
  "snd (client_run (Waiting, []) [(0, Command (Dial \<lparr>cc_server_addr = ''10.0.0.1:24800'',
       cc_local_peer_id = PeerId 1, cc_local_peer_name = ''c'', cc_trusted_fingerprints = [],
       cc_heartbeat_interval_ms = 2000\<rparr>)),
     (1, Accepted \<lparr>ph_peer_id = PeerId 2, ph_peer_name = ''s'', ph_remote_addr = None, ph_chan = 0\<rparr>),
     (5, Finished)]) = []"
proof -
  let ?is = "[(0, Command (Dial \<lparr>cc_server_addr = ''10.0.0.1:24800'', cc_local_peer_id = PeerId 1,
       cc_local_peer_name = ''c'', cc_trusted_fingerprints = [], cc_heartbeat_interval_ms = 2000\<rparr>)),
     (1, Accepted \<lparr>ph_peer_id = PeerId 2, ph_peer_name = ''s'', ph_remote_addr = None, ph_chan = 0\<rparr>),
     (5, Finished)]"
  have "undisturbed Waiting (map snd ?is)" by simp
  from tracked_peers_exact [OF this surjective_pairing] show ?thesis by (simp add: client_turn_def)
qed

text \<open>
  Hanging up does not disconnect a peer: the connection attempt is dropped before it can report
  its end, so no event is emitted, and the daemon lists the peer as connected from then on - until
  another connection to a peer of the same id has been established and has ended.
\<close>

theorem hang_up_keeps_peer:
  assumes "client_turn (Established cfg h, peers) (t, Command HangUp) = s"
    and "track t0 h \<in> set peers"
    and "\<And>xs u cfg' h' ys. later = xs @ (u, Finished) # ys \<Longrightarrow> fst (client_run s xs) = Established cfg' h' \<Longrightarrow>
      ph_peer_id h' \<noteq> ph_peer_id h"
  shows "fst s = Waiting \<and> track t0 h \<in> set (snd (client_run s later))"
proof -
  have s: "s = (Waiting, peers)" using assms(1) by (simp add: client_turn_def)
  have "track t0 h \<in> set (snd (client_run s later))"
    using assms(3)
  proof (induction later rule: rev_induct)
    case Nil
    then show ?case using assms(2) s by simp
  next
    case (snoc i later)
    have "track t0 h \<in> set (snd (client_run s later))"
      using snoc by (metis append.assoc append_Cons)
    moreover have "ph_peer_id h' \<noteq> tp_peer_id (track t0 h)"
      if "fst (client_run s later) = Established cfg' h'" "snd i = Finished" for cfg' h'
      using snoc.prems [of later "fst i" "[]"] that by (cases i) simp
    ultimately show ?case by (auto intro: client_turn_keeps)
  qed
  then show ?thesis using s by simp
qed

theorem hang_up_keeps_peer_witness:
  "let h = \<lparr>ph_peer_id = PeerId 2, ph_peer_name = ''s'', ph_remote_addr = None, ph_chan = 0\<rparr>;
       cfg = \<lparr>cc_server_addr = ''10.0.0.1:24800'', cc_local_peer_id = PeerId 1,
         cc_local_peer_name = ''c'', cc_trusted_fingerprints = [], cc_heartbeat_interval_ms = 2000\<rparr>
   in track 1 h \<in> set (snd (client_run (Waiting, [])
        [(0, Command (Dial cfg)), (1, Accepted h), (2, Command HangUp), (3, Command HangUp)]))"
proof -
  let ?h = "\<lparr>ph_peer_id = PeerId 2, ph_peer_name = ''s'', ph_remote_addr = None, ph_chan = 0\<rparr>"
  let ?cfg = "\<lparr>cc_server_addr = ''10.0.0.1:24800'', cc_local_peer_id = PeerId 1,
     cc_local_peer_name = ''c'', cc_trusted_fingerprints = [], cc_heartbeat_interval_ms = 2000\<rparr>"
  have "track 1 ?h \<in> set (snd (client_run (client_turn (Established ?cfg ?h, [track 1 ?h]) (2, Command HangUp))
      [(3, Command HangUp)]))"
    by (rule conjunct2 [OF hang_up_keeps_peer [OF refl]]) (simp_all add: Cons_eq_append_conv)
  then show ?thesis by (simp add: client_turn_def)
qed

end
