(* ===== verification/DaemonControl.thy ===== *)
theory DaemonControl
  imports ClientSupervisor StdText
begin

text \<open>
  The daemon's shared state and the requests that drive it: \<open>DaemonState\<close>, \<open>start_server\<close> and
  \<open>stop_server\<close> of \<open>crates/daemon/src/app.rs\<close>, the request types of \<open>crates/ipc/src/lib.rs\<close>
  and \<open>handle_request\<close> and \<open>handle_connect\<close> of \<open>crates/daemon/src/ipc_server.rs\<close>. Socket
  addresses are in display form; the clock is a number of seconds.
\<close>

section \<open>Requests and responses\<close>

datatype IpcRequest =
    GetStatus
  | GetConfig
  | UpdateConfig Config
  | Connect string "string option"
  | Disconnect string
  | StartServer
  | StopServer
  | EmergencyStop
  | SubscribeEvents
  | GetLogs u32
  | Shutdown

record PeerSummary =
  ps_peer_id :: PeerId
  ps_name :: string
  ps_remote_addr :: string
  ps_connected_secs :: nat
  ps_last_rtt_ms :: u32

record StatusReply =
  sr_version :: string
  sr_uptime_secs :: nat
  sr_role :: string
  sr_local_fingerprint :: string
  sr_connected_peers :: "PeerSummary list"
  sr_capturing :: bool
  sr_listening :: bool
  sr_listen_addr :: "string option"

datatype IpcResponse =
    Status StatusReply
  | ConfigReply Config
  | OkReply
  | Logs "string list"
  | ErrorReply string

section \<open>The daemon's state\<close>

text \<open>
  A server controller is named by the number of its endpoint. The factory of the server role is
  its configuration.
\<close>

record DaemonState =
  ds_config :: Config
  ds_started :: nat
  ds_capturing :: bool
  ds_fingerprint :: string
  ds_peers :: "TrackedPeer list"
  ds_client_controller :: bool
  ds_client_base :: "ClientConfig option"
  ds_server_controller :: "nat option"
  ds_listening :: bool
  ds_listen_addr :: "string option"
  ds_server_factory :: "ServerConfig option"

text \<open>What a request makes the daemon do besides changing its state.\<close>

datatype daemon_effect =
    DialEffect ClientConfig
  | HangUpEffect
  | SpawnServerSession nat
  | CloseEndpoint nat
  | AbortTasks nat
  | ExitProcess

text \<open>The state at start, by role; a client with a configured address dials at once.\<close>

definition client_base :: "Config \<Rightarrow> PeerId \<Rightarrow> ClientConfig" where
  "client_base c me =
     \<lparr>cc_server_addr =
        (case nc_connect (cfg_network c) of Some a \<Rightarrow> a | None \<Rightarrow> ''0.0.0.0:0''),
      cc_local_peer_id = me, cc_local_peer_name = cfg_peer_name c,
      cc_trusted_fingerprints = nc_trusted_fingerprints (cfg_network c),
      cc_heartbeat_interval_ms = nc_heartbeat_interval_ms (cfg_network c)\<rparr>"

definition initial_state :: "Config \<Rightarrow> CertBundle \<Rightarrow> nat \<Rightarrow> DaemonState" where
  "initial_state c cert now =
     \<lparr>ds_config = c, ds_started = now, ds_capturing = False,
      ds_fingerprint = cb_fingerprint_hex cert, ds_peers = [],
      ds_client_controller = False, ds_client_base = None, ds_server_controller = None,
      ds_listening = False, ds_listen_addr = None, ds_server_factory = None\<rparr>"

definition daemon_start ::
  "Config \<Rightarrow> PeerId \<Rightarrow> CertBundle \<Rightarrow> nat \<Rightarrow> DaemonState \<times> daemon_effect list" where
  "daemon_start c me cert now =
     (case cfg_role c of
        RoleServer \<Rightarrow>
          ((initial_state c cert now)\<lparr>ds_server_factory :=
               Some \<lparr>sc_listen = nc_listen (cfg_network c), sc_local_peer_id = me,
                     sc_local_peer_name = cfg_peer_name c, sc_cert = cert\<rparr>\<rparr>, [])
      | RoleClient \<Rightarrow>
          ((initial_state c cert now)\<lparr>ds_client_controller := True,
                                     ds_client_base := Some (client_base c me)\<rparr>,
           case nc_connect (cfg_network c) of
             None \<Rightarrow> []
           | Some a \<Rightarrow> [DialEffect ((client_base c me)\<lparr>cc_server_addr := a\<rparr>)]))"

section \<open>Starting and stopping the server\<close>

text \<open>
  \<open>start_server\<close> in its three parts: the check under the read lock, binding the endpoint (the
  result is its number and local address), and the commit under the write lock.
\<close>

definition start_check :: "DaemonState \<Rightarrow> string + ServerConfig" where
  "start_check s =
     (if ds_server_controller s \<noteq> None then Err ''server is already running''
      else ok_or ''daemon is not running as a server'' (ds_server_factory s))"

definition start_commit :: "nat \<Rightarrow> string option \<Rightarrow> DaemonState \<Rightarrow> DaemonState" where
  "start_commit ep addr s =
     s\<lparr>ds_server_controller := Some ep, ds_listening := True, ds_capturing := True,
       ds_listen_addr := addr\<rparr>"

definition start_server ::
  "(string + nat \<times> string option) \<Rightarrow> DaemonState \<Rightarrow>
   (string + unit) \<times> DaemonState \<times> daemon_effect list" where
  "start_server bind s =
     (case start_check s of
        Inl e \<Rightarrow> (Err e, s, [])
      | Inr _ \<Rightarrow>
          (case bind of
             Inl e \<Rightarrow> (Err (''bind quic server: '' @ e), s, [])
           | Inr (ep, addr) \<Rightarrow> (Ok (), start_commit ep addr s, [SpawnServerSession ep])))"

text \<open>\<open>stop_server\<close>: the change under the write lock, then the teardown of the controller it took.\<close>

definition stop_clear :: "DaemonState \<Rightarrow> nat option \<times> DaemonState" where
  "stop_clear s =
     (ds_server_controller s,
      s\<lparr>ds_listening := False, ds_capturing := False, ds_listen_addr := None, ds_peers := [],
        ds_server_controller := None\<rparr>)"

definition controller_stop :: "nat \<Rightarrow> daemon_effect list" where
  [simp]: "controller_stop ep = [CloseEndpoint ep, AbortTasks ep]"

definition stop_server :: "DaemonState \<Rightarrow> (string + unit) \<times> DaemonState \<times> daemon_effect list" where
  "stop_server s =
     (case stop_clear s of
        (None, s') \<Rightarrow> (Ok (), s', [])
      | (Some ep, s') \<Rightarrow> (Ok (), s', controller_stop ep))"

text \<open>The fan-out of server events to the list of peers.\<close>

fun track_server_event :: "nat \<Rightarrow> DaemonState \<Rightarrow> ServerEvent \<Rightarrow> DaemonState" where
  "track_server_event now s (SrvConnected h) = s\<lparr>ds_peers := ds_peers s @ [track now h]\<rparr>"
| "track_server_event now s (SrvDisconnected pid) =
     s\<lparr>ds_peers := filter (\<lambda>p. tp_peer_id p \<noteq> pid) (ds_peers s)\<rparr>"

section \<open>Requests\<close>

text \<open>Parsing an address, and resolving a name when that fails.\<close>

record Resolver =
  rs_from_str :: "string \<Rightarrow> string option"
  rs_resolve :: "string \<Rightarrow> string + string"

definition target_of :: "Resolver \<Rightarrow> string \<Rightarrow> string + string" where
  "target_of rs a = (case rs_from_str rs a of Some t \<Rightarrow> Ok t | None \<Rightarrow> rs_resolve rs a)"

definition handle_connect ::
  "Resolver \<Rightarrow> string \<Rightarrow> string option \<Rightarrow> DaemonState \<Rightarrow> IpcResponse \<times> daemon_effect list" where
  "handle_connect rs a fingerprint s =
     (case target_of rs a of
        Inl e \<Rightarrow> (ErrorReply (''invalid address '' @ [CHR 0x27] @ a @ [CHR 0x27] @ '': '' @ e), [])
      | Inr target \<Rightarrow>
          (case (ds_client_controller s, ds_client_base s) of
             (True, Some cfg) \<Rightarrow>
               (let cfg1 = cfg\<lparr>cc_server_addr := target\<rparr>;
                    cfg2 = (case fingerprint of
                              None \<Rightarrow> cfg1
                            | Some fp \<Rightarrow>
                                if trim fp = [] then cfg1
                                else cfg1\<lparr>cc_trusted_fingerprints := [trim fp]\<rparr>)
                in (OkReply, [DialEffect cfg2]))
           | _ \<Rightarrow> (ErrorReply ''daemon is not running as a client; cannot connect'', [])))"

fun role_name :: "ServerRole \<Rightarrow> string" where
  "role_name RoleServer = ''server''"
| "role_name RoleClient = ''client''"

definition peer_summary :: "nat \<Rightarrow> TrackedPeer \<Rightarrow> PeerSummary" where
  "peer_summary now p =
     \<lparr>ps_peer_id = tp_peer_id p, ps_name = tp_name p, ps_remote_addr = tp_remote_addr p,
      ps_connected_secs = now - tp_connected_at p, ps_last_rtt_ms = tp_last_rtt_ms p\<rparr>"

definition status_of :: "string \<Rightarrow> nat \<Rightarrow> DaemonState \<Rightarrow> StatusReply" where
  "status_of version now s =
     \<lparr>sr_version = version, sr_uptime_secs = now - ds_started s,
      sr_role = role_name (cfg_role (ds_config s)), sr_local_fingerprint = ds_fingerprint s,
      sr_connected_peers = map (peer_summary now) (ds_peers s),
      sr_capturing = ds_capturing s, sr_listening = ds_listening s,
      sr_listen_addr = ds_listen_addr s\<rparr>"

definition reply_of :: "string + unit \<Rightarrow> IpcResponse" where
  "reply_of r = (case r of Inl e \<Rightarrow> ErrorReply e | Inr _ \<Rightarrow> OkReply)"

record RequestWorld =
  rw_version :: string
  rw_now :: nat
  rw_resolver :: Resolver
  rw_bind :: "string + nat \<times> string option"

text \<open>A request; there is no response when the process exits.\<close>

fun handle_request ::
  "RequestWorld \<Rightarrow> IpcRequest \<Rightarrow> DaemonState \<Rightarrow> IpcResponse option \<times> DaemonState \<times> daemon_effect list" where
  "handle_request w GetStatus s = (Some (Status (status_of (rw_version w) (rw_now w) s)), s, [])"
| "handle_request w GetConfig s = (Some (ConfigReply (ds_config s)), s, [])"
| "handle_request w (UpdateConfig c) s = (Some OkReply, s\<lparr>ds_config := c\<rparr>, [])"
| "handle_request w (Connect a fp) s =
     (case handle_connect (rw_resolver w) a fp s of (r, effs) \<Rightarrow> (Some r, s, effs))"
| "handle_request w (Disconnect peer) s =
     (if ds_client_controller s then (Some OkReply, s, [HangUpEffect])
      else (Some (ErrorReply ''not running as a client; nothing to disconnect''), s, []))"
| "handle_request w StartServer s =
     (case start_server (rw_bind w) s of (r, s', effs) \<Rightarrow> (Some (reply_of r), s', effs))"
| "handle_request w StopServer s =
     (case stop_server s of (r, s', effs) \<Rightarrow> (Some (reply_of r), s', effs))"
| "handle_request w EmergencyStop s = (Some OkReply, s\<lparr>ds_capturing := False\<rparr>, [])"
| "handle_request w SubscribeEvents s = (Some (ErrorReply ''event streaming not yet implemented''), s, [])"
| "handle_request w (GetLogs n) s = (Some (Logs []), s, [])"
| "handle_request w Shutdown s = (None, s, [ExitProcess])"

section \<open>The tasks of the daemon\<close>

text \<open>
  Requests of several IPC connections and the fan-out tasks interleave. A step is what happens
  under one lock: the check of a start, its commit, the first half of a stop, its teardown, the
  handling of an event by a fan-out that is still alive, or any other request as a whole.
\<close>

record Daemon =
  dm_state :: DaemonState
  dm_checked :: nat
  dm_bound :: "(nat \<times> string option) list"
  dm_fanouts :: "nat set"
  dm_stopping :: "nat list"

definition daemon_idle :: "DaemonState \<Rightarrow> Daemon" where
  "daemon_idle s =
     \<lparr>dm_state = s, dm_checked = 0, dm_bound = [], dm_fanouts = {}, dm_stopping = []\<rparr>"

inductive daemon_step :: "Daemon \<Rightarrow> Daemon \<Rightarrow> bool" where
  check: "start_check (dm_state d) = Inr f \<Longrightarrow> daemon_step d (d\<lparr>dm_checked := Suc (dm_checked d)\<rparr>)"
| bind_failed: "dm_checked d = Suc n \<Longrightarrow> daemon_step d (d\<lparr>dm_checked := n\<rparr>)"
| bound: "dm_checked d = Suc n \<Longrightarrow> ep \<notin> dm_fanouts d \<Longrightarrow>
    daemon_step d (d\<lparr>dm_checked := n, dm_bound := (ep, addr) # dm_bound d,
                     dm_fanouts := insert ep (dm_fanouts d)\<rparr>)"
| commit: "(ep, addr) \<in> set (dm_bound d) \<Longrightarrow>
    daemon_step d (d\<lparr>dm_bound := remove1 (ep, addr) (dm_bound d),
                     dm_state := start_commit ep addr (dm_state d)\<rparr>)"
| stop: "stop_clear (dm_state d) = (c, s') \<Longrightarrow>
    daemon_step d (d\<lparr>dm_state := s', dm_stopping := (case c of None \<Rightarrow> [] | Some ep \<Rightarrow> [ep]) @ dm_stopping d\<rparr>)"
| teardown: "ep \<in> set (dm_stopping d) \<Longrightarrow>
    daemon_step d (d\<lparr>dm_stopping := remove1 ep (dm_stopping d), dm_fanouts := dm_fanouts d - {ep}\<rparr>)"
| fanout: "ep \<in> dm_fanouts d \<Longrightarrow>
    daemon_step d (d\<lparr>dm_state := track_server_event now (dm_state d) ev\<rparr>)"
| request: "req \<noteq> StartServer \<Longrightarrow> req \<noteq> StopServer \<Longrightarrow>
    handle_request w req (dm_state d) = (resp, s', effs) \<Longrightarrow> daemon_step d (d\<lparr>dm_state := s'\<rparr>)"

inductive_cases daemon_stepE: "daemon_step d d'"

text \<open>
  What the status promises: listening means that there is a controller, an address is shown and
  capture is on only while listening, and only a server listens.
\<close>

definition state_ok :: "DaemonState \<Rightarrow> bool" where
  "state_ok s \<longleftrightarrow>
     (ds_listening s \<longleftrightarrow> ds_server_controller s \<noteq> None) \<and>
     (ds_listen_addr s \<noteq> None \<longrightarrow> ds_listening s) \<and> (ds_capturing s \<longrightarrow> ds_listening s) \<and>
     (ds_listening s \<longrightarrow> ds_server_factory s \<noteq> None) \<and>
     (ds_client_controller s \<longleftrightarrow> ds_server_factory s = None)"

definition daemon_inv :: "Daemon \<Rightarrow> bool" where
  "daemon_inv d \<longleftrightarrow>
     state_ok (dm_state d) \<and>
     (ds_server_factory (dm_state d) = None \<longrightarrow>
        dm_checked d = 0 \<and> dm_bound d = [] \<and> dm_fanouts d = {})"

definition daemon_init :: "Daemon \<Rightarrow> bool" where
  "daemon_init d \<longleftrightarrow> (\<exists>c me cert now. d = daemon_idle (fst (daemon_start c me cert now)))"

lemma request_frame:
  assumes "handle_request w req s = (resp, s', effs)" and "req \<noteq> StartServer" and "req \<noteq> StopServer"
  shows "ds_server_controller s' = ds_server_controller s" and "ds_listening s' = ds_listening s"
    and "ds_listen_addr s' = ds_listen_addr s" and "ds_server_factory s' = ds_server_factory s"
    and "ds_client_controller s' = ds_client_controller s" and "ds_capturing s' \<longrightarrow> ds_capturing s"
  using assms by (cases req; auto split: prod.splits if_splits)+

lemma track_server_event_frame [simp]:
  "ds_server_controller (track_server_event now s ev) = ds_server_controller s"
  "ds_listening (track_server_event now s ev) = ds_listening s"
  "ds_listen_addr (track_server_event now s ev) = ds_listen_addr s"
  "ds_server_factory (track_server_event now s ev) = ds_server_factory s"
  "ds_client_controller (track_server_event now s ev) = ds_client_controller s"
  "ds_capturing (track_server_event now s ev) = ds_capturing s"
  by (cases ev; simp)+

lemma state_ok_request:
  assumes "state_ok s" and "handle_request w req s = (resp, s', effs)"
    and "req \<noteq> StartServer" and "req \<noteq> StopServer"
  shows "state_ok s'"
  using assms(1) request_frame [OF assms(2-4)] by (auto simp: state_ok_def)

lemma state_ok_stop:
  assumes "state_ok s" and "stop_clear s = (c, s')"
  shows "state_ok s'" and "ds_server_factory s' = ds_server_factory s"
proof -
  have s': "s' = snd (stop_clear s)" by (simp add: assms(2))
  show "state_ok s'" "ds_server_factory s' = ds_server_factory s"
    using assms(1) by (simp_all add: s' stop_clear_def state_ok_def)
qed

lemma daemon_inv_step: "daemon_inv d \<Longrightarrow> daemon_step d d' \<Longrightarrow> daemon_inv d'"
proof (erule daemon_stepE)
  assume inv: "daemon_inv d"
  {
    fix f assume "start_check (dm_state d) = Inr f" "d' = d\<lparr>dm_checked := Suc (dm_checked d)\<rparr>"
    with inv show ?thesis by (auto simp: daemon_inv_def start_check_def split: if_splits)
  next
    fix n assume "dm_checked d = Suc n" "d' = d\<lparr>dm_checked := n\<rparr>"
    with inv show ?thesis by (auto simp: daemon_inv_def)
  next
    fix n ep addr
    assume "dm_checked d = Suc n" "d' = d\<lparr>dm_checked := n, dm_bound := (ep, addr) # dm_bound d,
      dm_fanouts := insert ep (dm_fanouts d)\<rparr>"
    with inv show ?thesis by (auto simp: daemon_inv_def)
  next
    fix ep addr
    assume "(ep, addr) \<in> set (dm_bound d)" "d' = d\<lparr>dm_bound := remove1 (ep, addr) (dm_bound d),
      dm_state := start_commit ep addr (dm_state d)\<rparr>"
    with inv show ?thesis by (auto simp: daemon_inv_def start_commit_def state_ok_def)
  next
    fix c s'
    assume "stop_clear (dm_state d) = (c, s')" "d' = d\<lparr>dm_state := s',
      dm_stopping := (case c of None \<Rightarrow> [] | Some ep \<Rightarrow> [ep]) @ dm_stopping d\<rparr>"
    then show ?thesis using inv state_ok_stop [of "dm_state d" c s'] by (simp add: daemon_inv_def)
  next
    fix ep
    assume "d' = d\<lparr>dm_stopping := remove1 ep (dm_stopping d), dm_fanouts := dm_fanouts d - {ep}\<rparr>"
    with inv show ?thesis by (auto simp: daemon_inv_def)
  next
    fix ep ev now
    assume "d' = d\<lparr>dm_state := track_server_event now (dm_state d) ev\<rparr>"
    with inv show ?thesis by (auto simp: daemon_inv_def state_ok_def)
  next
    fix req w resp s' effs
    assume "req \<noteq> StartServer" "req \<noteq> StopServer"
      "handle_request w req (dm_state d) = (resp, s', effs)" "d' = d\<lparr>dm_state := s'\<rparr>"
    then show ?thesis
      using inv state_ok_request [of "dm_state d" w req resp s' effs]
        request_frame(4) [of w req "dm_state d" resp s' effs]
      by (simp add: daemon_inv_def)
  }
qed

interpretation daemon: invariant_system daemon_init daemon_step daemon_inv
proof
  fix d assume "daemon_init d"
  then obtain c me cert now where d: "d = daemon_idle (fst (daemon_start c me cert now))"
    by (auto simp: daemon_init_def)
  show "daemon_inv d"
    by (cases "cfg_role c")
      (simp_all add: d daemon_inv_def daemon_idle_def daemon_start_def initial_state_def
        state_ok_def)
qed (rule daemon_inv_step)

section \<open>Properties\<close>

definition idle_server :: DaemonState where
  "idle_server = fst (daemon_start (config_default Map.empty) (PeerId 1)
     \<lparr>cb_cert_chain = [], cb_key = [], cb_fingerprint_hex = ''ab''\<rparr> 0)"

definition idle_client :: DaemonState where
  "idle_client = fst (daemon_start ((config_default Map.empty)\<lparr>cfg_role := RoleClient\<rparr>) (PeerId 1)
     \<lparr>cb_cert_chain = [], cb_key = [], cb_fingerprint_hex = ''ab''\<rparr> 0)"

definition quiet_world :: RequestWorld where
  "quiet_world = \<lparr>rw_version = ''0.1.0'', rw_now = 5,
     rw_resolver = \<lparr>rs_from_str = Some, rs_resolve = Err\<rparr>, rw_bind = Ok (0, Some ''0.0.0.0:24800'')\<rparr>"

lemma idle_server_fields:
  "ds_server_controller idle_server = None" "ds_listening idle_server = False"
  "ds_capturing idle_server = False" "ds_listen_addr idle_server = None" "ds_peers idle_server = []"
  "ds_server_factory idle_server = Some \<lparr>sc_listen = ''0.0.0.0:24800'', sc_local_peer_id = PeerId 1,
      sc_local_peer_name = ''unknown'', sc_cert = \<lparr>cb_cert_chain = [], cb_key = [], cb_fingerprint_hex = ''ab''\<rparr>\<rparr>"
  by (simp_all add: idle_server_def daemon_start_def initial_state_def config_default_def network_default_def
      hostname_or_unknown_def)

lemma daemon_init_idle_server: "daemon_init (daemon_idle idle_server)"
  by (auto simp: daemon_init_def idle_server_def)

lemma daemon_step_factory:
  "daemon_step d d' \<Longrightarrow> ds_server_factory (dm_state d') = ds_server_factory (dm_state d)"
proof (induction rule: daemon_step.induct)
  case (stop d c s')
  then have "s' = snd (stop_clear (dm_state d))" by simp
  then show ?case by (simp add: stop_clear_def)
next
  case (request req w d resp s' effs)
  then show ?case using request_frame(4) by simp
qed (simp_all add: start_commit_def)

text \<open>
  C23: The status the daemon reports is consistent in every reachable state, however requests of
  several clients interleave with each other and with peer events: it says listening exactly when
  there is a running server to stop, shows an address and claims to capture only while listening, and
  a daemon that was started in the client role never listens. (The role that is reported is that of
  the configuration, which a request can replace at any time: see below.)
\<close>

theorem status_consistent:
  assumes "daemon_step\<^sup>*\<^sup>* (daemon_idle (fst (daemon_start c me cert t0))) d"
    and "status_of version now (dm_state d) = st"
  shows "(sr_listening st \<longleftrightarrow> ds_server_controller (dm_state d) \<noteq> None) \<and>
    (sr_capturing st \<longrightarrow> sr_listening st) \<and> (sr_listen_addr st \<noteq> None \<longrightarrow> sr_listening st) \<and>
    (ds_client_controller (dm_state d) \<longrightarrow> \<not> sr_listening st) \<and>
    (cfg_role c = RoleClient \<longrightarrow> \<not> sr_listening st)"
proof -
  have "daemon_init (daemon_idle (fst (daemon_start c me cert t0)))" by (auto simp: daemon_init_def)
  then have ok: "state_ok (dm_state d)"
    using daemon.inv_reachable [OF _ assms(1)] by (simp add: daemon_inv_def)
  have "ds_server_factory (dm_state d) = ds_server_factory (fst (daemon_start c me cert t0))"
    using assms(1) by (induction rule: rtranclp_induct) (simp_all add: daemon_step_factory daemon_idle_def)
  then have "ds_server_factory (dm_state d) = None" if "cfg_role c = RoleClient"
    using that by (simp add: daemon_start_def initial_state_def)
  with ok assms(2) show ?thesis by (auto simp: state_ok_def status_of_def)
qed

theorem status_consistent_witness:
  "let d = (daemon_idle idle_server)\<lparr>dm_checked := 1\<rparr>
   in \<not> sr_listening (status_of ''0.1.0'' 5 (dm_state d)) \<and> ds_server_controller (dm_state d) = None"
proof -
  let ?d0 = "daemon_idle idle_server"
  have "daemon_step ?d0 (?d0\<lparr>dm_checked := 1\<rparr>)"
    using daemon_step.check [of ?d0] idle_server_fields by (simp add: start_check_def daemon_idle_def)
  then have "daemon_step\<^sup>*\<^sup>* ?d0 (?d0\<lparr>dm_checked := 1\<rparr>)" by (rule r_into_rtranclp)
  from status_consistent [OF this [unfolded idle_server_def] refl, of "''0.1.0''" 5, folded idle_server_def]
  show ?thesis by (simp add: daemon_idle_def idle_server_fields)
qed

text \<open>
  The reported role can be wrong: a request that replaces the configuration of a listening server by one
  with the client role is answered Ok, and from then on the status says that a client listens.
\<close>

theorem updated_role_misreported:
  assumes "handle_request w StartServer s = (Some OkReply, s1, effs)" and "cfg_role c = RoleClient"
    and "handle_request w' (UpdateConfig c) s1 = (resp, s2, effs')"
  shows "resp = Some OkReply \<and> effs' = [] \<and> sr_role (status_of v now s2) = ''client'' \<and>
    sr_listening (status_of v now s2) \<and> sr_capturing (status_of v now s2)"
proof -
  have "ds_listening s1 \<and> ds_capturing s1"
    using assms(1) by (auto simp: start_server_def start_commit_def reply_of_def split: sum.splits)
  moreover have "s2 = s1\<lparr>ds_config := c\<rparr>" "resp = Some OkReply" "effs' = []" using assms(3) by simp_all
  ultimately show ?thesis by (simp add: status_of_def assms(2))
qed

text \<open>
  Run and Stop: on an idle server whose endpoint binds, Run answers Ok, spawns the session once
  and reports listening at the bound address; a second Run is refused and changes nothing; Stop
  closes exactly that endpoint and restores the state before Run; a further Stop is Ok and has no
  effect. A failed bind leaves the daemon idle.
\<close>

theorem run_stop_roundtrip:
  assumes "ds_server_controller s = None" and "ds_server_factory s = Some f"
    and "\<not> ds_listening s" and "\<not> ds_capturing s" and "ds_listen_addr s = None" and "ds_peers s = []"
    and "rw_bind w = Ok (ep, addr)"
    and "handle_request w StartServer s = (resp, s1, effs)"
  shows "resp = Some OkReply \<and> effs = [SpawnServerSession ep] \<and> ds_listening s1 \<and> ds_listen_addr s1 = addr \<and>
    handle_request w' StartServer s1 = (Some (ErrorReply ''server is already running''), s1, []) \<and>
    handle_request w' StopServer s1 = (Some OkReply, s, [CloseEndpoint ep, AbortTasks ep]) \<and>
    handle_request w' StopServer s = (Some OkReply, s, []) \<and>
    handle_request (w\<lparr>rw_bind := Err e\<rparr>) StartServer s =
      (Some (ErrorReply (''bind quic server: '' @ e)), s, [])"
proof -
  have s1: "resp = Some OkReply \<and> effs = [SpawnServerSession ep] \<and> s1 = start_commit ep addr s"
    using assms by (auto simp: start_server_def start_check_def reply_of_def)
  have "stop_clear s = (None, s)" "snd (stop_clear (start_commit ep addr s)) = s"
    using assms(1,3-6) by (auto simp: stop_clear_def start_commit_def intro: DaemonState.equality)
  then show ?thesis
    using s1 assms(1,2)
    by (auto simp: start_server_def start_check_def stop_server_def stop_clear_def reply_of_def
        start_commit_def)
qed

theorem run_stop_roundtrip_witness:
  "let s1 = fst (snd (handle_request quiet_world StartServer idle_server))
   in ds_listening s1 \<and> ds_listen_addr s1 = Some ''0.0.0.0:24800'' \<and>
      handle_request quiet_world StopServer s1 = (Some OkReply, idle_server, [CloseEndpoint 0, AbortTasks 0])"
proof -
  let ?h = "handle_request quiet_world StartServer idle_server"
  have "rw_bind quiet_world = Ok (0, Some ''0.0.0.0:24800'')" by (simp add: quiet_world_def)
  then show ?thesis
    using run_stop_roundtrip [of idle_server _ quiet_world 0 "Some ''0.0.0.0:24800''" "fst ?h"
        "fst (snd ?h)" "snd (snd ?h)" quiet_world] idle_server_fields
    by (simp add: Let_def)
qed

text \<open>
  C20: A fingerprint given to Connect is binding: when it is not blank, the dial that the request
  dispatches can only ever bring up a connection to a server whose certificate has exactly that
  fingerprint, letter case and surrounding blanks aside, whatever the configured pins are.
\<close>

theorem connect_pins_fingerprint:
  assumes "handle_request w (Connect a (Some fp)) s = (Some OkReply, s', effs)" and "trim fp \<noteq> []"
  shows "s' = s \<and> (\<exists>cfg target. effs = [DialEffect cfg] \<and> target_of (rw_resolver w) a = Ok target \<and>
    cc_server_addr cfg = target \<and>
    (\<forall>kw r msgs evs. connect_once blake3 hex cfg kw = (r, msgs, evs) \<longrightarrow> evs \<noteq> [] \<longrightarrow>
      (\<exists>cert. kw_handshake kw = Ok cert \<and>
        eq_ignore_ascii_case (trim fp) (hex (blake3 cert)))))"
proof -
  obtain target cfg0 where t: "target_of (rw_resolver w) a = Ok target" "s' = s"
    "effs = [DialEffect (cfg0\<lparr>cc_server_addr := target, cc_trusted_fingerprints := [trim fp]\<rparr>)]"
    using assms by (auto simp: handle_connect_def Let_def split: sum.splits bool.splits option.splits)
  let ?cfg = "cfg0\<lparr>cc_server_addr := target, cc_trusted_fingerprints := [trim fp]\<rparr>"
  have "\<exists>cert. kw_handshake kw = Ok cert \<and> eq_ignore_ascii_case (trim fp) (hex (blake3 cert))"
    if "connect_once blake3 hex ?cfg kw = (r, msgs, evs)" "evs \<noteq> []" for kw r msgs evs
    using connect_once_events [OF that]
    by (auto simp: verify_server_cert_def sha256_hex_def Let_def split: if_splits)
  with t show ?thesis by auto
qed

theorem connect_pins_fingerprint_witness:
  "\<exists>cfg. handle_request quiet_world (Connect ''10.0.0.1:24800'' (Some '' AB '')) idle_client =
       (Some OkReply, idle_client, [DialEffect cfg]) \<and> cc_server_addr cfg = ''10.0.0.1:24800''"
proof -
  let ?h = "handle_request quiet_world (Connect ''10.0.0.1:24800'' (Some '' AB '')) idle_client"
  have trim: "trim '' AB '' \<noteq> []" by code_simp
  let ?cfg = "(client_base ((config_default Map.empty)\<lparr>cfg_role := RoleClient\<rparr>) (PeerId 1))
     \<lparr>cc_server_addr := ''10.0.0.1:24800'', cc_trusted_fingerprints := [trim '' AB '']\<rparr>"
  have h: "?h = (Some OkReply, idle_client, [DialEffect ?cfg])"
    using trim by (simp add: handle_connect_def target_of_def quiet_world_def idle_client_def daemon_start_def initial_state_def)
  from connect_pins_fingerprint [OF h trim] have "cc_server_addr ?cfg = ''10.0.0.1:24800''"
    by (simp add: target_of_def quiet_world_def)
  with h show ?thesis by blast
qed

text \<open>
  Stopping can leave a peer behind: between clearing the state and aborting the fan-out, a
  connection event still adds to the list of peers, and nothing removes it. A daemon is reachable
  that is idle, with no task left and no request pending, and lists a peer.
\<close>

theorem stale_peer_after_stop:
  "\<exists>d0 d. daemon_init d0 \<and> daemon_step\<^sup>*\<^sup>* d0 d \<and> \<not> ds_listening (dm_state d) \<and>
     ds_server_controller (dm_state d) = None \<and> dm_checked d = 0 \<and> dm_bound d = [] \<and>
     dm_fanouts d = {} \<and> dm_stopping d = [] \<and> ds_peers (dm_state d) \<noteq> []"
proof -
  let ?s = "fst (daemon_start (config_default Map.empty) (PeerId 1)
    \<lparr>cb_cert_chain = [], cb_key = [], cb_fingerprint_hex = []\<rparr> 0)"
  let ?h = "\<lparr>ph_peer_id = PeerId 2, ph_peer_name = ''b'', ph_remote_addr = None, ph_chan = 0\<rparr>"
  let ?d0 = "daemon_idle ?s"
  let ?d1 = "?d0\<lparr>dm_checked := 1\<rparr>"
  let ?d2 = "?d1\<lparr>dm_checked := 0, dm_bound := [(0, None)], dm_fanouts := {0}\<rparr>"
  let ?d3 = "?d2\<lparr>dm_bound := [], dm_state := start_commit 0 None ?s\<rparr>"
  let ?d4 = "?d3\<lparr>dm_state := ?s, dm_stopping := [0]\<rparr>"
  let ?d5 = "?d4\<lparr>dm_state := ?s\<lparr>ds_peers := [track 0 ?h]\<rparr>\<rparr>"
  let ?d6 = "?d5\<lparr>dm_stopping := [], dm_fanouts := {}\<rparr>"
  have s: "ds_server_controller ?s = None" "ds_server_factory ?s =
      Some \<lparr>sc_listen = ''0.0.0.0:24800'', sc_local_peer_id = PeerId 1,
      sc_local_peer_name = ''unknown'', sc_cert = \<lparr>cb_cert_chain = [], cb_key = [], cb_fingerprint_hex = []\<rparr>\<rparr>"
    "ds_listening ?s = False" "ds_peers ?s = []"
    "stop_clear (start_commit 0 None ?s) = (Some 0, ?s)"
    by (simp_all add: daemon_start_def initial_state_def config_default_def network_default_def
      hostname_or_unknown_def stop_clear_def
        start_commit_def)
  have "daemon_step ?d0 ?d1"
    using daemon_step.check [of ?d0] s(1,2) by (simp add: start_check_def daemon_idle_def)
  moreover have "daemon_step ?d1 ?d2"
    using daemon_step.bound [of ?d1 0 0 None] by (simp add: daemon_idle_def)
  moreover have "daemon_step ?d2 ?d3"
    using daemon_step.commit [of 0 None ?d2] by (simp add: daemon_idle_def)
  moreover have "daemon_step ?d3 ?d4"
    using daemon_step.stop [of ?d3 "Some 0" ?s] s(5) by (simp add: daemon_idle_def)
  moreover have "daemon_step ?d4 ?d5"
    using daemon_step.fanout [of 0 ?d4 0 "SrvConnected ?h"] s(4) by (simp add: daemon_idle_def)
  moreover have "daemon_step ?d5 ?d6"
    using daemon_step.teardown [of 0 ?d5] by (simp add: daemon_idle_def)
  ultimately have "daemon_step\<^sup>*\<^sup>* ?d0 ?d6"
    by (meson converse_rtranclp_into_rtranclp rtranclp.rtrancl_refl)
  moreover have "daemon_init ?d0" by (auto simp: daemon_init_def)
  ultimately show ?thesis
    by (intro exI [of _ ?d0] exI [of _ ?d6]) (simp add: s daemon_idle_def)
qed

end
