(* ===== verification/PeerConnection.thy ===== *)
theory PeerConnection
  imports ClientSupervisor WireProperties RoutingProperties
begin

text \<open>
  An established connection (\<open>crates/network/src/peer.rs\<close> and \<open>run_peer_loop\<close> with its tasks in
  \<open>crates/network/src/peer_loop.rs\<close>): the operations of a peer handle, and the writer, the readers of
  the control stream and of the auxiliary streams, the acceptor and the session that consumes what they
  read, as one step relation. A stream is the bytes it will deliver before it ends.
\<close>

section \<open>The handle\<close>

text \<open>
  The outbound channel of a handle and the connection it holds until it is cleared. A \<open>send\<close> to a full
  channel waits: it has no result. The texts of the two failures of \<open>try_send\<close> belong to the channel.
\<close>

definition CHANNEL_BOUND :: nat where
  "CHANNEL_BOUND = 256"

record OutChannel =
  oc_queue :: "Message list"
  oc_open :: bool

datatype try_send_error = ChannelFull | ChannelClosed

definition peer_send :: "Message \<Rightarrow> OutChannel \<Rightarrow> ((Error + unit) \<times> OutChannel) option" where
  "peer_send msg ch =
     (if \<not> oc_open ch then Some (Err (ENetwork ''peer outbound channel closed''), ch)
      else if length (oc_queue ch) < CHANNEL_BOUND
      then Some (Ok (), ch\<lparr>oc_queue := oc_queue ch @ [msg]\<rparr>)
      else None)"

definition peer_try_send ::
  "(try_send_error \<Rightarrow> string) \<Rightarrow> Message \<Rightarrow> OutChannel \<Rightarrow> (Error + unit) \<times> OutChannel" where
  "peer_try_send display msg ch =
     (if \<not> oc_open ch then (Err (ENetwork (''peer outbound: '' @ display ChannelClosed)), ch)
      else if length (oc_queue ch) < CHANNEL_BOUND then (Ok (), ch\<lparr>oc_queue := oc_queue ch @ [msg]\<rparr>)
      else (Err (ENetwork (''peer outbound: '' @ display ChannelFull)), ch))"

text \<open>Opening an auxiliary stream: \<open>opened\<close> is the outcome on the connection, if there is one.\<close>

definition peer_open_bi :: "string + 's \<Rightarrow> nat option \<Rightarrow> Error + 's" where
  "peer_open_bi opened connection =
     (case connection of
        None \<Rightarrow> Err (ENetwork ''peer disconnected'')
      | Some c \<Rightarrow> map_err (\<lambda>e. ENetwork (''open_bi: '' @ e)) opened)"

definition peer_clear :: "nat option \<Rightarrow> nat option" where
  "peer_clear connection = None"

section \<open>The tasks\<close>

text \<open>A reader with the whole stream and what is left of it; reader 0 is that of the control stream.\<close>

record Reader =
  rd_stream :: bytes
  rd_rest :: bytes
  rd_running :: bool

definition new_reader :: "bytes \<Rightarrow> Reader" where
  "new_reader bs = \<lparr>rd_stream = bs, rd_rest = bs, rd_running = True\<rparr>"

text \<open>
  The function that runs the connection: inside \<open>run_peer_loop\<close>, returned from it, with the handle
  cleared, with the disconnection reported; or dropped before its end.
\<close>

datatype conn_phase = InLoop | LoopReturned | HandleCleared | Reported | FutureDropped

text \<open>
  \<open>pl_accepted\<close> lists what the outbound channel ever took, \<open>pl_handled\<close> what the session consumed, with
  the number of the stream it came from.
\<close>

record PeerLoop =
  pl_out :: OutChannel
  pl_handles :: bool
  pl_accepted :: "Message list"
  pl_wire :: bytes
  pl_readers :: "Reader list"
  pl_accepting :: bool
  pl_inbound :: "(nat \<times> Message) list"
  pl_handled :: "(nat \<times> Message) list"
  pl_listening :: bool
  pl_connection :: "nat option"
  pl_phase :: conn_phase

definition connection_start :: "nat \<Rightarrow> bytes \<Rightarrow> PeerLoop" where
  "connection_start c control =
     \<lparr>pl_out = \<lparr>oc_queue = [], oc_open = True\<rparr>, pl_handles = True, pl_accepted = [], pl_wire = [],
      pl_readers = [new_reader control], pl_accepting = True, pl_inbound = [], pl_handled = [],
      pl_listening = True, pl_connection = Some c, pl_phase = InLoop\<rparr>"

definition stop_reader :: "nat \<Rightarrow> bytes \<Rightarrow> PeerLoop \<Rightarrow> PeerLoop" where
  "stop_reader i rest s =
     s\<lparr>pl_readers := (pl_readers s)[i := (pl_readers s ! i)\<lparr>rd_rest := rest, rd_running := False\<rparr>]\<rparr>"

definition closed_channel :: OutChannel where
  "closed_channel = \<lparr>oc_queue = [], oc_open = False\<rparr>"

text \<open>
  The steps. \<open>run_peer_loop\<close> returns when one of its three tasks has ended; nothing stops the other
  two, nor does dropping it: a task that is dropped by its handle goes on. The loops of \<open>write_loop\<close>,
  \<open>read_loop\<close> and \<open>accept_streams_loop\<close> appear one turn at a time.
\<close>

inductive conn_step ::
  "(Message \<Rightarrow> string + bytes) \<Rightarrow> (bytes \<Rightarrow> string + Message) \<Rightarrow> string \<Rightarrow> PeerLoop \<Rightarrow> PeerLoop \<Rightarrow> bool"
  for ser de eof where
  send: "pl_handles s \<Longrightarrow> peer_send msg (pl_out s) = Some (Ok (), ch) \<Longrightarrow>
    conn_step ser de eof s (s\<lparr>pl_out := ch, pl_accepted := pl_accepted s @ [msg]\<rparr>)"
| write_msg: "oc_open (pl_out s) \<Longrightarrow> oc_queue (pl_out s) = msg # msgs \<Longrightarrow> write_all_law wr \<Longrightarrow>
    write_message ser wr msg (pl_wire s) = (Ok (), wire) \<Longrightarrow>
    conn_step ser de eof s (s\<lparr>pl_out := (pl_out s)\<lparr>oc_queue := msgs\<rparr>, pl_wire := wire\<rparr>)"
| write_fail: "oc_open (pl_out s) \<Longrightarrow> oc_queue (pl_out s) = msg # msgs \<Longrightarrow> write_all_law wr \<Longrightarrow>
    write_message ser wr msg (pl_wire s) = (Inl e, wire) \<Longrightarrow>
    conn_step ser de eof s (s\<lparr>pl_out := closed_channel, pl_wire := wire\<rparr>)"
| write_end: "oc_open (pl_out s) \<Longrightarrow> oc_queue (pl_out s) = [] \<Longrightarrow> \<not> pl_handles s \<Longrightarrow>
    conn_step ser de eof s (s\<lparr>pl_out := closed_channel\<rparr>)"
| read: "i < length (pl_readers s) \<Longrightarrow> rd_running (pl_readers s ! i) \<Longrightarrow>
    read_message eof de (rd_rest (pl_readers s ! i)) = (Ok msg, rest) \<Longrightarrow>
    pl_listening s \<Longrightarrow> length (pl_inbound s) < CHANNEL_BOUND \<Longrightarrow>
    conn_step ser de eof s
      (s\<lparr>pl_readers := (pl_readers s)[i := (pl_readers s ! i)\<lparr>rd_rest := rest\<rparr>],
         pl_inbound := pl_inbound s @ [(i, msg)]\<rparr>)"
| read_unheard: "i < length (pl_readers s) \<Longrightarrow> rd_running (pl_readers s ! i) \<Longrightarrow>
    read_message eof de (rd_rest (pl_readers s ! i)) = (Ok msg, rest) \<Longrightarrow> \<not> pl_listening s \<Longrightarrow>
    conn_step ser de eof s (stop_reader i rest s)"
| read_end: "i < length (pl_readers s) \<Longrightarrow> rd_running (pl_readers s ! i) \<Longrightarrow>
    read_message eof de (rd_rest (pl_readers s ! i)) = (Inl e, rest) \<Longrightarrow>
    conn_step ser de eof s (stop_reader i rest s)"
| accept: "pl_accepting s \<Longrightarrow>
    conn_step ser de eof s (s\<lparr>pl_readers := pl_readers s @ [new_reader bs]\<rparr>)"
| accept_end: "pl_accepting s \<Longrightarrow> conn_step ser de eof s (s\<lparr>pl_accepting := False\<rparr>)"
| handle: "pl_listening s \<Longrightarrow> pl_inbound s = x # xs \<Longrightarrow>
    conn_step ser de eof s (s\<lparr>pl_inbound := xs, pl_handled := pl_handled s @ [x]\<rparr>)"
| inbound_closed: "pl_listening s \<Longrightarrow> pl_inbound s = [] \<Longrightarrow> \<not> pl_accepting s \<Longrightarrow>
    \<forall>r \<in> set (pl_readers s). \<not> rd_running r \<Longrightarrow>
    conn_step ser de eof s (s\<lparr>pl_listening := False\<rparr>)"
| session_gone: "conn_step ser de eof s (s\<lparr>pl_listening := False, pl_inbound := []\<rparr>)"
| handles_gone: "pl_phase s \<in> {Reported, FutureDropped} \<Longrightarrow> \<not> pl_listening s \<Longrightarrow>
    conn_step ser de eof s (s\<lparr>pl_handles := False\<rparr>)"
| loop_return: "pl_phase s = InLoop \<Longrightarrow>
    \<not> oc_open (pl_out s) \<or> \<not> rd_running (hd (pl_readers s)) \<or> \<not> pl_accepting s \<Longrightarrow>
    conn_step ser de eof s (s\<lparr>pl_phase := LoopReturned\<rparr>)"
| clear: "pl_phase s = LoopReturned \<Longrightarrow>
    conn_step ser de eof s (s\<lparr>pl_connection := peer_clear (pl_connection s), pl_phase := HandleCleared\<rparr>)"
| report: "pl_phase s = HandleCleared \<Longrightarrow> conn_step ser de eof s (s\<lparr>pl_phase := Reported\<rparr>)"
| future_dropped: "pl_phase s \<noteq> Reported \<Longrightarrow> conn_step ser de eof s (s\<lparr>pl_phase := FutureDropped\<rparr>)"

inductive_cases conn_stepE: "conn_step ser de eof s s'"

section \<open>Order and integrity\<close>

definition from_stream :: "nat \<Rightarrow> (nat \<times> Message) list \<Rightarrow> Message list" where
  "from_stream i xs = map snd (filter (\<lambda>x. fst x = i) xs)"

lemma from_stream_simps [simp]:
  "from_stream i [] = []"
  "from_stream i (x # xs) = (if fst x = i then snd x # from_stream i xs else from_stream i xs)"
  "from_stream i (xs @ ys) = from_stream i xs @ from_stream i ys"
  by (simp_all add: from_stream_def)

text \<open>What reader \<open>i\<close> passed on, and what it will.\<close>

definition reader_ok :: "(bytes \<Rightarrow> string + Message) \<Rightarrow> string \<Rightarrow> bool \<Rightarrow> Message list \<Rightarrow> Reader \<Rightarrow> bool" where
  "reader_ok de eof heard passed r \<longleftrightarrow>
     (if rd_running r \<and> heard then passed @ read_loop eof de (rd_rest r) = read_loop eof de (rd_stream r)
      else prefix passed (read_loop eof de (rd_stream r))) \<and>
     (\<not> rd_running r \<and> heard \<longrightarrow> passed = read_loop eof de (rd_stream r))"

definition passed_on :: "PeerLoop \<Rightarrow> nat \<Rightarrow> Message list" where
  "passed_on s i = from_stream i (pl_handled s @ pl_inbound s)"

definition readers_ok :: "(bytes \<Rightarrow> string + Message) \<Rightarrow> string \<Rightarrow> PeerLoop \<Rightarrow> bool" where
  "readers_ok de eof s \<longleftrightarrow>
     (\<forall>i < length (pl_readers s). reader_ok de eof (pl_listening s) (passed_on s i) (pl_readers s ! i)) \<and>
     (\<forall>x \<in> set (pl_handled s @ pl_inbound s). fst x < length (pl_readers s))"

text \<open>What is on the wire are whole frames of the messages the writer took, in order, until it fails.\<close>

definition writer_ok :: "(Message \<Rightarrow> string + bytes) \<Rightarrow> PeerLoop \<Rightarrow> bool" where
  "writer_ok ser s \<longleftrightarrow>
     (if oc_open (pl_out s)
      then \<exists>ms. pl_accepted s = ms @ oc_queue (pl_out s) \<and> list_all (\<lambda>m. is_ok (message_bytes ser m)) ms \<and>
        pl_wire s = write_loop ser ms
      else prefix (pl_wire s) (write_loop ser (pl_accepted s)))"

definition conn_inv :: "(Message \<Rightarrow> string + bytes) \<Rightarrow> (bytes \<Rightarrow> string + Message) \<Rightarrow> string \<Rightarrow> PeerLoop \<Rightarrow> bool" where
  "conn_inv ser de eof s \<longleftrightarrow> readers_ok de eof s \<and> writer_ok ser s"

lemma write_loop_append:
  "list_all (\<lambda>m. is_ok (message_bytes ser m)) ms \<Longrightarrow>
   write_loop ser (ms @ ns) = write_loop ser ms @ write_loop ser ns"
  by (induction ms) (auto split: sum.splits)

lemma write_loop_prefix: "prefix (write_loop ser ms) (write_loop ser (ms @ ns))"
  by (induction ms) (auto split: sum.splits)

lemma writer_ok_step: "conn_step ser de eof s s' \<Longrightarrow> writer_ok ser s \<Longrightarrow> writer_ok ser s'"
proof (induction rule: conn_step.induct)
  case (send s msg ch)
  then show ?case
    by (fastforce simp: writer_ok_def peer_send_def split: if_splits)
next
  case (write_msg s msg msgs wr wire)
  then obtain ms where ms: "pl_accepted s = ms @ msg # msgs" "list_all (\<lambda>m. is_ok (message_bytes ser m)) ms"
    "pl_wire s = write_loop ser ms" by (auto simp: writer_ok_def)
  obtain bs where bs: "message_bytes ser msg = Ok bs" "wire = pl_wire s @ bs"
    using write_message_written [OF write_msg(3,4)] by blast
  then have "wire = write_loop ser (ms @ [msg])" using ms(2,3) by (simp add: write_loop_append)
  with ms write_msg(1) bs show ?case by (auto simp: writer_ok_def intro!: exI [of _ "ms @ [msg]"])
next
  case (write_fail s msg msgs wr e wire)
  then obtain ms where ms: "pl_accepted s = ms @ msg # msgs" "list_all (\<lambda>m. is_ok (message_bytes ser m)) ms"
    "pl_wire s = write_loop ser ms" by (auto simp: writer_ok_def)
  obtain p where p: "wire = pl_wire s @ p" "prefix p (write_loop ser [msg])"
    using write_message_failed [OF write_fail(3,4)] by blast
  have "prefix p (write_loop ser (msg # msgs))"
    using p(2) write_loop_prefix [of ser "[msg]" msgs] by (auto intro: prefix_order.trans)
  then show ?case using ms p(1) by (simp add: writer_ok_def closed_channel_def write_loop_append)
next
  case (write_end s)
  then show ?case by (auto simp: writer_ok_def closed_channel_def)
qed (simp_all add: writer_ok_def stop_reader_def)

lemma reader_ok_read:
  assumes "reader_ok de eof True passed r" and "rd_running r" and "read_message eof de (rd_rest r) = (Ok msg, rest)"
  shows "reader_ok de eof True (passed @ [msg]) (r\<lparr>rd_rest := rest\<rparr>)"
  using assms by (auto simp: reader_ok_def read_loop_Ok)

lemma reader_ok_stop:
  assumes "reader_ok de eof heard passed r" and "rd_running r"
    and "\<not> heard \<or> \<not> is_ok (fst (read_message eof de (rd_rest r)))"
  shows "reader_ok de eof heard passed (r\<lparr>rd_rest := rest, rd_running := False\<rparr>)"
  using assms by (auto simp: reader_ok_def read_loop_Err split: if_splits)

lemma reader_ok_deaf:
  assumes "reader_ok de eof heard passed r" and "prefix passed' passed"
  shows "reader_ok de eof False passed' r"
proof -
  have "prefix passed (read_loop eof de (rd_stream r))"
    using assms(1) by (auto simp: reader_ok_def split: if_splits dest: sym)
  with assms(2) show ?thesis by (auto simp: reader_ok_def dest: prefix_order.trans)
qed

lemma reader_ok_new: "reader_ok de eof heard [] (new_reader bs)"
  by (simp add: reader_ok_def new_reader_def)

lemma from_stream_unknown: "\<forall>x \<in> set xs. fst x < n \<Longrightarrow> from_stream n xs = []"
  by (induction xs) auto

lemma readers_ok_stop:
  assumes "readers_ok de eof s" and "i < length (pl_readers s)" and "rd_running (pl_readers s ! i)"
    and "\<not> pl_listening s \<or> \<not> is_ok (fst (read_message eof de (rd_rest (pl_readers s ! i))))"
  shows "readers_ok de eof (stop_reader i rest s)"
  using assms by (auto simp: readers_ok_def stop_reader_def passed_on_def nth_list_update intro: reader_ok_stop)

lemma readers_ok_step: "conn_step ser de eof s s' \<Longrightarrow> readers_ok de eof s \<Longrightarrow> readers_ok de eof s'"
proof (induction rule: conn_step.induct)
  case (read i s msg rest)
  then have "reader_ok de eof True (passed_on s i @ [msg]) ((pl_readers s ! i)\<lparr>rd_rest := rest\<rparr>)"
    by (intro reader_ok_read) (simp_all add: readers_ok_def)
  with read show ?case by (auto simp: readers_ok_def passed_on_def nth_list_update)
next
  case (read_unheard i s msg rest)
  then show ?case by (intro readers_ok_stop) simp_all
next
  case (read_end i s e rest)
  then show ?case by (intro readers_ok_stop) simp_all
next
  case (accept s bs)
  then have "passed_on s (length (pl_readers s)) = []"
    by (auto simp: readers_ok_def passed_on_def intro!: from_stream_unknown)
  with accept show ?case
    by (auto simp: readers_ok_def passed_on_def nth_append less_Suc_eq intro: reader_ok_new)
next
  case (handle s x xs)
  then show ?case by (auto simp: readers_ok_def passed_on_def)
next
  case (inbound_closed s)
  then show ?case by (auto simp: readers_ok_def passed_on_def intro: reader_ok_deaf)
next
  case (session_gone s)
  then show ?case by (auto simp: readers_ok_def passed_on_def intro: reader_ok_deaf)
qed (simp_all add: readers_ok_def passed_on_def)

interpretation connection: invariant_system
  "\<lambda>s. \<exists>c control. s = connection_start c control" "conn_step ser de eof" "conn_inv ser de eof" for ser de eof
proof
  fix s assume "\<exists>c control. s = connection_start c control"
  then show "conn_inv ser de eof s"
    by (auto simp: conn_inv_def readers_ok_def writer_ok_def connection_start_def passed_on_def reader_ok_new)
next
  fix s t assume "conn_inv ser de eof s" "conn_step ser de eof s t"
  then show "conn_inv ser de eof t"
    by (simp add: conn_inv_def readers_ok_step writer_ok_step)
qed

text \<open>The control stream is reader 0 all the time.\<close>

lemma map_update_same [simp]: "i < length xs \<Longrightarrow> (map f xs)[i := f (xs ! i)] = map f xs"
  by (metis list_update_id nth_map)

lemma conn_step_streams:
  "conn_step ser de eof s s' \<Longrightarrow> \<exists>rs. map rd_stream (pl_readers s') = map rd_stream (pl_readers s) @ rs"
  by (induction rule: conn_step.induct) (auto simp: stop_reader_def map_update)

lemma control_stream:
  assumes "(conn_step ser de eof)\<^sup>*\<^sup>* (connection_start c control) s"
  shows "\<exists>r rs. pl_readers s = r # rs \<and> rd_stream r = control"
proof -
  have "\<exists>rs. map rd_stream (pl_readers s) = control # rs"
    using assms
  proof (induction rule: rtranclp_induct)
    case (step s t)
    then show ?case using conn_step_streams [OF step.hyps(2)] by auto
  qed (simp add: connection_start_def new_reader_def)
  then show ?thesis by (cases "pl_readers s") auto
qed

text \<open>A stream that was cut anywhere yields the first messages that were written.\<close>

lemma read_loop_cut:
  "list_all (wire_ok ser de) ms \<Longrightarrow> prefix p (write_loop ser ms) \<Longrightarrow> prefix (read_loop eof de p) ms"
proof (induction ms arbitrary: p)
  case Nil
  then show ?case by (simp add: read_loop_Nil)
next
  case (Cons m ms)
  then obtain bs where bs: "message_bytes ser m = Ok bs" using stream.wr_sendable by fastforce
  with Cons.prems(2) have "prefix p (bs @ write_loop ser ms)" by simp
  then consider "strict_prefix p bs" | q where "p = bs @ q" "prefix q (write_loop ser ms)"
    by (metis append.right_neutral Nil_prefix prefix_append strict_prefix_def)
  then show ?case
  proof cases
    case 1
    have "read_loop eof de p = []"
      using stream.rd_cut [OF _ bs 1] Cons.prems(1) by (intro read_loop_Err) simp
    then show ?thesis by simp
  next
    case 2
    have "read_message eof de (bs @ q) = (Ok m, q)" using stream.rd_wr [OF _ bs] Cons.prems(1) by simp
    with 2 Cons show ?thesis by (simp add: read_loop_Ok)
  qed
qed

text \<open>What the session of one machine consumes, from what the writer of the other guarantees.\<close>

lemma writer_ok_wire: "writer_ok ser s \<Longrightarrow> prefix (pl_wire s) (write_loop ser (pl_accepted s))"
  using write_loop_prefix by (fastforce simp: writer_ok_def split: if_splits)

lemma consumed_prefix:
  assumes "(conn_step ser de eof)\<^sup>*\<^sup>* (connection_start c control) s" and "writer_ok ser s'"
    and "prefix control (pl_wire s')" and "list_all (wire_ok ser de) (pl_accepted s')"
  shows "prefix (from_stream 0 (pl_handled s)) (pl_accepted s')"
proof -
  have inv: "conn_inv ser de eof s" using connection.inv_reachable assms(1) by blast
  obtain r rs where r: "pl_readers s = r # rs" "rd_stream r = control"
    using control_stream [OF assms(1)] by blast
  have "reader_ok de eof (pl_listening s) (passed_on s 0) r"
    using inv r by (fastforce simp: conn_inv_def readers_ok_def)
  then have "reader_ok de eof False (from_stream 0 (pl_handled s)) r"
    by (rule reader_ok_deaf) (simp add: passed_on_def)
  then have "prefix (from_stream 0 (pl_handled s)) (read_loop eof de control)"
    using r by (simp add: reader_ok_def)
  moreover have "prefix (read_loop eof de control) (pl_accepted s')"
    using read_loop_cut [OF assms(4)] prefix_order.trans [OF assms(3) writer_ok_wire [OF assms(2)]] by blast
  ultimately show ?thesis using prefix_order.trans by blast
qed


section \<open>Ending a connection\<close>

text \<open>
  Whatever has become of the function that runs the connection: while the reader of the control stream
  runs and the session listens, what is still in the stream is read and consumed.
\<close>

lemma read_loop_ConsD:
  assumes "read_loop eof de input = m # ms"
  obtains rest where "read_message eof de input = (Ok m, rest)" and "read_loop eof de rest = ms"
  using assms by (subst (asm) read_loop.simps) (auto split: prod.splits sum.splits)

lemma drain_inbound:
  assumes "pl_listening s"
  shows "(conn_step ser de eof)\<^sup>*\<^sup>* s (s\<lparr>pl_inbound := [], pl_handled := pl_handled s @ pl_inbound s\<rparr>)"
  using assms
proof (induction "pl_inbound s" arbitrary: s)
  case Nil
  then have "s\<lparr>pl_inbound := [], pl_handled := pl_handled s @ pl_inbound s\<rparr> = s"
    by (intro PeerLoop.equality) simp_all
  then show ?case by simp
next
  case (Cons x xs)
  let ?s1 = "s\<lparr>pl_inbound := xs, pl_handled := pl_handled s @ [x]\<rparr>"
  have "conn_step ser de eof s ?s1" using Cons by (intro conn_step.handle) simp_all
  moreover have "(conn_step ser de eof)\<^sup>*\<^sup>* ?s1
      (?s1\<lparr>pl_inbound := [], pl_handled := pl_handled ?s1 @ pl_inbound ?s1\<rparr>)"
    using Cons by (intro Cons.hyps(1)) simp_all
  moreover have "?s1\<lparr>pl_inbound := [], pl_handled := pl_handled ?s1 @ pl_inbound ?s1\<rparr> =
      s\<lparr>pl_inbound := [], pl_handled := pl_handled s @ pl_inbound s\<rparr>"
    by (simp flip: Cons.hyps(2))
  ultimately show ?case by (metis converse_rtranclp_into_rtranclp)
qed

lemma control_reader_goes_on:
  assumes "pl_readers s = r # rs" and "rd_running r" and "read_loop eof de (rd_rest r) = msgs @ later"
    and "pl_listening s" and "pl_inbound s = []"
  shows "\<exists>r'. (conn_step ser de eof)\<^sup>*\<^sup>* s
    (s\<lparr>pl_readers := r' # rs, pl_handled := pl_handled s @ map (Pair 0) msgs\<rparr>) \<and>
    rd_running r' \<and> read_loop eof de (rd_rest r') = later"
  using assms
proof (induction msgs arbitrary: s r)
  case Nil
  then have same: "s\<lparr>pl_readers := r # rs, pl_handled := pl_handled s @ map (Pair 0) []\<rparr> = s"
    by (intro PeerLoop.equality) simp_all
  have "read_loop eof de (rd_rest r) = later" using Nil by simp
  with Nil(2) show ?case by (intro exI [of _ r]) (simp only: same rtranclp.rtrancl_refl simp_thms)
next
  case (Cons m msgs)
  obtain rest where rest: "read_message eof de (rd_rest r) = (Ok m, rest)" "read_loop eof de rest = msgs @ later"
    using Cons.prems(3) by (auto elim: read_loop_ConsD)
  let ?r1 = "r\<lparr>rd_rest := rest\<rparr>"
  let ?s1 = "s\<lparr>pl_readers := ?r1 # rs, pl_inbound := [(0, m)]\<rparr>"
  let ?s2 = "s\<lparr>pl_readers := ?r1 # rs, pl_handled := pl_handled s @ [(0, m)]\<rparr>"
  have "conn_step ser de eof s
      (s\<lparr>pl_readers := (pl_readers s)[0 := (pl_readers s ! 0)\<lparr>rd_rest := rest\<rparr>],
         pl_inbound := pl_inbound s @ [(0, m)]\<rparr>)"
    by (rule conn_step.read) (simp_all add: Cons.prems(1,2,4,5) rest(1) CHANNEL_BOUND_def)
  then have 1: "conn_step ser de eof s ?s1" by (simp add: Cons.prems)
  have "?s1\<lparr>pl_inbound := [], pl_handled := pl_handled ?s1 @ pl_inbound ?s1\<rparr> = ?s2"
    by (rule PeerLoop.equality) (simp_all add: Cons.prems)
  with drain_inbound [of ?s1 ser de eof] Cons.prems(4) have 2: "(conn_step ser de eof)\<^sup>*\<^sup>* ?s1 ?s2" by simp
  obtain r' where r': "(conn_step ser de eof)\<^sup>*\<^sup>* ?s2
      (?s2\<lparr>pl_readers := r' # rs, pl_handled := pl_handled ?s2 @ map (Pair 0) msgs\<rparr>)"
    "rd_running r'" "read_loop eof de (rd_rest r') = later"
    using Cons.IH [of ?s2 ?r1] Cons.prems rest(2) by auto
  have "(conn_step ser de eof)\<^sup>*\<^sup>* s
      (s\<lparr>pl_readers := r' # rs, pl_handled := pl_handled s @ map (Pair 0) (m # msgs)\<rparr>)"
    using rtranclp_trans [OF converse_rtranclp_into_rtranclp [OF 1 2] r'(1)] by simp
  with r'(2,3) show ?case by blast
qed

text \<open>A session that still listens can consume all that the control stream holds.\<close>

lemma control_stream_consumed:
  assumes "(conn_step ser de eof)\<^sup>*\<^sup>* (connection_start c control) s" and "pl_listening s"
  shows "\<exists>s'. (conn_step ser de eof)\<^sup>*\<^sup>* s s' \<and> pl_listening s' \<and>
    from_stream 0 (pl_handled s') = read_loop eof de control"
proof -
  let ?t = "s\<lparr>pl_inbound := [], pl_handled := pl_handled s @ pl_inbound s\<rparr>"
  obtain r rs where r: "pl_readers s = r # rs" "rd_stream r = control" using control_stream [OF assms(1)] by blast
  have "conn_inv ser de eof s" using connection.inv_reachable assms(1) by blast
  then have ok: "reader_ok de eof True (passed_on s 0) r"
    using r assms(2) by (fastforce simp: conn_inv_def readers_ok_def)
  have drained: "(conn_step ser de eof)\<^sup>*\<^sup>* s ?t" by (rule drain_inbound [OF assms(2)])
  show ?thesis
  proof (cases "rd_running r")
    case True
    obtain r' where run: "(conn_step ser de eof)\<^sup>*\<^sup>* ?t
        (?t\<lparr>pl_readers := r' # rs, pl_handled := pl_handled ?t @ map (Pair 0) (read_loop eof de (rd_rest r))\<rparr>)"
      using control_reader_goes_on [of ?t r rs eof de "read_loop eof de (rd_rest r)" "[]" ser] r(1) True assms(2) by auto
    have all: "from_stream 0 (map (Pair 0) xs) = xs" for xs :: "Message list"
      by (induction xs) simp_all
    show ?thesis
      by (intro exI conjI, rule rtranclp_trans [OF drained run])
        (use ok True r(2) assms(2) in \<open>simp_all add: reader_ok_def passed_on_def all\<close>)
  next
    case False
    with ok r(2) have "from_stream 0 (pl_handled ?t) = read_loop eof de control"
      by (simp add: reader_ok_def passed_on_def)
    with drained assms(2) show ?thesis by (intro exI [of _ ?t]) simp
  qed
qed

text \<open>
  A dropped function: the step that drops it touches nothing but the phase, which no later step
  changes, and the connection is not let go any more.
\<close>

lemma drop_step:
  assumes "conn_step ser de eof s d" and "pl_phase s \<noteq> FutureDropped" and "pl_phase d = FutureDropped"
  shows "d = s\<lparr>pl_phase := FutureDropped\<rparr>"
  using assms by (cases rule: conn_step.cases) (simp_all add: stop_reader_def)

lemma dropped_stays:
  assumes "(conn_step ser de eof)\<^sup>*\<^sup>* d s" and "pl_phase d = FutureDropped"
  shows "pl_phase s = FutureDropped \<and> pl_connection s = pl_connection d"
  using assms
proof (induction rule: rtranclp_induct)
  case (step s t)
  from step.hyps(2) step.IH step.prems show ?case by (cases rule: conn_step.cases) (simp_all add: stop_reader_def)
qed simp

lemma held_in_loop:
  assumes "(conn_step ser de eof)\<^sup>*\<^sup>* (connection_start c control) s" and "pl_phase s = InLoop"
  shows "pl_connection s = Some c"
proof -
  have "pl_phase s = InLoop \<longrightarrow> pl_connection s = Some c"
    using assms(1)
  proof (induction rule: rtranclp_induct)
    case (step s t)
    from step.hyps(2) step.IH show ?case by (cases rule: conn_step.cases) (simp_all add: stop_reader_def)
  qed (simp add: connection_start_def)
  with assms(2) show ?thesis by simp
qed

text \<open>
  C13: Hanging up does not end a connection. The supervisor drops the function that runs it and waits
  for the next command, and no event tells the daemon. The step that drops the function leaves its tasks
  running, for they are detached: whatever happens after it, the connection stays held, and as long as
  the session listens there is a way on in which it consumes every message of the control stream, so
  that all input the server sends, before and after the hang-up, is injected. The same goes for the old
  connection when another server is dialled.
\<close>

theorem hang_up_keeps_connection:
  assumes "sup_step (Established cfg h) (Command cmd) = (ph, evs)"
    and "(conn_step ser de eof)\<^sup>*\<^sup>* (connection_start c (write_loop ser (map from_input input))) s"
    and "pl_phase s = InLoop" and "conn_step ser de eof s d" and "pl_phase d = FutureDropped"
    and "(conn_step ser de eof)\<^sup>*\<^sup>* d s'" and "pl_listening s'"
    and "list_all (\<lambda>ev. (\<exists>k. ev = Key k) \<or> (\<exists>m. ev = Mouse m \<and> move_target ev = None)) input"
    and "list_all (wire_ok ser de) (map from_input input)"
  shows "evs = [] \<and> pl_readers d = pl_readers s \<and> pl_connection s' = Some c \<and>
    (\<exists>s''. (conn_step ser de eof)\<^sup>*\<^sup>* s' s'' \<and> pl_phase s'' = FutureDropped \<and> pl_connection s'' = Some c \<and>
       inbound_loop True (from_stream 0 (pl_handled s'')) = map Inject input)"
proof -
  let ?control = "write_loop ser (map from_input input)"
  have d: "d = s\<lparr>pl_phase := FutureDropped\<rparr>" using drop_step [OF assms(4) _ assms(5)] assms(3) by simp
  have held: "pl_connection d = Some c" using held_in_loop [OF assms(2,3)] by (simp add: d)
  have "(conn_step ser de eof)\<^sup>*\<^sup>* (connection_start c ?control) s'"
    using rtranclp.rtrancl_into_rtrancl [OF assms(2,4)] assms(6) by (rule rtranclp_trans)
  from control_stream_consumed [OF this assms(7)] obtain s''
    where s'': "(conn_step ser de eof)\<^sup>*\<^sup>* s' s''" "from_stream 0 (pl_handled s'') = read_loop eof de ?control"
    by blast
  have "from_stream 0 (pl_handled s'') = map from_input input"
    using s''(2) read_write_loop_append [OF assms(9), of eof "[]"] by (simp add: read_loop_Nil)
  then have "inbound_loop True (from_stream 0 (pl_handled s'')) = map Inject input"
    by (simp only: inbound_loop_from_input [OF assms(8)])
  moreover have "evs = []" using assms(1) by (cases cmd) simp_all
  ultimately show ?thesis
    using s''(1) dropped_stays [OF assms(6,5)] dropped_stays [OF rtranclp_trans [OF assms(6) s''(1)] assms(5)] held d
    by auto
qed

text \<open>
  A frame that cannot be written - a clipboard of more than the cap, say - at the head of the channel:
  nothing is written any more.
\<close>

lemma bad_message_blocks:
  assumes "message_bytes ser bad = Inl e" and "(conn_step ser de eof)\<^sup>*\<^sup>* s s'"
    and "\<not> oc_open (pl_out s) \<or> (\<exists>msgs. oc_queue (pl_out s) = bad # msgs)"
  shows "pl_wire s' = pl_wire s \<and> (\<not> oc_open (pl_out s') \<or> (\<exists>msgs. oc_queue (pl_out s') = bad # msgs))"
  using assms(2)
proof (induction rule: rtranclp_induct)
  case base
  then show ?case using assms(3) by simp
next
  case (step t u)
  from step.hyps(2) step.IH show ?case
    by (induction rule: conn_step.induct)
      (use assms(1) in \<open>auto simp: closed_channel_def stop_reader_def peer_send_def write_message_def split: if_splits\<close>)
qed

text \<open>
  C36: One message that does not fit a frame ends the connection for the daemon but not for the peer.
  When such a message is at the head of the outbound channel, nothing - neither it nor any message
  behind it - is ever written again; the connection can be reported as ended; and even then what the
  peer sends is still read and consumed by the session.
\<close>

theorem oversized_message_ends_connection:
  assumes "message_bytes ser bad = Inl e" and "oc_open (pl_out s)" and "oc_queue (pl_out s) = bad # msgs"
    and "pl_phase s = InLoop" and "pl_listening s" and "pl_inbound s = []"
    and "pl_readers s = r # rs" and "rd_running r" and "rd_rest r = write_loop ser later @ tail"
    and "list_all (wire_ok ser de) later"
  shows "(\<forall>s'. (conn_step ser de eof)\<^sup>*\<^sup>* s s' \<longrightarrow> pl_wire s' = pl_wire s) \<and>
    (\<exists>s'. (conn_step ser de eof)\<^sup>*\<^sup>* s s' \<and> pl_phase s' = Reported \<and> pl_connection s' = None \<and>
       (\<exists>s''. (conn_step ser de eof)\<^sup>*\<^sup>* s' s'' \<and> pl_handled s'' = pl_handled s' @ map (Pair 0) later))"
proof (intro conjI allI impI)
  fix s' assume "(conn_step ser de eof)\<^sup>*\<^sup>* s s'"
  then show "pl_wire s' = pl_wire s" using bad_message_blocks [OF assms(1)] assms(3) by blast
next
  let ?s1 = "s\<lparr>pl_out := closed_channel\<rparr>"
  let ?s2 = "?s1\<lparr>pl_phase := LoopReturned\<rparr>"
  let ?s3 = "?s2\<lparr>pl_connection := peer_clear (pl_connection ?s2), pl_phase := HandleCleared\<rparr>"
  let ?s4 = "?s3\<lparr>pl_phase := Reported\<rparr>"
  have "write_message ser write_everything bad (pl_wire s) = (Err e, pl_wire s)"
    by (simp add: write_message_def assms(1))
  from conn_step.write_fail [OF assms(2,3) write_everything_law this]
  have "conn_step ser de eof s (s\<lparr>pl_out := closed_channel, pl_wire := pl_wire s\<rparr>)" .
  then have "conn_step ser de eof s ?s1" by simp
  moreover have "conn_step ser de eof ?s1 ?s2"
    by (rule conn_step.loop_return) (simp_all add: assms(4) closed_channel_def)
  moreover have "conn_step ser de eof ?s2 ?s3" by (rule conn_step.clear) simp
  moreover have "conn_step ser de eof ?s3 ?s4" by (rule conn_step.report) simp
  ultimately have run: "(conn_step ser de eof)\<^sup>*\<^sup>* s ?s4"
    by (meson converse_rtranclp_into_rtranclp rtranclp.rtrancl_refl)
  obtain r' where "(conn_step ser de eof)\<^sup>*\<^sup>* ?s4
      (?s4\<lparr>pl_readers := r' # rs, pl_handled := pl_handled ?s4 @ map (Pair 0) later\<rparr>)"
    using control_reader_goes_on [of ?s4 r rs eof de later "read_loop eof de tail" ser]
      read_write_loop_append [OF assms(10), of eof tail] assms(5-9) by auto
  with run show "\<exists>s'. (conn_step ser de eof)\<^sup>*\<^sup>* s s' \<and> pl_phase s' = Reported \<and> pl_connection s' = None \<and>
       (\<exists>s''. (conn_step ser de eof)\<^sup>*\<^sup>* s' s'' \<and> pl_handled s'' = pl_handled s' @ map (Pair 0) later)"
    by (intro exI [of _ ?s4] conjI exI) (auto simp: peer_clear_def)
qed

section \<open>Examples\<close>

text \<open>A ping that one machine queued and wrote, and the other read and handled.\<close>

definition ping_sent :: PeerLoop where
  "ping_sent = (connection_start 1 [])\<lparr>pl_accepted := [M_Ping 1 2], pl_wire := write_loop sample_ser [M_Ping 1 2]\<rparr>"

lemma ping_sent_reachable:
  "(conn_step sample_ser sample_de ''eof'')\<^sup>*\<^sup>* (connection_start 1 []) ping_sent"
proof -
  let ?s0 = "connection_start 1 []"
  let ?s1 = "?s0\<lparr>pl_out := \<lparr>oc_queue = [M_Ping 1 2], oc_open = True\<rparr>, pl_accepted := [M_Ping 1 2]\<rparr>"
  obtain bs where bs: "message_bytes sample_ser (M_Ping 1 2) = Ok bs"
    using stream.wr_sendable [OF sample_ok [of "M_Ping 1 2"]] by (auto simp: sample_messages_def)
  have "conn_step sample_ser sample_de ''eof'' ?s0 ?s1"
    using conn_step.send [of ?s0 "M_Ping 1 2" "\<lparr>oc_queue = [M_Ping 1 2], oc_open = True\<rparr>"]
    by (simp add: connection_start_def peer_send_def CHANNEL_BOUND_def)
  moreover have "conn_step sample_ser sample_de ''eof'' ?s1 ping_sent"
    using conn_step.write_msg [of ?s1 "M_Ping 1 2" "[]" write_everything sample_ser bs] bs
    by (simp add: connection_start_def ping_sent_def)
  ultimately show ?thesis by (meson converse_rtranclp_into_rtranclp rtranclp.rtrancl_refl)
qed


definition sample_click :: "InputEvent list" where
  "sample_click = [Mouse (MButton BtnLeft Pressed), Mouse (MButton BtnLeft Released)]"

theorem hang_up_keeps_connection_witness:
  "let ms = map from_input sample_click;
       s = connection_start 0 (write_loop (table_ser ms) ms);
       d = s\<lparr>pl_phase := FutureDropped\<rparr>
   in conn_step (table_ser ms) (table_de ms) ''eof'' s d \<and>
      (\<exists>s'. (conn_step (table_ser ms) (table_de ms) ''eof'')\<^sup>*\<^sup>* d s' \<and> pl_connection s' = Some 0 \<and>
        inbound_loop True (from_stream 0 (pl_handled s')) = map Inject sample_click)"
proof -
  let ?ms = "map from_input sample_click"
  let ?s = "connection_start 0 (write_loop (table_ser ?ms) ?ms)"
  let ?d = "?s\<lparr>pl_phase := FutureDropped\<rparr>"
  let ?cfg = "\<lparr>cc_server_addr = ''10.0.0.1:24800'', cc_local_peer_id = PeerId 1, cc_local_peer_name = ''c'',
     cc_trusted_fingerprints = [], cc_heartbeat_interval_ms = 2000\<rparr>"
  have sup: "sup_step (Established ?cfg sample_peer) (Command HangUp) = (Waiting, [])" by simp
  have s: "pl_phase ?s = InLoop" "pl_phase ?d = FutureDropped" "pl_listening ?d"
    by (simp_all add: connection_start_def)
  have drop: "conn_step (table_ser ?ms) (table_de ?ms) ''eof'' ?s ?d"
    by (rule conn_step.future_dropped) (simp add: s)
  have ok: "list_all (wire_ok (table_ser ?ms) (table_de ?ms)) ?ms"
    unfolding list_all_iff by (intro ballI table_wire_ok) (simp_all add: sample_click_def MAX_PAYLOAD_SIZE_def)
  have click: "list_all (\<lambda>ev. (\<exists>k. ev = Key k) \<or> (\<exists>m. ev = Mouse m \<and> move_target ev = None)) sample_click"
    by (simp add: sample_click_def move_target_def)
  from hang_up_keeps_connection [OF sup rtranclp.rtrancl_refl s(1) drop s(2) rtranclp.rtrancl_refl s(3) click ok] drop
  show ?thesis unfolding Let_def by blast
qed

theorem oversized_message_ends_connection_witness:
  "let s = (connection_start 0 (write_loop sample_ser [M_Ping 1 2]))
         \<lparr>pl_out := \<lparr>oc_queue = [M_Pong 7 7], oc_open = True\<rparr>\<rparr>
   in \<exists>s' s''. (conn_step sample_ser sample_de ''eof'')\<^sup>*\<^sup>* s s' \<and> pl_phase s' = Reported \<and>
        (conn_step sample_ser sample_de ''eof'')\<^sup>*\<^sup>* s' s'' \<and>
        pl_handled s'' = pl_handled s' @ [(0, M_Ping 1 2)]"
proof -
  let ?s = "(connection_start 0 (write_loop sample_ser [M_Ping 1 2]))
     \<lparr>pl_out := \<lparr>oc_queue = [M_Pong 7 7], oc_open = True\<rparr>\<rparr>"
  obtain e where bad: "message_bytes sample_ser (M_Pong 7 7) = Inl e"
    by (simp add: message_bytes_def encode_frame_def sample_messages_def)
  have s: "oc_open (pl_out ?s)" "oc_queue (pl_out ?s) = M_Pong 7 7 # []" "pl_phase ?s = InLoop" "pl_listening ?s"
    "pl_inbound ?s = []" "pl_readers ?s = [new_reader (write_loop sample_ser [M_Ping 1 2])]"
    by (simp_all add: connection_start_def)
  have r: "rd_running (new_reader bs)" "rd_rest (new_reader bs) = bs @ []" for bs
    by (simp_all add: new_reader_def)
  have ok: "list_all (wire_ok sample_ser sample_de) [M_Ping 1 2]"
    using sample_all_ok by (simp add: sample_messages_def)
  from oversized_message_ends_connection [OF bad s r ok, of "''eof''"] show ?thesis
    unfolding Let_def by (simp del: write_loop.simps) blast
qed

end
