(* ===== verification/InputPipeline.thy ===== *)
theory InputPipeline
  imports PeerConnection
begin

text \<open>
  The session of the server together with a connection: the effects of \<open>drain_capture\<close> and
  \<open>apply_decision\<close> (\<open>crates/daemon/src/session.rs\<close>) go one by one through \<open>send\<close> and \<open>try_send\<close> of the
  handle (\<open>crates/network/src/peer.rs\<close>) into the bounded channel that the writer task empties. What a
  full or closed channel refuses is lost: the session ignores the result.
\<close>

section \<open>Performing the effects\<close>

text \<open>
  \<open>ln_todo\<close> are the effects of the drain task's current half that it has still to perform; \<open>ln_lost\<close>
  counts the messages for this connection that were refused. An effect on another channel, on the
  cursor or on the capture does nothing here; a \<open>send\<close> to a full channel waits.
\<close>

record Link =
  ln_server :: Server
  ln_todo :: "effect list"
  ln_conn :: PeerLoop
  ln_lost :: nat

definition link_start :: "EdgeDetector \<Rightarrow> nat \<Rightarrow> bytes \<Rightarrow> Link" where
  "link_start ed c control =
     \<lparr>ln_server = server_start ed, ln_todo = [], ln_conn = connection_start c control, ln_lost = 0\<rparr>"

fun perform ::
  "(try_send_error \<Rightarrow> string) \<Rightarrow> nat \<Rightarrow> effect \<Rightarrow> OutChannel \<Rightarrow> ((Error + unit) \<times> OutChannel) option" where
  "perform display c (Send ch m) out = (if ch = c then peer_send m out else Some (Ok (), out))"
| "perform display c (TrySend ch m) out = (if ch = c then Some (peer_try_send display m out) else Some (Ok (), out))"
| "perform display c _ out = Some (Ok (), out)"

text \<open>
  A sequence of effects performed on a channel while the writer empties it: before each effect the writer
  takes the given number of messages, or what there is. The messages the writer took, and the channel at
  the end; \<open>None\<close> when a \<open>send\<close> would have to wait. The session ignores the results.
\<close>

fun perform_all ::
  "(try_send_error \<Rightarrow> string) \<Rightarrow> nat \<Rightarrow> (nat \<times> effect) list \<Rightarrow> OutChannel \<Rightarrow> (Message list \<times> OutChannel) option" where
  "perform_all display c [] out = Some ([], out)"
| "perform_all display c ((n, e) # es) out =
     (case perform display c e (out\<lparr>oc_queue := drop n (oc_queue out)\<rparr>) of
        None \<Rightarrow> None
      | Some (r, out1) \<Rightarrow>
          map_option (apfst ((@) (take n (oc_queue out)))) (perform_all display c es out1))"

text \<open>The writer keeps up: there is room before each of the effects, from a queue of that length.\<close>

fun keeps_room :: "nat \<Rightarrow> nat list \<Rightarrow> bool" where
  "keeps_room q [] \<longleftrightarrow> True"
| "keeps_room q (n # ns) \<longleftrightarrow> q - n < CHANNEL_BOUND \<and> keeps_room (q - n + 1) ns"

lemma perform_all_room:
  assumes "oc_open out" and "length ns = length ms" and "keeps_room (length (oc_queue out)) ns"
  shows "\<exists>taken out'. perform_all display c (zip ns (map (TrySend c) ms)) out = Some (taken, out') \<and>
    taken @ oc_queue out' = oc_queue out @ ms"
  using assms
proof (induction ms arbitrary: ns out)
  case Nil
  then show ?case by simp
next
  case (Cons m ms)
  then obtain n ns' where ns: "ns = n # ns'" by (cases ns) auto
  let ?out = "out\<lparr>oc_queue := drop n (oc_queue out) @ [m]\<rparr>"
  have room: "length (oc_queue out) - n < CHANNEL_BOUND" using Cons.prems(3) ns by simp
  obtain taken out' where "perform_all display c (zip ns' (map (TrySend c) ms)) ?out = Some (taken, out')"
    "taken @ oc_queue out' = drop n (oc_queue out) @ [m] @ ms"
    using Cons.IH [of ?out ns'] Cons.prems ns by auto
  with room Cons.prems(1) show ?case by (auto simp: ns peer_try_send_def)
qed

text \<open>The messages of the session's routing; the other tasks that use the handle send none of them.\<close>

fun routed :: "Message \<Rightarrow> bool" where
  "routed (M_MouseMove _ _) = True"
| "routed (M_MouseMoveRelative _ _) = True"
| "routed (M_MouseButton _) = True"
| "routed (M_MouseScroll _) = True"
| "routed (M_KeyEvent _) = True"
| "routed (M_ScreenEnter _ _ _) = True"
| "routed (M_ScreenLeave _) = True"
| "routed (M_ModifierSync _) = True"
| "routed _ = False"

text \<open>
  A step of the session's tasks appends the effects of its critical section; the drain task goes on
  only when it has performed those before. A step of the connection is one of its own tasks or of the
  other users of the handle: heartbeat, replies, clipboard, files.
\<close>

inductive link_step ::
  "(try_send_error \<Rightarrow> string) \<Rightarrow> (Message \<Rightarrow> string + bytes) \<Rightarrow> (bytes \<Rightarrow> string + Message) \<Rightarrow> string \<Rightarrow>
   nat \<Rightarrow> Link \<Rightarrow> Link \<Rightarrow> bool"
  for display ser de eof c where
  session: "server_step (ln_server l) sv \<Longrightarrow> sv_log sv = sv_log (ln_server l) @ effs \<Longrightarrow>
    ln_todo l = [] \<or> sv_drain sv = sv_drain (ln_server l) \<Longrightarrow>
    link_step display ser de eof c l (l\<lparr>ln_server := sv, ln_todo := ln_todo l @ effs\<rparr>)"
| perform: "ln_todo l = e # es \<Longrightarrow> perform display c e (pl_out (ln_conn l)) = Some (Inr u, out) \<Longrightarrow>
    link_step display ser de eof c l
      (l\<lparr>ln_todo := es, ln_conn := (ln_conn l)\<lparr>pl_out := out,
           pl_accepted := pl_accepted (ln_conn l) @ messages_to c [e]\<rparr>\<rparr>)"
| refused: "ln_todo l = e # es \<Longrightarrow> perform display c e (pl_out (ln_conn l)) = Some (Inl err, out) \<Longrightarrow>
    link_step display ser de eof c l (l\<lparr>ln_todo := es, ln_lost := ln_lost l + 1\<rparr>)"
| connection: "conn_step ser de eof (ln_conn l) p \<Longrightarrow>
    filter routed (pl_accepted p) = filter routed (pl_accepted (ln_conn l)) \<Longrightarrow>
    link_step display ser de eof c l (l\<lparr>ln_conn := p\<rparr>)"

inductive_cases link_stepE: "link_step display ser de eof c l l'"

section \<open>What the channel took\<close>

lemma routed_from_input [simp]: "routed (from_input ev)"
  by (cases ev rule: from_input.cases) simp_all

lemma routed_decision: "list_all routed (messages_to c (apply_decision peers d))"
  by (cases d) (auto split: option.split)

lemma routed_forward:
  "drain_forward peers lm ev fw = (effs, lm') \<Longrightarrow> list_all routed (messages_to c effs)"
  by (auto simp: drain_forward_def split: ForwardTo.splits option.splits prod.splits if_splits)

lemma server_step_log:
  assumes "server_step s t"
  shows "\<exists>effs. sv_log t = sv_log s @ effs \<and> list_all routed (messages_to c effs)"
  using assms by cases (auto simp: routed_decision routed_forward)

text \<open>
  The effects performed so far and those to be performed make up the log; what the channel took of
  them is what was performed, less what was lost.
\<close>

definition link_inv ::
  "(Message \<Rightarrow> string + bytes) \<Rightarrow> (bytes \<Rightarrow> string + Message) \<Rightarrow> string \<Rightarrow> nat \<Rightarrow> Link \<Rightarrow> bool" where
  "link_inv ser de eof c l \<longleftrightarrow>
     conn_inv ser de eof (ln_conn l) \<and>
     list_all routed (messages_to c (sv_log (ln_server l))) \<and>
     (\<exists>done. sv_log (ln_server l) = done @ ln_todo l \<and>
        subseq (filter routed (pl_accepted (ln_conn l))) (messages_to c done) \<and>
        length (messages_to c done) = length (filter routed (pl_accepted (ln_conn l))) + ln_lost l)"

lemma messages_to_singleton: "messages_to c [e] = [] \<or> (\<exists>m. messages_to c [e] = [m])"
  by (cases e) auto

lemma perform_writer:
  assumes "perform display c e (pl_out p) = Some (Inr u, out)" and "writer_ok ser p"
  shows "writer_ok ser (p\<lparr>pl_out := out, pl_accepted := pl_accepted p @ messages_to c [e]\<rparr>)"
  using assms by (cases e) (fastforce simp: writer_ok_def peer_send_def peer_try_send_def split: if_splits)+

lemma perform_readers [simp]:
  "readers_ok de eof (p\<lparr>pl_out := out, pl_accepted := ms\<rparr>) \<longleftrightarrow> readers_ok de eof p"
  by (simp add: readers_ok_def passed_on_def)

lemma refused_message:
  assumes "perform display c e out = Some (Inl err, out')"
  shows "\<exists>m. messages_to c [e] = [m]"
  using assms by (cases e) (auto simp: peer_send_def peer_try_send_def split: if_splits)

lemma link_inv_session:
  assumes "link_inv ser de eof c l" and "server_step (ln_server l) sv"
    and "sv_log sv = sv_log (ln_server l) @ effs"
  shows "link_inv ser de eof c (l\<lparr>ln_server := sv, ln_todo := ln_todo l @ effs\<rparr>)"
proof -
  obtain effs' where "sv_log sv = sv_log (ln_server l) @ effs'" "list_all routed (messages_to c effs')"
    using server_step_log [OF assms(2)] by blast
  with assms(1,3) show ?thesis by (auto simp: link_inv_def)
qed

lemma link_inv_perform:
  assumes "link_inv ser de eof c l" and "ln_todo l = e # es"
    and "perform display c e (pl_out (ln_conn l)) = Some (Inr u, out)"
  shows "link_inv ser de eof c (l\<lparr>ln_todo := es, ln_conn := (ln_conn l)\<lparr>pl_out := out,
    pl_accepted := pl_accepted (ln_conn l) @ messages_to c [e]\<rparr>\<rparr>)"
proof -
  obtain performed where inv: "sv_log (ln_server l) = performed @ e # es"
    "subseq (filter routed (pl_accepted (ln_conn l))) (messages_to c performed)"
    "length (messages_to c performed) = length (filter routed (pl_accepted (ln_conn l))) + ln_lost l"
    using assms(1,2) by (auto simp: link_inv_def)
  have "list_all routed (messages_to c (performed @ [e] @ es))"
    using assms(1) inv(1) by (simp add: link_inv_def)
  then have e: "filter routed (messages_to c [e]) = messages_to c [e]"
    by (simp only: messages_to_append list_all_append filter_id_conv) (simp add: list_all_iff)
  have "conn_inv ser de eof ((ln_conn l)\<lparr>pl_out := out, pl_accepted := pl_accepted (ln_conn l) @ messages_to c [e]\<rparr>)"
    using assms(1) perform_writer [OF assms(3)] by (simp add: link_inv_def conn_inv_def)
  moreover have "subseq (filter routed (pl_accepted (ln_conn l)) @ messages_to c [e])
      (messages_to c (performed @ [e]))"
    using inv(2) by (simp only: messages_to_append subseq_append)
  moreover have "length (messages_to c (performed @ [e])) =
      length (filter routed (pl_accepted (ln_conn l)) @ messages_to c [e]) + ln_lost l"
    using inv(3) by (simp only: messages_to_append length_append)
  ultimately show ?thesis
    using assms(1) inv(1) e unfolding link_inv_def by (intro conjI exI [of _ "performed @ [e]"]) simp_all
qed

lemma link_inv_refused:
  assumes "link_inv ser de eof c l" and "ln_todo l = e # es"
    and "perform display c e (pl_out (ln_conn l)) = Some (Inl err, out)"
  shows "link_inv ser de eof c (l\<lparr>ln_todo := es, ln_lost := ln_lost l + 1\<rparr>)"
proof -
  obtain performed where inv: "sv_log (ln_server l) = performed @ e # es"
    "subseq (filter routed (pl_accepted (ln_conn l))) (messages_to c performed)"
    "length (messages_to c performed) = length (filter routed (pl_accepted (ln_conn l))) + ln_lost l"
    using assms(1,2) by (auto simp: link_inv_def)
  obtain m where m: "messages_to c [e] = [m]" using refused_message [OF assms(3)] by blast
  have "messages_to c (performed @ [e]) = messages_to c performed @ [m]"
    by (simp only: messages_to_append m)
  moreover from this have "subseq (filter routed (pl_accepted (ln_conn l))) (messages_to c (performed @ [e]))"
    using inv(2) by (simp add: subseq_rev_drop_many)
  ultimately show ?thesis
    using assms(1) inv by (auto simp: link_inv_def simp del: messages_to_append intro!: exI [of _ "performed @ [e]"])
qed

interpretation link: invariant_system
  "\<lambda>l. \<exists>ed control. l = link_start ed c control" "link_step display ser de eof c" "link_inv ser de eof c"
  for display ser de eof c
proof
  fix l assume "\<exists>ed control. l = link_start ed c control"
  then obtain ed control where l: "l = link_start ed c control" by blast
  have "conn_inv ser de eof (connection_start c control)" using connection.inv_start by blast
  then show "link_inv ser de eof c l"
    by (simp add: l link_inv_def link_start_def server_start_def connection_start_def)
next
  fix l l' assume inv: "link_inv ser de eof c l" and "link_step display ser de eof c l l'"
  from this(2) show "link_inv ser de eof c l'"
  proof cases
    case (session sv effs)
    then show ?thesis using link_inv_session [OF inv] by simp
  next
    case (perform e es u out)
    then show ?thesis using link_inv_perform [OF inv] by simp
  next
    case (refused e es err out)
    then show ?thesis using link_inv_refused [OF inv] by simp
  next
    case (connection p)
    then have "conn_inv ser de eof p" using inv connection.inv_step by (auto simp: link_inv_def)
    with connection inv show ?thesis by (simp add: link_inv_def)
  qed
qed

section \<open>What the client does with it\<close>

definition injection :: "inbound_effect \<Rightarrow> bool" where
  "injection eff \<longleftrightarrow> (\<exists>ev. eff = Inject ev) \<or> eff = ReleaseAllModifiers"

lemma injection_simps [simp]:
  "injection (Inject ev)" "injection ReleaseAllModifiers" "\<not> injection (Reply m)" "\<not> injection (ToClipboard m)"
  "\<not> injection (ToFileOffer f)" "\<not> injection (ToFileChunk k)"
  by (simp_all add: injection_def)

lemma injection_resync [simp]: "filter injection (resync_modifiers m) = resync_modifiers m"
  by (auto simp: resync_modifiers_def filter_id_conv)

lemma injection_step:
  "filter injection (inbound_step True m) = (if routed m then inbound_step True m else [])"
  by (cases m) simp_all

lemma injections_routed:
  "filter injection (inbound_loop True ms) = inbound_loop True (filter routed ms)"
  by (induction ms) (simp_all add: injection_step)

lemma prefix_filter: "prefix xs ys \<Longrightarrow> prefix (filter P xs) (filter P ys)"
  by (auto simp: prefix_def)

lemma prefix_inbound: "prefix ms ns \<Longrightarrow> prefix (inbound_loop c ms) (inbound_loop c ns)"
  by (auto simp: prefix_def)

lemma subseq_inbound: "subseq ms ns \<Longrightarrow> subseq (inbound_loop c ms) (inbound_loop c ns)"
  by (induction rule: list_emb.induct) (auto intro: list_emb_append_mono subseq_drop_many)

section \<open>Properties\<close>

text \<open>
  C2: At every moment of every interleaving of the session, the other users of the handle, and the
  tasks of the connection on both machines, what the client has injected is what the session's routing
  decided, in order, possibly with gaps; and while no message was refused by the channel there is no gap:
  it is an initial part of it. Nothing is ever injected that was not routed, and nothing twice.
\<close>

theorem injected_as_routed:
  assumes "(link_step display ser de eof c)\<^sup>*\<^sup>* (link_start ed c control) l"
    and "(conn_step ser de eof)\<^sup>*\<^sup>* (connection_start c' control') s"
    and "prefix control' (pl_wire (ln_conn l))" and "list_all (wire_ok ser de) (pl_accepted (ln_conn l))"
    and "injected = filter injection (inbound_loop True (from_stream 0 (pl_handled s)))"
    and "decided = inbound_loop True (messages_to c (sv_log (ln_server l)))"
  shows "subseq injected decided \<and> (ln_lost l = 0 \<longrightarrow> prefix injected decided)"
proof -
  have inv: "link_inv ser de eof c l" using link.inv_reachable assms(1) by blast
  have "prefix (from_stream 0 (pl_handled s)) (pl_accepted (ln_conn l))"
    using inv consumed_prefix [OF assms(2) _ assms(3,4)] by (simp add: link_inv_def conn_inv_def)
  then have taken: "prefix injected (inbound_loop True (filter routed (pl_accepted (ln_conn l))))"
    unfolding assms(5) injections_routed by (intro prefix_inbound prefix_filter)
  obtain performed where p: "sv_log (ln_server l) = performed @ ln_todo l"
    "subseq (filter routed (pl_accepted (ln_conn l))) (messages_to c performed)"
    "length (messages_to c performed) = length (filter routed (pl_accepted (ln_conn l))) + ln_lost l"
    using inv by (auto simp: link_inv_def)
  have all: "prefix (inbound_loop True (messages_to c performed)) decided"
    by (simp add: assms(6) p(1))
  have "subseq injected decided"
    using subseq_order.order_trans [OF prefix_imp_subseq [OF taken]]
      subseq_order.order_trans [OF subseq_inbound [OF p(2)] prefix_imp_subseq [OF all]] by blast
  moreover have "prefix injected decided" if "ln_lost l = 0"
    using subseq_same_length [OF p(2)] p(3) that prefix_order.trans [OF taken] all by simp
  ultimately show ?thesis by blast
qed

section \<open>A full channel\<close>

lemma link_quiet:
  assumes "server_step (ln_server l) sv" and "sv_log sv = sv_log (ln_server l)" and "ln_todo l = []"
  shows "link_step display ser de eof c l (l\<lparr>ln_server := sv\<rparr>)"
proof -
  have "l\<lparr>ln_server := sv, ln_todo := ln_todo l @ []\<rparr> = l\<lparr>ln_server := sv\<rparr>" by (cases l) simp
  moreover have "link_step display ser de eof c l (l\<lparr>ln_server := sv, ln_todo := ln_todo l @ []\<rparr>)"
    by (rule link_step.session) (use assms in simp_all)
  ultimately show ?thesis by (simp only:)
qed

text \<open>An event on the remote route that is no position: the drain task comes to its \<open>try_send\<close>.\<close>

lemma link_captured:
  assumes "sv_drain (ln_server l) = DIdle" and "ln_todo l = []" and "sv_peers (ln_server l) = h # hs"
    and "ed_route (sv_edge (ln_server l)) = Remote s" and "\<not> is_emergency ev" and "move_target ev = None"
  shows "\<exists>sv. (link_step display ser de eof c)\<^sup>*\<^sup>* l
      (l\<lparr>ln_server := sv, ln_todo := [TrySend (ph_chan h) (from_input ev)]\<rparr>) \<and>
    sv_drain sv = DIdle \<and> sv_peers sv = h # hs \<and> ed_route (sv_edge sv) = Remote s \<and>
    sv_log sv = sv_log (ln_server l) @ [TrySend (ph_chan h) (from_input ev)]"
proof -
  let ?s0 = "ln_server l"
  obtain ed where ed: "edge_observe (sv_edge ?s0) ev = ((Stay, FwdRemote), ed)" "ed_route ed = Remote s"
    using observe_remote [OF assms(4), of ev] by blast
  let ?s1 = "?s0\<lparr>sv_edge := ed, sv_last_mouse := sv_last_mouse ?s0, sv_drain := DDecided ev Stay (Some FwdRemote)\<rparr>"
  let ?s2 = "?s1\<lparr>sv_drain := DForward ev FwdRemote\<rparr>"
  let ?e = "TrySend (ph_chan h) (from_input ev)"
  let ?s3 = "?s2\<lparr>sv_log := sv_log ?s0 @ [?e], sv_last_mouse := sv_last_mouse ?s0, sv_drain := DIdle\<rparr>"
  have "server_step ?s0 ?s1"
    using server_step.observe [OF assms(1), of ev Stay "Some FwdRemote" "\<lparr>ds_edge = ed, ds_last_mouse = sv_last_mouse ?s0\<rparr>"]
    by (simp add: drain_observe_def assms(5) ed(1))
  then have 1: "link_step display ser de eof c l (l\<lparr>ln_server := ?s1\<rparr>)"
    using assms(2) by (intro link_quiet) simp_all
  have "server_step ?s1 ?s2"
    using server_step.decide [of ?s1 ev Stay "Some FwdRemote" "[]"] by simp
  then have 2: "link_step display ser de eof c (l\<lparr>ln_server := ?s1\<rparr>) (l\<lparr>ln_server := ?s2\<rparr>)"
    using link_quiet [of "l\<lparr>ln_server := ?s1\<rparr>" ?s2] assms(2) by simp
  have "server_step ?s2 ?s3"
    using server_step.forward [of ?s2 ev FwdRemote "[?e]" "sv_last_mouse ?s0"] assms(3,6)
    by (simp add: drain_forward_def)
  then have "link_step display ser de eof c (l\<lparr>ln_server := ?s2\<rparr>) (l\<lparr>ln_server := ?s3, ln_todo := [?e]\<rparr>)"
    using link_step.session [of "l\<lparr>ln_server := ?s2\<rparr>" ?s3 "[?e]"] assms(2) by simp
  with 1 2 have "(link_step display ser de eof c)\<^sup>*\<^sup>* l (l\<lparr>ln_server := ?s3, ln_todo := [?e]\<rparr>)"
    by (meson converse_rtranclp_into_rtranclp rtranclp.rtrancl_refl)
  with ed(2) assms(3) show ?thesis by (intro exI [of _ ?s3]) simp
qed

text \<open>While the channel is full, every such event is lost, and nothing but the count remembers it.\<close>

lemma full_channel_loses_input:
  assumes "sv_drain (ln_server l) = DIdle" and "ln_todo l = []" and "sv_peers (ln_server l) = h # hs"
    and "ed_route (sv_edge (ln_server l)) = Remote s" and "\<not> is_emergency ev" and "move_target ev = None"
    and "length (oc_queue (pl_out (ln_conn l))) = CHANNEL_BOUND"
  shows "\<exists>l'. (link_step display ser de eof (ph_chan h))\<^sup>*\<^sup>* l l' \<and>
    sv_log (ln_server l') = sv_log (ln_server l) @ [TrySend (ph_chan h) (from_input ev)] \<and>
    ln_todo l' = [] \<and> ln_conn l' = ln_conn l \<and> ln_lost l' = ln_lost l + 1"
proof -
  obtain sv where sv: "(link_step display ser de eof (ph_chan h))\<^sup>*\<^sup>* l
      (l\<lparr>ln_server := sv, ln_todo := [TrySend (ph_chan h) (from_input ev)]\<rparr>)"
    "sv_log sv = sv_log (ln_server l) @ [TrySend (ph_chan h) (from_input ev)]"
    using link_captured [OF assms(1-6)] by blast
  let ?l1 = "l\<lparr>ln_server := sv, ln_todo := [TrySend (ph_chan h) (from_input ev)]\<rparr>"
  let ?l2 = "?l1\<lparr>ln_todo := [], ln_lost := ln_lost l + 1\<rparr>"
  obtain err where "peer_try_send display (from_input ev) (pl_out (ln_conn l)) = (Inl err, pl_out (ln_conn l))"
    using assms(7) by (cases "oc_open (pl_out (ln_conn l))") (simp_all add: peer_try_send_def)
  then have "link_step display ser de eof (ph_chan h) ?l1 ?l2"
    using link_step.refused [of ?l1 "TrySend (ph_chan h) (from_input ev)" "[]" display "ph_chan h" err
      "pl_out (ln_conn l)"] by simp
  with sv(1) have "(link_step display ser de eof (ph_chan h))\<^sup>*\<^sup>* l ?l2" by (rule rtranclp.rtrancl_into_rtrancl)
  with sv(2) show ?thesis by (intro exI [of _ ?l2]) simp
qed

text \<open>With room the event is taken.\<close>

lemma open_channel_takes_input:
  assumes "sv_drain (ln_server l) = DIdle" and "ln_todo l = []" and "sv_peers (ln_server l) = h # hs"
    and "ed_route (sv_edge (ln_server l)) = Remote s" and "\<not> is_emergency ev" and "move_target ev = None"
    and "oc_open (pl_out (ln_conn l))" and "length (oc_queue (pl_out (ln_conn l))) < CHANNEL_BOUND"
  shows "\<exists>sv. (link_step display ser de eof (ph_chan h))\<^sup>*\<^sup>* l
      (l\<lparr>ln_server := sv, ln_todo := [], ln_conn := (ln_conn l)\<lparr>
         pl_out := (pl_out (ln_conn l))\<lparr>oc_queue := oc_queue (pl_out (ln_conn l)) @ [from_input ev]\<rparr>,
         pl_accepted := pl_accepted (ln_conn l) @ [from_input ev]\<rparr>\<rparr>) \<and>
    sv_drain sv = DIdle \<and> sv_peers sv = h # hs \<and> ed_route (sv_edge sv) = Remote s \<and>
    sv_log sv = sv_log (ln_server l) @ [TrySend (ph_chan h) (from_input ev)]"
proof -
  let ?e = "TrySend (ph_chan h) (from_input ev)"
  obtain sv where sv: "(link_step display ser de eof (ph_chan h))\<^sup>*\<^sup>* l (l\<lparr>ln_server := sv, ln_todo := [?e]\<rparr>)"
    "sv_drain sv = DIdle" "sv_peers sv = h # hs" "ed_route (sv_edge sv) = Remote s"
    "sv_log sv = sv_log (ln_server l) @ [?e]"
    using link_captured [OF assms(1-6)] by blast
  have "link_step display ser de eof (ph_chan h) (l\<lparr>ln_server := sv, ln_todo := [?e]\<rparr>)
      (l\<lparr>ln_server := sv, ln_todo := [], ln_conn := (ln_conn l)\<lparr>
         pl_out := (pl_out (ln_conn l))\<lparr>oc_queue := oc_queue (pl_out (ln_conn l)) @ [from_input ev]\<rparr>,
         pl_accepted := pl_accepted (ln_conn l) @ [from_input ev]\<rparr>\<rparr>)"
    using link_step.perform [of "l\<lparr>ln_server := sv, ln_todo := [?e]\<rparr>" ?e "[]" display "ph_chan h" "()"]
      assms(7,8) by (simp add: peer_try_send_def)
  with sv show ?thesis by (blast intro: rtranclp.rtrancl_into_rtrancl)
qed

text \<open>While the writer waits for the network, captured input fills what room there is.\<close>

lemma input_fills_channel:
  assumes "sv_drain (ln_server l) = DIdle" and "ln_todo l = []" and "sv_peers (ln_server l) = h # hs"
    and "ed_route (sv_edge (ln_server l)) = Remote s" and "\<not> is_emergency ev" and "move_target ev = None"
    and "pl_out (ln_conn l) = \<lparr>oc_queue = q, oc_open = True\<rparr>" and "length q + n \<le> CHANNEL_BOUND"
  shows "\<exists>sv. (link_step display ser de eof (ph_chan h))\<^sup>*\<^sup>* l
      (l\<lparr>ln_server := sv, ln_todo := [], ln_conn := (ln_conn l)\<lparr>
         pl_out := \<lparr>oc_queue = q @ replicate n (from_input ev), oc_open = True\<rparr>,
         pl_accepted := pl_accepted (ln_conn l) @ replicate n (from_input ev)\<rparr>\<rparr>) \<and>
    sv_drain sv = DIdle \<and> sv_peers sv = h # hs \<and> ed_route (sv_edge sv) = Remote s \<and>
    sv_log sv = sv_log (ln_server l) @ replicate n (TrySend (ph_chan h) (from_input ev))"
  using assms
proof (induction n arbitrary: l q)
  case 0
  then have same: "l\<lparr>ln_todo := [], ln_conn := (ln_conn l)\<lparr>pl_out := \<lparr>oc_queue = q, oc_open = True\<rparr>\<rparr>\<rparr> = l"
    by (intro Link.equality PeerLoop.equality) simp_all
  show ?case using 0(1,3,4) by (intro exI [of _ "ln_server l"]) (simp add: same)
next
  case (Suc n)
  let ?c = "(ln_conn l)\<lparr>pl_out := \<lparr>oc_queue = q @ [from_input ev], oc_open = True\<rparr>,
     pl_accepted := pl_accepted (ln_conn l) @ [from_input ev]\<rparr>"
  obtain sv where sv: "(link_step display ser de eof (ph_chan h))\<^sup>*\<^sup>* l (l\<lparr>ln_server := sv, ln_todo := [], ln_conn := ?c\<rparr>)"
    "sv_drain sv = DIdle" "sv_peers sv = h # hs" "ed_route (sv_edge sv) = Remote s"
    "sv_log sv = sv_log (ln_server l) @ [TrySend (ph_chan h) (from_input ev)]"
    using open_channel_takes_input [OF Suc.prems(1-6), of display ser de eof] Suc.prems(7,8) by auto
  from Suc.IH [of "l\<lparr>ln_server := sv, ln_todo := [], ln_conn := ?c\<rparr>" "q @ [from_input ev]"] sv Suc.prems(5,6,8)
  obtain sv' where "(link_step display ser de eof (ph_chan h))\<^sup>*\<^sup>* (l\<lparr>ln_server := sv, ln_todo := [], ln_conn := ?c\<rparr>)
      (l\<lparr>ln_server := sv', ln_todo := [], ln_conn := (ln_conn l)\<lparr>
         pl_out := \<lparr>oc_queue = q @ replicate (Suc n) (from_input ev), oc_open = True\<rparr>,
         pl_accepted := pl_accepted (ln_conn l) @ replicate (Suc n) (from_input ev)\<rparr>\<rparr>)"
    "sv_drain sv' = DIdle" "sv_peers sv' = h # hs" "ed_route (sv_edge sv') = Remote s"
    "sv_log sv' = sv_log (ln_server l) @ replicate (Suc n) (TrySend (ph_chan h) (from_input ev))"
    by auto
  with sv(1) show ?case by (intro exI [of _ sv']) (auto intro: rtranclp_trans)
qed

text \<open>A run from the start: a peer connects and the pointer crosses the left edge.\<close>

definition plain_edge :: EdgeDetector where
  "plain_edge = edge_new (ScreenId 0) 1920 1080 layout_default"

definition crossing_effects :: "effect list" where
  "crossing_effects =
     [Send 0 (M_ScreenEnter 32000 500 mod_empty), WarpCursor (mk_point 2 540), SetCapturing True]"

definition crossed :: "bytes \<Rightarrow> Link" where
  "crossed control =
     \<lparr>ln_server =
        \<lparr>sv_edge = sample_edge\<lparr>ed_last_point := mk_point 0 500, ed_route := Remote (ScreenId 1)\<rparr>,
         sv_last_mouse = Some (mk_point 0 500), sv_peers = [sample_peer], sv_capturing = True,
         sv_log = crossing_effects, sv_drain = DIdle, sv_peer = PIdle\<rparr>,
      ln_todo = [],
      ln_conn = (connection_start 0 control)\<lparr>
        pl_out := \<lparr>oc_queue = [M_ScreenEnter 32000 500 mod_empty], oc_open = True\<rparr>,
        pl_accepted := [M_ScreenEnter 32000 500 mod_empty]\<rparr>,
      ln_lost = 0\<rparr>"

lemma link_local:
  assumes "ln_todo l = e # es" and "messages_to 0 [e] = []"
  shows "link_step display ser de eof 0 l (l\<lparr>ln_todo := es\<rparr>)"
proof -
  have "perform display 0 e (pl_out (ln_conn l)) = Some (Inr (), pl_out (ln_conn l))"
    using assms(2) by (cases e) (simp_all split: if_splits)
  from link_step.perform [OF assms(1) this] assms(2) show ?thesis by simp
qed

lemma crossing_performed:
  assumes "ln_todo l = crossing_effects" and "ln_conn l = connection_start 0 control"
  shows "(link_step display ser de eof 0)\<^sup>*\<^sup>* l
    (l\<lparr>ln_todo := [], ln_conn := (connection_start 0 control)\<lparr>
       pl_out := \<lparr>oc_queue = [M_ScreenEnter 32000 500 mod_empty], oc_open = True\<rparr>,
       pl_accepted := [M_ScreenEnter 32000 500 mod_empty]\<rparr>\<rparr>)"
proof -
  let ?l1 = "l\<lparr>ln_todo := [WarpCursor (mk_point 2 540), SetCapturing True], ln_conn := (connection_start 0 control)\<lparr>
     pl_out := \<lparr>oc_queue = [M_ScreenEnter 32000 500 mod_empty], oc_open = True\<rparr>,
     pl_accepted := [M_ScreenEnter 32000 500 mod_empty]\<rparr>\<rparr>"
  have "link_step display ser de eof 0 l ?l1"
    using assms link_step.perform [of l "Send 0 (M_ScreenEnter 32000 500 mod_empty)"
      "[WarpCursor (mk_point 2 540), SetCapturing True]" display 0 "()" "pl_out (ln_conn ?l1)" ser de eof]
    by (simp add: crossing_effects_def connection_start_def peer_send_def CHANNEL_BOUND_def)
  moreover have "link_step display ser de eof 0 ?l1 (?l1\<lparr>ln_todo := [SetCapturing True]\<rparr>)"
    by (rule link_local [where e = "WarpCursor (mk_point 2 540)"]) simp_all
  moreover have "link_step display ser de eof 0 (?l1\<lparr>ln_todo := [SetCapturing True]\<rparr>) (?l1\<lparr>ln_todo := []\<rparr>)"
    using link_local [of "?l1\<lparr>ln_todo := [SetCapturing True]\<rparr>"] by simp
  ultimately have "(link_step display ser de eof 0)\<^sup>*\<^sup>* l (?l1\<lparr>ln_todo := []\<rparr>)"
    by (meson converse_rtranclp_into_rtranclp rtranclp.rtrancl_refl)
  then show ?thesis by (cases l) simp
qed

lemma crossed_reachable:
  "(link_step display ser de eof 0)\<^sup>*\<^sup>* (link_start plain_edge 0 control) (crossed control)"
proof -
  let ?ev = "Mouse (MoveAbs 0 500)"
  let ?d = "EnterRemote (ScreenId 1) (mk_point 32000 500) (mk_point 2 540) mod_empty"
  let ?ed = "sample_edge\<lparr>ed_last_point := mk_point 0 500, ed_route := Remote (ScreenId 1)\<rparr>"
  let ?l0 = "link_start plain_edge 0 control"
  let ?s1 = "(server_start plain_edge)\<lparr>sv_peers := [sample_peer], sv_peer := PConnected\<rparr>"
  let ?s2 = "?s1\<lparr>sv_edge := sample_edge, sv_peer := PIdle\<rparr>"
  let ?s3 = "?s2\<lparr>sv_edge := ?ed, sv_last_mouse := None, sv_drain := DDecided ?ev ?d (Some FwdRemote)\<rparr>"
  let ?s4 = "?s3\<lparr>sv_log := crossing_effects, sv_capturing := True, sv_drain := DForward ?ev FwdRemote\<rparr>"
  let ?s5 = "?s4\<lparr>sv_last_mouse := Some (mk_point 0 500), sv_drain := DIdle\<rparr>"
  let ?q = "\<lparr>oc_queue = [M_ScreenEnter 32000 500 mod_empty], oc_open = True\<rparr>"
  let ?p = "(connection_start 0 control)\<lparr>pl_out := ?q, pl_accepted := [M_ScreenEnter 32000 500 mod_empty]\<rparr>"
  have "server_step (server_start plain_edge) ?s1"
    using server_step.connect [of "server_start plain_edge" sample_peer] by (simp add: server_start_def)
  then have 1: "link_step display ser de eof 0 ?l0 (?l0\<lparr>ln_server := ?s1\<rparr>)"
    by (intro link_quiet) (simp_all add: link_start_def)
  have "server_step ?s1 ?s2"
    using server_step.connected [of ?s1] by (simp add: server_start_def plain_edge_def sample_edge_def)
  then have 2: "link_step display ser de eof 0 (?l0\<lparr>ln_server := ?s1\<rparr>) (?l0\<lparr>ln_server := ?s2\<rparr>)"
    using link_quiet [of "?l0\<lparr>ln_server := ?s1\<rparr>" ?s2] by (simp add: link_start_def)
  have "server_step ?s2 ?s3"
    using server_step.observe [of ?s2 ?ev ?d "Some FwdRemote" "\<lparr>ds_edge = ?ed, ds_last_mouse = None\<rparr>"]
    by (simp add: server_start_def drain_observe_normal sample_observe_crossing)
  then have 3: "link_step display ser de eof 0 (?l0\<lparr>ln_server := ?s2\<rparr>) (?l0\<lparr>ln_server := ?s3\<rparr>)"
    using link_quiet [of "?l0\<lparr>ln_server := ?s2\<rparr>" ?s3] by (simp add: link_start_def)
  have "server_step ?s3 ?s4"
    using server_step.decide [of ?s3 ?ev ?d "Some FwdRemote" crossing_effects]
    by (simp add: crossing_effects_def server_start_def sample_peer_def)
  then have 4: "link_step display ser de eof 0 (?l0\<lparr>ln_server := ?s3\<rparr>)
      (?l0\<lparr>ln_server := ?s4, ln_todo := crossing_effects\<rparr>)"
    using link_step.session [of "?l0\<lparr>ln_server := ?s3\<rparr>" ?s4 crossing_effects]
    by (simp add: link_start_def server_start_def)
  have 5: "(link_step display ser de eof 0)\<^sup>*\<^sup>* (?l0\<lparr>ln_server := ?s4, ln_todo := crossing_effects\<rparr>)
      (?l0\<lparr>ln_server := ?s4, ln_todo := [], ln_conn := ?p\<rparr>)"
    using crossing_performed [of "?l0\<lparr>ln_server := ?s4, ln_todo := crossing_effects\<rparr>" control display ser de eof]
    by (simp add: link_start_def connection_start_def)
  have "server_step ?s4 ?s5"
    using server_step.forward [of ?s4 ?ev FwdRemote "[]" "Some (mk_point 0 500)"]
    by (simp add: drain_forward_def move_delta_def move_target_def sample_peer_def server_start_def)
  then have "link_step display ser de eof 0 (?l0\<lparr>ln_server := ?s4, ln_todo := [], ln_conn := ?p\<rparr>)
      (?l0\<lparr>ln_server := ?s5, ln_todo := [], ln_conn := ?p\<rparr>)"
    using link_quiet [of "?l0\<lparr>ln_server := ?s4, ln_todo := [], ln_conn := ?p\<rparr>" ?s5] by (simp add: link_start_def)
  moreover have "?l0\<lparr>ln_server := ?s5, ln_todo := [], ln_conn := ?p\<rparr> = crossed control"
    by (simp add: link_start_def crossed_def server_start_def)
  ultimately have "link_step display ser de eof 0 (?l0\<lparr>ln_server := ?s4, ln_todo := [], ln_conn := ?p\<rparr>)
      (crossed control)" by simp
  with 5 have "(link_step display ser de eof 0)\<^sup>*\<^sup>* (?l0\<lparr>ln_server := ?s4, ln_todo := crossing_effects\<rparr>) (crossed control)"
    by (rule rtranclp.rtrancl_into_rtrancl)
  with 1 2 3 4 show ?thesis by (meson converse_rtranclp_into_rtranclp)
qed

text \<open>
  The channel filled up: after the crossing a key is pressed and the wheel is turned 254 times before the
  writer takes anything.
\<close>

definition press_of :: "KeyCode \<Rightarrow> KeyState \<Rightarrow> KeyEvent" where
  "press_of code state = \<lparr>ke_code = code, ke_state = state, ke_modifiers = mod_empty, ke_character = None\<rparr>"

definition wheel_turn :: InputEvent where
  "wheel_turn = Mouse (MScroll \<lparr>sd_horizontal = 0, sd_vertical = 120\<rparr>)"

definition full_queue :: "KeyCode \<Rightarrow> Message list" where
  "full_queue code = M_ScreenEnter 32000 500 mod_empty # M_KeyEvent (press_of code Pressed) #
     replicate 254 (from_input wheel_turn)"

lemma sample_input [simp]:
  "ke_modifiers (press_of code state) = mod_empty" "\<not> mod_contains mod_empty MOD_SHIFT"
  "move_target (Key (press_of code state)) = None" "\<not> is_emergency wheel_turn" "move_target wheel_turn = None"
  by (simp_all add: press_of_def wheel_turn_def mod_contains_def mod_empty_def mod_flag_defs move_target_def)

lemma full_channel_reachable:
  "\<exists>sv. (link_step display ser de eof 0)\<^sup>*\<^sup>* (link_start plain_edge 0 control)
       (crossed control\<lparr>ln_server := sv, ln_todo := [], ln_conn := (ln_conn (crossed control))\<lparr>
          pl_out := \<lparr>oc_queue = full_queue code, oc_open = True\<rparr>, pl_accepted := full_queue code\<rparr>\<rparr>) \<and>
     sv_drain sv = DIdle \<and> sv_peers sv = [sample_peer] \<and> ed_route (sv_edge sv) = Remote (ScreenId 1) \<and>
     sv_log sv = crossing_effects @ TrySend 0 (M_KeyEvent (press_of code Pressed)) #
       replicate 254 (TrySend 0 (from_input wheel_turn))"
proof -
  let ?press = "Key (press_of code Pressed)"
  let ?queue = "[M_ScreenEnter 32000 500 mod_empty, M_KeyEvent (press_of code Pressed)]"
  let ?l1 = "crossed control"
  have l1: "sv_drain (ln_server ?l1) = DIdle" "ln_todo ?l1 = []" "sv_peers (ln_server ?l1) = [sample_peer]"
    "ed_route (sv_edge (ln_server ?l1)) = Remote (ScreenId 1)" "pl_handles (ln_conn ?l1)"
    "pl_out (ln_conn ?l1) = \<lparr>oc_queue = [M_ScreenEnter 32000 500 mod_empty], oc_open = True\<rparr>"
    "pl_accepted (ln_conn ?l1) = [M_ScreenEnter 32000 500 mod_empty]"
    "sv_log (ln_server ?l1) = crossing_effects" "ph_chan sample_peer = 0"
    by (simp_all add: crossed_def connection_start_def sample_peer_def)
  obtain sv where sv: "(link_step display ser de eof 0)\<^sup>*\<^sup>* ?l1
      (?l1\<lparr>ln_server := sv, ln_todo := [], ln_conn := (ln_conn ?l1)\<lparr>
         pl_out := \<lparr>oc_queue = ?queue, oc_open = True\<rparr>, pl_accepted := ?queue\<rparr>\<rparr>)"
    "sv_drain sv = DIdle" "sv_peers sv = [sample_peer]" "ed_route (sv_edge sv) = Remote (ScreenId 1)"
    "sv_log sv = crossing_effects @ [TrySend 0 (M_KeyEvent (press_of code Pressed))]"
    using open_channel_takes_input [OF l1(1-4), of ?press display ser de eof] l1
    by (auto simp: CHANNEL_BOUND_def)
  let ?l2 = "?l1\<lparr>ln_server := sv, ln_todo := [], ln_conn := (ln_conn ?l1)\<lparr>
     pl_out := \<lparr>oc_queue = ?queue, oc_open = True\<rparr>, pl_accepted := ?queue\<rparr>\<rparr>"
  obtain sw where sw: "(link_step display ser de eof 0)\<^sup>*\<^sup>* ?l2
      (?l1\<lparr>ln_server := sw, ln_todo := [], ln_conn := (ln_conn ?l1)\<lparr>
         pl_out := \<lparr>oc_queue = full_queue code, oc_open = True\<rparr>, pl_accepted := full_queue code\<rparr>\<rparr>)"
    "sv_drain sw = DIdle" "sv_peers sw = [sample_peer]" "ed_route (sv_edge sw) = Remote (ScreenId 1)"
    "sv_log sw = sv_log sv @ replicate 254 (TrySend 0 (from_input wheel_turn))"
    using input_fills_channel [of ?l2 sample_peer "[]" "ScreenId 1" wheel_turn ?queue 254 display ser de eof]
      sv(2-4) l1(9) by (auto simp del: from_input.simps simp: CHANNEL_BOUND_def full_queue_def)
  have "(link_step display ser de eof 0)\<^sup>*\<^sup>* (link_start plain_edge 0 control)
      (?l1\<lparr>ln_server := sw, ln_todo := [], ln_conn := (ln_conn ?l1)\<lparr>
         pl_out := \<lparr>oc_queue = full_queue code, oc_open = True\<rparr>, pl_accepted := full_queue code\<rparr>\<rparr>)"
    using crossed_reachable sv(1) sw(1) by (meson rtranclp_trans)
  with sw(2-5) sv(5) show ?thesis by (intro exI [of _ sw]) simp
qed

lemma wheel_holds_nothing [simp]:
  "held_after H (inbound_loop True (replicate n (from_input wheel_turn))) = H"
  by (induction n) (simp_all add: wheel_turn_def)

lemma messages_to_replicate [simp]: "messages_to c (replicate n (TrySend c m)) = replicate n m"
  by (induction n) simp_all

text \<open>The writer, with a stream that takes everything, empties the channel.\<close>

lemma writer_empties_queue:
  assumes "pl_out (ln_conn l) = \<lparr>oc_queue = ms, oc_open = True\<rparr>" and "list_all (wire_ok ser de) ms"
  shows "(link_step display ser de eof c)\<^sup>*\<^sup>* l
    (l\<lparr>ln_conn := (ln_conn l)\<lparr>pl_out := \<lparr>oc_queue = [], oc_open = True\<rparr>,
       pl_wire := pl_wire (ln_conn l) @ write_loop ser ms\<rparr>\<rparr>)"
  using assms
proof (induction ms arbitrary: l)
  case Nil
  then have "l\<lparr>ln_conn := (ln_conn l)\<lparr>pl_out := \<lparr>oc_queue = [], oc_open = True\<rparr>, pl_wire := pl_wire (ln_conn l)\<rparr>\<rparr> = l"
    by (intro Link.equality PeerLoop.equality) simp_all
  then show ?case by simp
next
  case (Cons m ms)
  obtain bs where bs: "message_bytes ser m = Ok bs" using stream.wr_sendable Cons.prems(2) by fastforce
  let ?p = "(ln_conn l)\<lparr>pl_out := \<lparr>oc_queue = ms, oc_open = True\<rparr>, pl_wire := pl_wire (ln_conn l) @ bs\<rparr>"
  have "conn_step ser de eof (ln_conn l) ?p"
    using conn_step.write_msg [of "ln_conn l" m ms write_everything ser "pl_wire (ln_conn l) @ bs" de eof]
      Cons.prems(1) bs by simp
  then have 1: "link_step display ser de eof c l (l\<lparr>ln_conn := ?p\<rparr>)"
    by (rule link_step.connection) simp
  have "(link_step display ser de eof c)\<^sup>*\<^sup>* (l\<lparr>ln_conn := ?p\<rparr>)
      (l\<lparr>ln_conn := (ln_conn l)\<lparr>pl_out := \<lparr>oc_queue = [], oc_open = True\<rparr>,
         pl_wire := pl_wire (ln_conn l) @ write_loop ser (m # ms)\<rparr>\<rparr>)"
    using Cons.IH [of "l\<lparr>ln_conn := ?p\<rparr>"] Cons.prems(2) bs by simp
  with 1 show ?case by (rule converse_rtranclp_into_rtranclp)
qed

text \<open>
  C3: A lost release leaves a key down. Whatever the key, if the messages in question can be encoded and
  read back: a run from the start leads to a state in which the key was pressed and released and both were
  routed to the client, one message was refused, and the writer has written all that the channel took; and
  the client, reading what is on the wire, comes to a state in which it has consumed all of it and holds
  the key: the release met a channel that 254 turns of the wheel had filled, and nothing repeats it. The
  connection is up on both sides.
\<close>

theorem lost_release_leaves_key_down:
  assumes "list_all (wire_ok ser de) (full_queue code)"
  shows "\<exists>l s. (link_step display ser de eof 0)\<^sup>*\<^sup>* (link_start plain_edge 0 control) l \<and>
     (conn_step ser de eof)\<^sup>*\<^sup>* (connection_start c' (pl_wire (ln_conn l))) s \<and>
     ln_todo l = [] \<and> ln_lost l = 1 \<and> pl_out (ln_conn l) = \<lparr>oc_queue = [], oc_open = True\<rparr> \<and>
     from_stream 0 (pl_handled s) = pl_accepted (ln_conn l) \<and> pl_phase s = InLoop \<and> pl_listening s \<and>
     held_after {} (inbound_loop True (messages_to 0 (sv_log (ln_server l)))) = {} \<and>
     held_after {} (inbound_loop True (from_stream 0 (pl_handled s))) = {code}"
proof -
  let ?release = "press_of code Released"
  let ?q = "full_queue code"
  obtain sv l3 where l3: "(link_step display ser de eof 0)\<^sup>*\<^sup>* (link_start plain_edge 0 control) l3"
    "l3 = crossed control\<lparr>ln_server := sv, ln_todo := [], ln_conn := (ln_conn (crossed control))\<lparr>
       pl_out := \<lparr>oc_queue = ?q, oc_open = True\<rparr>, pl_accepted := ?q\<rparr>\<rparr>"
    "sv_drain sv = DIdle" "sv_peers sv = [sample_peer]" "ed_route (sv_edge sv) = Remote (ScreenId 1)"
    "sv_log sv = crossing_effects @ TrySend 0 (M_KeyEvent (press_of code Pressed)) #
       replicate 254 (TrySend 0 (from_input wheel_turn))"
    using full_channel_reachable [of display ser de eof control code] by auto
  have "ln_lost (crossed control) = 0" "ph_chan sample_peer = 0" "length ?q = CHANNEL_BOUND"
    by (simp_all add: crossed_def sample_peer_def full_queue_def CHANNEL_BOUND_def)
  then obtain l4 where l4: "(link_step display ser de eof 0)\<^sup>*\<^sup>* l3 l4"
    "sv_log (ln_server l4) = sv_log sv @ [TrySend 0 (M_KeyEvent ?release)]" "ln_todo l4 = []"
    "ln_conn l4 = ln_conn l3" "ln_lost l4 = 1"
    using full_channel_loses_input [of l3 sample_peer "[]" "ScreenId 1" "Key ?release" display ser de eof] l3(2-5)
    by auto
  let ?l = "l4\<lparr>ln_conn := (ln_conn l4)\<lparr>pl_out := \<lparr>oc_queue = [], oc_open = True\<rparr>,
     pl_wire := pl_wire (ln_conn l4) @ write_loop ser ?q\<rparr>\<rparr>"
  have conn: "pl_out (ln_conn l4) = \<lparr>oc_queue = ?q, oc_open = True\<rparr>" "pl_wire (ln_conn l4) = []"
    "pl_accepted (ln_conn l4) = ?q"
    by (simp_all add: l4(4) l3(2) crossed_def connection_start_def)
  from writer_empties_queue [OF conn(1) assms]
  have run: "(link_step display ser de eof 0)\<^sup>*\<^sup>* (link_start plain_edge 0 control) ?l"
    using rtranclp_trans [OF rtranclp_trans [OF l3(1) l4(1)]] by blast
  let ?s0 = "connection_start c' (write_loop ser ?q)"
  obtain r' where client: "(conn_step ser de eof)\<^sup>*\<^sup>* ?s0
      (?s0\<lparr>pl_readers := [r'], pl_handled := pl_handled ?s0 @ map (Pair 0) ?q\<rparr>)"
    using control_reader_goes_on [of ?s0 "new_reader (write_loop ser ?q)" "[]" eof de ?q "[]" ser]
      read_write_loop_append [OF assms, of eof "[]"]
    by (auto simp: connection_start_def new_reader_def read_loop_Nil)
  let ?s = "?s0\<lparr>pl_readers := [r'], pl_handled := pl_handled ?s0 @ map (Pair 0) ?q\<rparr>"
  have "from_stream 0 (map (Pair 0) ms) = ms" for ms :: "Message list" by (induction ms) simp_all
  then have handled: "from_stream 0 (pl_handled ?s) = ?q" by (simp add: connection_start_def)
  have "held_after {} (inbound_loop True (messages_to 0 (sv_log (ln_server l4)))) = {}"
    and "held_after {} (inbound_loop True ?q) = {code}"
    by (simp_all add: l4(2) l3(6) crossing_effects_def full_queue_def press_of_def held_after_resync
        del: from_input.simps)
  then show ?thesis
    using run client handled l4(3,5) conn(2,3)
    by (intro exI [of _ ?l] exI [of _ ?s]) (simp add: connection_start_def)
qed

theorem lost_release_leaves_key_down_witness:
  "let code = K_Letter K_A;
       ms = [M_ScreenEnter 32000 500 mod_empty, M_KeyEvent (press_of code Pressed), from_input wheel_turn]
   in \<exists>l s. (link_step (\<lambda>_. ''full'') (table_ser ms) (table_de ms) ''eof'' 0)\<^sup>*\<^sup>* (link_start plain_edge 0 []) l \<and>
     (conn_step (table_ser ms) (table_de ms) ''eof'')\<^sup>*\<^sup>* (connection_start 1 (pl_wire (ln_conn l))) s \<and>
     held_after {} (inbound_loop True (from_stream 0 (pl_handled s))) = {code}"
proof -
  let ?code = "K_Letter K_A"
  let ?ms = "[M_ScreenEnter 32000 500 mod_empty, M_KeyEvent (press_of ?code Pressed), from_input wheel_turn]"
  have "set (full_queue ?code) \<subseteq> set ?ms" by (auto simp: full_queue_def simp del: from_input.simps)
  then have ok: "list_all (wire_ok (table_ser ?ms) (table_de ?ms)) (full_queue ?code)"
    unfolding list_all_iff by (intro ballI table_wire_ok) (auto simp: MAX_PAYLOAD_SIZE_def)
  show ?thesis
    using lost_release_leaves_key_down [OF ok, of "\<lambda>_. ''full''" "''eof''" "[]" 1] unfolding Let_def by blast
qed

theorem injected_as_routed_witness:
  "let ms = [M_ScreenEnter 32000 500 mod_empty] in
   \<exists>l s. (link_step (\<lambda>_. ''full'') (table_ser ms) (table_de ms) ''eof'' 0)\<^sup>*\<^sup>* (link_start plain_edge 0 []) l \<and>
     (conn_step (table_ser ms) (table_de ms) ''eof'')\<^sup>*\<^sup>* (connection_start 1 (pl_wire (ln_conn l))) s \<and>
     from_stream 0 (pl_handled s) = ms \<and>
     prefix (Inject (Mouse (MoveAbs 32000 500)) # resync_modifiers mod_empty)
       (inbound_loop True (messages_to 0 (sv_log (ln_server l))))"
proof -
  let ?m = "M_ScreenEnter 32000 500 mod_empty"
  let ?ms = "[?m]"
  let ?step = "link_step (\<lambda>_. ''full'') (table_ser ?ms) (table_de ?ms) ''eof'' 0"
  let ?l = "crossed []"
  have ok: "list_all (wire_ok (table_ser ?ms) (table_de ?ms)) ?ms"
    unfolding list_all_iff by (intro ballI table_wire_ok) (simp_all add: MAX_PAYLOAD_SIZE_def)
  then obtain bs where bs: "message_bytes (table_ser ?ms) ?m = Ok bs"
    using stream.wr_sendable [of "table_ser ?ms" "table_de ?ms" ?m] by (auto simp del: table_ser.simps table_de.simps)
  let ?p = "(ln_conn ?l)\<lparr>pl_out := \<lparr>oc_queue = [], oc_open = True\<rparr>, pl_wire := bs\<rparr>"
  have "conn_step (table_ser ?ms) (table_de ?ms) ''eof'' (ln_conn ?l) ?p"
    using conn_step.write_msg [of "ln_conn ?l" ?m "[]" write_everything "table_ser ?ms" bs] bs
    by (simp add: crossed_def connection_start_def del: table_ser.simps table_de.simps)
  then have "?step ?l (?l\<lparr>ln_conn := ?p\<rparr>)" by (rule link_step.connection) simp
  with crossed_reachable have l: "?step\<^sup>*\<^sup>* (link_start plain_edge 0 []) (?l\<lparr>ln_conn := ?p\<rparr>)"
    by (rule rtranclp.rtrancl_into_rtrancl)
  let ?l' = "?l\<lparr>ln_conn := ?p\<rparr>"
  have w: "pl_wire (ln_conn ?l') = write_loop (table_ser ?ms) ?ms" "pl_accepted (ln_conn ?l') = ?ms" "ln_lost ?l' = 0"
    using bs by (simp_all add: crossed_def del: table_ser.simps)
  let ?s0 = "connection_start 1 (pl_wire (ln_conn ?l'))"
  obtain s where s: "(conn_step (table_ser ?ms) (table_de ?ms) ''eof'')\<^sup>*\<^sup>* ?s0 s" "pl_handled s = [(0, ?m)]"
    using control_reader_goes_on [of ?s0 "new_reader (pl_wire (ln_conn ?l'))" "[]" "''eof''" "table_de ?ms" ?ms "[]"
        "table_ser ?ms"] read_write_loop_append [OF ok, of "''eof''" "[]"] w(1)
    by (auto simp: connection_start_def new_reader_def read_loop_Nil
        simp del: table_ser.simps table_de.simps write_loop.simps)
  have "from_stream 0 (pl_handled s) = ?ms" by (simp add: s(2))
  moreover have "prefix (Inject (Mouse (MoveAbs 32000 500)) # resync_modifiers mod_empty)
      (inbound_loop True (messages_to 0 (sv_log (ln_server ?l'))))"
    using injected_as_routed [OF l s(1) prefix_order.refl _ refl refl] ok w(2,3) s(2)
    by (simp add: crossed_def del: table_ser.simps table_de.simps)
  ultimately show ?thesis using l s(1) unfolding Let_def by blast
qed

end
