(* ===== verification/KeyTables.thy ===== *)
theory KeyTables
  imports InputEvents
begin

text \<open>
  The key tables of the two platform back ends: virtual key codes of Windows
  (\<open>crates/platform/src/windows/keymap.rs\<close>) and evdev codes of Linux (the mappings of
  \<open>crates/platform/src/linux/inject.rs\<close>). The numeric values of the \<open>VK_\<close> constants belong to the
  \<open>windows\<close> crate: they are a function from the names of the constants, of which the theorems assume
  what the Windows SDK documents, that the constants in use are distinct.
\<close>

named_theorems key_simps \<open>unfolding rules for the key tables\<close>

section \<open>Windows\<close>

text \<open>The arms of \<open>vk_to_keycode\<close>, in order; the last arm is \<open>_ => KeyCode::Unknown\<close>.\<close>

definition vk_table :: "(string \<times> KeyCode) list" where
  "vk_table =
     [(''VK_A'', K_Letter K_A), (''VK_B'', K_Letter K_B), (''VK_C'', K_Letter K_C),
      (''VK_D'', K_Letter K_D), (''VK_E'', K_Letter K_E), (''VK_F'', K_Letter K_F),
      (''VK_G'', K_Letter K_G), (''VK_H'', K_Letter K_H), (''VK_I'', K_Letter K_I),
      (''VK_J'', K_Letter K_J), (''VK_K'', K_Letter K_K), (''VK_L'', K_Letter K_L),
      (''VK_M'', K_Letter K_M), (''VK_N'', K_Letter K_N), (''VK_O'', K_Letter K_O),
      (''VK_P'', K_Letter K_P), (''VK_Q'', K_Letter K_Q), (''VK_R'', K_Letter K_R),
      (''VK_S'', K_Letter K_S), (''VK_T'', K_Letter K_T), (''VK_U'', K_Letter K_U),
      (''VK_V'', K_Letter K_V), (''VK_W'', K_Letter K_W), (''VK_X'', K_Letter K_X),
      (''VK_Y'', K_Letter K_Y), (''VK_Z'', K_Letter K_Z), (''VK_0'', K_Digit K_Num0),
      (''VK_1'', K_Digit K_Num1), (''VK_2'', K_Digit K_Num2), (''VK_3'', K_Digit K_Num3),
      (''VK_4'', K_Digit K_Num4), (''VK_5'', K_Digit K_Num5), (''VK_6'', K_Digit K_Num6),
      (''VK_7'', K_Digit K_Num7), (''VK_8'', K_Digit K_Num8), (''VK_9'', K_Digit K_Num9),
      (''VK_RETURN'', K_Control K_Enter), (''VK_ESCAPE'', K_Control K_Escape),
      (''VK_BACK'', K_Control K_Backspace), (''VK_TAB'', K_Control K_Tab),
      (''VK_SPACE'', K_Control K_Space), (''VK_OEM_MINUS'', K_Control K_Minus),
      (''VK_OEM_PLUS'', K_Control K_Equals), (''VK_OEM_4'', K_Control K_LeftBracket),
      (''VK_OEM_6'', K_Control K_RightBracket), (''VK_OEM_5'', K_Control K_Backslash),
      (''VK_OEM_1'', K_Control K_Semicolon), (''VK_OEM_7'', K_Control K_Apostrophe),
      (''VK_OEM_3'', K_Control K_Grave), (''VK_OEM_COMMA'', K_Control K_Comma),
      (''VK_OEM_PERIOD'', K_Control K_Period), (''VK_OEM_2'', K_Control K_Slash),
      (''VK_CAPITAL'', K_Control K_CapsLock), (''VK_F1'', K_Function K_F1),
      (''VK_F2'', K_Function K_F2), (''VK_F3'', K_Function K_F3),
      (''VK_F4'', K_Function K_F4), (''VK_F5'', K_Function K_F5),
      (''VK_F6'', K_Function K_F6), (''VK_F7'', K_Function K_F7),
      (''VK_F8'', K_Function K_F8), (''VK_F9'', K_Function K_F9),
      (''VK_F10'', K_Function K_F10), (''VK_F11'', K_Function K_F11),
      (''VK_F12'', K_Function K_F12), (''VK_SNAPSHOT'', K_Navigation K_PrintScreen),
      (''VK_SCROLL'', K_Navigation K_ScrollLock), (''VK_PAUSE'', K_Navigation K_Pause),
      (''VK_INSERT'', K_Navigation K_Insert), (''VK_HOME'', K_Navigation K_Home),
      (''VK_PRIOR'', K_Navigation K_PageUp), (''VK_DELETE'', K_Navigation K_Delete),
      (''VK_END'', K_Navigation K_End), (''VK_NEXT'', K_Navigation K_PageDown),
      (''VK_RIGHT'', K_Navigation K_ArrowRight), (''VK_LEFT'', K_Navigation K_ArrowLeft),
      (''VK_DOWN'', K_Navigation K_ArrowDown), (''VK_UP'', K_Navigation K_ArrowUp),
      (''VK_LCONTROL'', K_Modifier K_LeftCtrl), (''VK_LSHIFT'', K_Modifier K_LeftShift),
      (''VK_LMENU'', K_Modifier K_LeftAlt), (''VK_LWIN'', K_Modifier K_LeftSuper),
      (''VK_RCONTROL'', K_Modifier K_RightCtrl), (''VK_RSHIFT'', K_Modifier K_RightShift),
      (''VK_RMENU'', K_Modifier K_RightAlt), (''VK_RWIN'', K_Modifier K_RightSuper)]"

definition vk_to_keycode :: "(string \<Rightarrow> u16) \<Rightarrow> u16 \<Rightarrow> KeyCode" where
  "vk_to_keycode vkc vk =
     (case find (\<lambda>(name, code). vkc name = vk) vk_table of
        Some (name, code) \<Rightarrow> code
      | None \<Rightarrow> K_Unknown)"

text \<open>The arms of \<open>keycode_to_vk\<close>, by the groups of the key codes.\<close>

primrec letter_vk :: "letter_key \<Rightarrow> string" where
  "letter_vk K_A = ''VK_A''" | "letter_vk K_B = ''VK_B''" | "letter_vk K_C = ''VK_C''" |
  "letter_vk K_D = ''VK_D''" | "letter_vk K_E = ''VK_E''" | "letter_vk K_F = ''VK_F''" |
  "letter_vk K_G = ''VK_G''" | "letter_vk K_H = ''VK_H''" | "letter_vk K_I = ''VK_I''" |
  "letter_vk K_J = ''VK_J''" | "letter_vk K_K = ''VK_K''" | "letter_vk K_L = ''VK_L''" |
  "letter_vk K_M = ''VK_M''" | "letter_vk K_N = ''VK_N''" | "letter_vk K_O = ''VK_O''" |
  "letter_vk K_P = ''VK_P''" | "letter_vk K_Q = ''VK_Q''" | "letter_vk K_R = ''VK_R''" |
  "letter_vk K_S = ''VK_S''" | "letter_vk K_T = ''VK_T''" | "letter_vk K_U = ''VK_U''" |
  "letter_vk K_V = ''VK_V''" | "letter_vk K_W = ''VK_W''" | "letter_vk K_X = ''VK_X''" |
  "letter_vk K_Y = ''VK_Y''" | "letter_vk K_Z = ''VK_Z''"

primrec digit_vk :: "digit_key \<Rightarrow> string" where
  "digit_vk K_Num0 = ''VK_0''" | "digit_vk K_Num1 = ''VK_1''" | "digit_vk K_Num2 = ''VK_2''" |
  "digit_vk K_Num3 = ''VK_3''" | "digit_vk K_Num4 = ''VK_4''" | "digit_vk K_Num5 = ''VK_5''" |
  "digit_vk K_Num6 = ''VK_6''" | "digit_vk K_Num7 = ''VK_7''" | "digit_vk K_Num8 = ''VK_8''" |
  "digit_vk K_Num9 = ''VK_9''"

primrec control_vk :: "control_key \<Rightarrow> string" where
  "control_vk K_Enter = ''VK_RETURN''" | "control_vk K_Escape = ''VK_ESCAPE''" |
  "control_vk K_Backspace = ''VK_BACK''" | "control_vk K_Tab = ''VK_TAB''" |
  "control_vk K_Space = ''VK_SPACE''" | "control_vk K_Minus = ''VK_OEM_MINUS''" |
  "control_vk K_Equals = ''VK_OEM_PLUS''" | "control_vk K_LeftBracket = ''VK_OEM_4''" |
  "control_vk K_RightBracket = ''VK_OEM_6''" | "control_vk K_Backslash = ''VK_OEM_5''" |
  "control_vk K_Semicolon = ''VK_OEM_1''" | "control_vk K_Apostrophe = ''VK_OEM_7''" |
  "control_vk K_Grave = ''VK_OEM_3''" | "control_vk K_Comma = ''VK_OEM_COMMA''" |
  "control_vk K_Period = ''VK_OEM_PERIOD''" | "control_vk K_Slash = ''VK_OEM_2''" |
  "control_vk K_CapsLock = ''VK_CAPITAL''"

primrec function_vk :: "function_key \<Rightarrow> string" where
  "function_vk K_F1 = ''VK_F1''" | "function_vk K_F2 = ''VK_F2''" |
  "function_vk K_F3 = ''VK_F3''" | "function_vk K_F4 = ''VK_F4''" |
  "function_vk K_F5 = ''VK_F5''" | "function_vk K_F6 = ''VK_F6''" |
  "function_vk K_F7 = ''VK_F7''" | "function_vk K_F8 = ''VK_F8''" |
  "function_vk K_F9 = ''VK_F9''" | "function_vk K_F10 = ''VK_F10''" |
  "function_vk K_F11 = ''VK_F11''" | "function_vk K_F12 = ''VK_F12''"

primrec navigation_vk :: "navigation_key \<Rightarrow> string" where
  "navigation_vk K_PrintScreen = ''VK_SNAPSHOT''" |
  "navigation_vk K_ScrollLock = ''VK_SCROLL''" | "navigation_vk K_Pause = ''VK_PAUSE''" |
  "navigation_vk K_Insert = ''VK_INSERT''" | "navigation_vk K_Home = ''VK_HOME''" |
  "navigation_vk K_PageUp = ''VK_PRIOR''" | "navigation_vk K_Delete = ''VK_DELETE''" |
  "navigation_vk K_End = ''VK_END''" | "navigation_vk K_PageDown = ''VK_NEXT''" |
  "navigation_vk K_ArrowRight = ''VK_RIGHT''" | "navigation_vk K_ArrowLeft = ''VK_LEFT''" |
  "navigation_vk K_ArrowDown = ''VK_DOWN''" | "navigation_vk K_ArrowUp = ''VK_UP''"

primrec modifier_vk :: "modifier_key \<Rightarrow> string" where
  "modifier_vk K_LeftCtrl = ''VK_LCONTROL''" | "modifier_vk K_LeftShift = ''VK_LSHIFT''" |
  "modifier_vk K_LeftAlt = ''VK_LMENU''" | "modifier_vk K_LeftSuper = ''VK_LWIN''" |
  "modifier_vk K_RightCtrl = ''VK_RCONTROL''" | "modifier_vk K_RightShift = ''VK_RSHIFT''" |
  "modifier_vk K_RightAlt = ''VK_RMENU''" | "modifier_vk K_RightSuper = ''VK_RWIN''"

primrec keycode_vk :: "KeyCode \<Rightarrow> string option" where
  "keycode_vk K_Unknown = None"
| "keycode_vk (K_Letter k) = Some (letter_vk k)"
| "keycode_vk (K_Digit k) = Some (digit_vk k)"
| "keycode_vk (K_Control k) = Some (control_vk k)"
| "keycode_vk (K_Function k) = Some (function_vk k)"
| "keycode_vk (K_Navigation k) = Some (navigation_vk k)"
| "keycode_vk (K_Modifier k) = Some (modifier_vk k)"

definition keycode_to_vk :: "(string \<Rightarrow> u16) \<Rightarrow> KeyCode \<Rightarrow> u16 option" where
  "keycode_to_vk vkc code = map_option vkc (keycode_vk code)"

text \<open>The constants the back end compares with, and what the SDK documents of them.\<close>

definition vk_names :: "string list" where
  "vk_names = map fst vk_table @ [''VK_SHIFT'', ''VK_CONTROL'', ''VK_MENU'', ''VK_NUMLOCK'']"

definition vk_distinct :: "(string \<Rightarrow> u16) \<Rightarrow> bool" where
  "vk_distinct vkc \<longleftrightarrow> inj_on vkc (set vk_names)"

text \<open>The values of the Windows SDK, used to instantiate the parameter.\<close>

definition sample_vks :: "(string \<times> nat) list" where
  "sample_vks =
     [(''VK_A'', 65), (''VK_B'', 66), (''VK_C'', 67), (''VK_D'', 68), (''VK_E'', 69),
      (''VK_F'', 70), (''VK_G'', 71), (''VK_H'', 72), (''VK_I'', 73), (''VK_J'', 74),
      (''VK_K'', 75), (''VK_L'', 76), (''VK_M'', 77), (''VK_N'', 78), (''VK_O'', 79),
      (''VK_P'', 80), (''VK_Q'', 81), (''VK_R'', 82), (''VK_S'', 83), (''VK_T'', 84),
      (''VK_U'', 85), (''VK_V'', 86), (''VK_W'', 87), (''VK_X'', 88), (''VK_Y'', 89),
      (''VK_Z'', 90), (''VK_0'', 48), (''VK_1'', 49), (''VK_2'', 50), (''VK_3'', 51),
      (''VK_4'', 52), (''VK_5'', 53), (''VK_6'', 54), (''VK_7'', 55), (''VK_8'', 56),
      (''VK_9'', 57), (''VK_RETURN'', 13), (''VK_ESCAPE'', 27), (''VK_BACK'', 8),
      (''VK_TAB'', 9), (''VK_SPACE'', 32), (''VK_OEM_MINUS'', 189), (''VK_OEM_PLUS'', 187),
      (''VK_OEM_4'', 219), (''VK_OEM_6'', 221), (''VK_OEM_5'', 220), (''VK_OEM_1'', 186),
      (''VK_OEM_7'', 222), (''VK_OEM_3'', 192), (''VK_OEM_COMMA'', 188),
      (''VK_OEM_PERIOD'', 190), (''VK_OEM_2'', 191), (''VK_CAPITAL'', 20), (''VK_F1'', 112),
      (''VK_F2'', 113), (''VK_F3'', 114), (''VK_F4'', 115), (''VK_F5'', 116), (''VK_F6'', 117),
      (''VK_F7'', 118), (''VK_F8'', 119), (''VK_F9'', 120), (''VK_F10'', 121),
      (''VK_F11'', 122), (''VK_F12'', 123), (''VK_SNAPSHOT'', 44), (''VK_SCROLL'', 145),
      (''VK_PAUSE'', 19), (''VK_INSERT'', 45), (''VK_HOME'', 36), (''VK_PRIOR'', 33),
      (''VK_DELETE'', 46), (''VK_END'', 35), (''VK_NEXT'', 34), (''VK_RIGHT'', 39),
      (''VK_LEFT'', 37), (''VK_DOWN'', 40), (''VK_UP'', 38), (''VK_LCONTROL'', 162),
      (''VK_LSHIFT'', 160), (''VK_LMENU'', 164), (''VK_LWIN'', 91), (''VK_RCONTROL'', 163),
      (''VK_RSHIFT'', 161), (''VK_RMENU'', 165), (''VK_RWIN'', 92), (''VK_SHIFT'', 16),
      (''VK_CONTROL'', 17), (''VK_MENU'', 18), (''VK_NUMLOCK'', 144)]"

definition sample_vk :: "string \<Rightarrow> u16" where
  "sample_vk name = (case map_of sample_vks name of Some v \<Rightarrow> word_of_nat v | None \<Rightarrow> 0)"

lemma sample_vk_distinct: "vk_distinct sample_vk"
proof -
  have names: "map fst sample_vks = vk_names"
    by (simp add: sample_vks_def vk_names_def vk_table_def)
  have dist: "distinct (map snd sample_vks)" and bound: "list_all (\<lambda>v. v < 2 ^ 16) (map snd sample_vks)"
    by (simp_all add: sample_vks_def)
  have entry: "\<exists>v. (n, v) \<in> set sample_vks \<and> v < 2 ^ 16 \<and> sample_vk n = word_of_nat v"
    if "n \<in> set vk_names" for n
  proof -
    from that have "n \<in> fst ` set sample_vks" by (simp flip: names)
    then obtain v where "map_of sample_vks n = Some v"
      using map_of_eq_None_iff [of sample_vks n] by (cases "map_of sample_vks n") simp_all
    then have "(n, v) \<in> set sample_vks" "sample_vk n = word_of_nat v"
      by (simp_all add: sample_vk_def map_of_SomeD)
    moreover have "v < 2 ^ 16" using bound calculation(1) by (force simp: list_all_iff)
    ultimately show ?thesis by blast
  qed
  show ?thesis
    unfolding vk_distinct_def
  proof (rule inj_onI)
    fix m n
    assume mn: "m \<in> set vk_names" "n \<in> set vk_names" "sample_vk m = sample_vk n"
    obtain v w where v: "(m, v) \<in> set sample_vks" "v < 2 ^ 16" "sample_vk m = word_of_nat v"
      and w: "(n, w) \<in> set sample_vks" "w < 2 ^ 16" "sample_vk n = word_of_nat w"
      using entry mn(1,2) by blast
    then have "unat (word_of_nat v :: u16) = unat (word_of_nat w :: u16)" using mn(3) by simp
    then have "v = w" using v(2) w(2) by (simp add: unat_of_nat)
    with v(1) w(1) dist show "m = n" by (metis distinct_map inj_onD fst_conv snd_conv)
  qed
qed

section \<open>The Windows tables are inverse to each other\<close>

lemma vk_table_keycode: "(name, code) \<in> set vk_table \<Longrightarrow> keycode_vk code = Some name"
proof -
  have "list_all (\<lambda>(name, code). keycode_vk code = Some name) vk_table"
    by (simp add: vk_table_def)
  then show "(name, code) \<in> set vk_table \<Longrightarrow> keycode_vk code = Some name"
    by (auto simp: list_all_iff)
qed

lemma keycode_vk_table: "keycode_vk code = Some name \<Longrightarrow> (name, code) \<in> set vk_table"
proof (cases code)
  case (K_Letter k)
  then show "keycode_vk code = Some name \<Longrightarrow> ?thesis" by (cases k) (simp_all add: vk_table_def)
next
  case (K_Digit k)
  then show "keycode_vk code = Some name \<Longrightarrow> ?thesis" by (cases k) (simp_all add: vk_table_def)
next
  case (K_Control k)
  then show "keycode_vk code = Some name \<Longrightarrow> ?thesis" by (cases k) (simp_all add: vk_table_def)
next
  case (K_Function k)
  then show "keycode_vk code = Some name \<Longrightarrow> ?thesis" by (cases k) (simp_all add: vk_table_def)
next
  case (K_Navigation k)
  then show "keycode_vk code = Some name \<Longrightarrow> ?thesis" by (cases k) (simp_all add: vk_table_def)
next
  case (K_Modifier k)
  then show "keycode_vk code = Some name \<Longrightarrow> ?thesis" by (cases k) (simp_all add: vk_table_def)
qed simp

lemma vk_table_distinct: "distinct (map fst vk_table)"
  by (simp add: vk_table_def)

lemma vk_table_names: "fst ` set vk_table \<subseteq> set vk_names"
  by (auto simp: vk_names_def)

text \<open>With distinct constants the match finds the row of the constant.\<close>

lemma vk_to_keycode_row:
  assumes "vk_distinct vkc" and "(name, code) \<in> set vk_table"
  shows "vk_to_keycode vkc (vkc name) = code"
proof -
  have "\<exists>x. find (\<lambda>(n, c). vkc n = vkc name) vk_table = Some x"
    using assms(2) find_None_iff [of "\<lambda>(n, c). vkc n = vkc name" vk_table] by (auto simp flip: not_None_eq)
  then obtain n c where f: "find (\<lambda>(n, c). vkc n = vkc name) vk_table = Some (n, c)"
    by (metis surj_pair)
  then have row: "(n, c) \<in> set vk_table" "vkc n = vkc name"
    by (auto simp: find_Some_iff) (metis nth_mem)
  then have "n \<in> set vk_names" "name \<in> set vk_names"
    using assms(2) vk_table_names by force+
  then have "n = name"
    using assms(1) row(2) unfolding vk_distinct_def by (simp add: inj_on_eq_iff)
  then have "c = code"
    using row(1) assms(2) vk_table_distinct by (metis Some_eq_map_of_iff option.inject)
  with f show ?thesis by (simp add: vk_to_keycode_def)
qed

lemma vk_to_keycode_known:
  assumes "vk_to_keycode vkc vk = code" and "code \<noteq> K_Unknown"
  shows "\<exists>name. (name, code) \<in> set vk_table \<and> vkc name = vk"
  using assms by (auto simp: vk_to_keycode_def find_Some_iff split: option.splits) (metis nth_mem)

lemma keycode_of_vk:
  assumes "vk_distinct vkc" and "keycode_to_vk vkc code = Some vk"
  shows "vk_to_keycode vkc vk = code"
  using assms by (auto simp: keycode_to_vk_def intro: vk_to_keycode_row keycode_vk_table)

lemma vk_of_keycode:
  assumes "vk_to_keycode vkc vk = code" and "code \<noteq> K_Unknown"
  shows "keycode_to_vk vkc code = Some vk"
  using vk_to_keycode_known [OF assms] by (auto simp: keycode_to_vk_def dest: vk_table_keycode)

lemma keycode_vk_known: "keycode_vk code = None \<longleftrightarrow> code = K_Unknown"
  by (cases code) simp_all

lemma keycode_to_vk_inj:
  assumes "vk_distinct vkc" and "keycode_to_vk vkc a = Some v" and "keycode_to_vk vkc b = Some v"
  shows "a = b"
  using assms keycode_of_vk by blast

section \<open>Linux\<close>

text \<open>\<open>evdev_code\<close> and \<open>hid_to_evdev\<close>: the discriminant plus 8.\<close>

definition evdev_code :: "KeyCode \<Rightarrow> u16" where
  "evdev_code kc = keycode_u16 kc + 8"

definition hid_to_evdev :: "KeyCode \<Rightarrow> u16 option" where
  "hid_to_evdev kc =
     (let raw = keycode_u16 kc in if 4 \<le> raw \<and> raw \<le> 0xE7 then Some (raw + 8) else None)"

lemma keycode_u16_known: "kc \<noteq> K_Unknown \<Longrightarrow> 4 \<le> keycode_u16 kc \<and> keycode_u16 kc \<le> 0xE7"
proof (cases kc)
  case (K_Letter k)
  then show ?thesis by (cases k) simp_all
next
  case (K_Digit k)
  then show ?thesis by (cases k) simp_all
next
  case (K_Control k)
  then show ?thesis by (cases k) simp_all
next
  case (K_Function k)
  then show ?thesis by (cases k) simp_all
next
  case (K_Navigation k)
  then show ?thesis by (cases k) simp_all
next
  case (K_Modifier k)
  then show ?thesis by (cases k) simp_all
qed simp

lemma key_group_inj:
  "letter_key_u16 a = letter_key_u16 a' \<Longrightarrow> a = a'"
  "digit_key_u16 b = digit_key_u16 b' \<Longrightarrow> b = b'"
  "control_key_u16 c = control_key_u16 c' \<Longrightarrow> c = c'"
  "function_key_u16 d = function_key_u16 d' \<Longrightarrow> d = d'"
  "navigation_key_u16 e = navigation_key_u16 e' \<Longrightarrow> e = e'"
  "modifier_key_u16 f = modifier_key_u16 f' \<Longrightarrow> f = f'"
  by (cases a; cases a'; simp) (cases b; cases b'; simp; fail | cases c; cases c'; simp; fail |
    cases d; cases d'; simp; fail | cases e; cases e'; simp; fail | cases f; cases f'; simp; fail)+

text \<open>The group a discriminant belongs to.\<close>

definition key_group :: "KeyCode \<Rightarrow> nat" where
  "key_group kc = (case kc of K_Unknown \<Rightarrow> 0 | K_Letter _ \<Rightarrow> 1 | K_Digit _ \<Rightarrow> 2 | K_Control _ \<Rightarrow> 3 |
     K_Function _ \<Rightarrow> 4 | K_Navigation _ \<Rightarrow> 5 | K_Modifier _ \<Rightarrow> 6)"

definition group_of_u16 :: "u16 \<Rightarrow> nat" where
  "group_of_u16 w = (if w < 4 then 0 else if w < 30 then 1 else if w < 40 then 2 else
     if w < 58 then 3 else if w < 70 then 4 else if w < 83 then 5 else 6)"

lemma group_of_keycode: "group_of_u16 (keycode_u16 kc) = key_group kc"
proof (cases kc)
  case (K_Letter k)
  then show ?thesis by (cases k) (simp_all add: group_of_u16_def key_group_def)
next
  case (K_Digit k)
  then show ?thesis by (cases k) (simp_all add: group_of_u16_def key_group_def)
next
  case (K_Control k)
  then show ?thesis by (cases k) (simp_all add: group_of_u16_def key_group_def)
next
  case (K_Function k)
  then show ?thesis by (cases k) (simp_all add: group_of_u16_def key_group_def)
next
  case (K_Navigation k)
  then show ?thesis by (cases k) (simp_all add: group_of_u16_def key_group_def)
next
  case (K_Modifier k)
  then show ?thesis by (cases k) (simp_all add: group_of_u16_def key_group_def)
qed (simp add: group_of_u16_def key_group_def)

lemma keycode_u16_inj: "keycode_u16 a = keycode_u16 b \<Longrightarrow> a = b"
proof -
  assume eq: "keycode_u16 a = keycode_u16 b"
  then have "key_group a = key_group b" by (simp flip: group_of_keycode)
  with eq show ?thesis
    by (cases a; cases b; simp add: key_group_def key_group_inj)
qed

lemma hid_to_evdev_known: "kc \<noteq> K_Unknown \<Longrightarrow> hid_to_evdev kc = Some (evdev_code kc)"
  using keycode_u16_known [of kc] by (simp add: hid_to_evdev_def evdev_code_def Let_def)

lemma hid_to_evdev_Unknown [simp]: "hid_to_evdev K_Unknown = None"
  by (simp add: hid_to_evdev_def)

lemma evdev_code_inj: "evdev_code a = evdev_code b \<Longrightarrow> a = b"
  by (simp add: evdev_code_def keycode_u16_inj)

lemma hid_to_evdev_inj: "hid_to_evdev a = Some c \<Longrightarrow> hid_to_evdev b = Some c \<Longrightarrow> a = b"
  by (metis evdev_code_inj hid_to_evdev_known hid_to_evdev_Unknown option.distinct(1) option.inject)

end
