(* ===== verification/Platform.thy ===== *)
theory Platform
  imports InputEvents
begin

text \<open>
  The platform layer without its input paths (\<open>crates/platform/src/lib.rs\<close>, \<open>stub.rs\<close>, and the
  monitor enumeration of the two back ends in \<open>windows/monitor.rs\<close>, \<open>windows/mod.rs\<close>,
  \<open>linux/monitor.rs\<close>, \<open>linux/mod.rs\<close>): monitors, the logical screen they make up, and the fallback
  back end. What the operating system reports is an argument.
\<close>

section \<open>Monitors and the logical screen\<close>

record MonitorInfo =
  mi_name :: string
  mi_x :: i32
  mi_y :: i32
  mi_width :: i32
  mi_height :: i32
  mi_primary :: bool

record CursorPos =
  cp_x :: i32
  cp_y :: i32

definition cursor_pos_default :: CursorPos where
  "cursor_pos_default = \<lparr>cp_x = 0, cp_y = 0\<rparr>"

text \<open>Rust's \<open>min\<close> on \<open>i32\<close>, and its extreme values.\<close>

definition i32_min :: "i32 \<Rightarrow> i32 \<Rightarrow> i32" where
  "i32_min a b = (if b <s a then b else a)"

definition I32_MAX :: i32 where "I32_MAX = 0x7FFFFFFF"
definition I32_MIN :: i32 where "I32_MIN = 0x80000000"

text \<open>The corners of the bounding box, as both back ends fold them.\<close>

definition bounding_corners :: "MonitorInfo list \<Rightarrow> i32 \<times> i32 \<times> i32 \<times> i32" where
  "bounding_corners monitors =
     foldl (\<lambda>(mnx, mny, mxx, mxy) m.
        (i32_min mnx (mi_x m), i32_min mny (mi_y m),
         i32_max mxx (mi_x m + mi_width m), i32_max mxy (mi_y m + mi_height m)))
       (I32_MAX, I32_MAX, I32_MIN, I32_MIN) monitors"

definition screen_of_monitors :: "string \<Rightarrow> MonitorInfo list \<Rightarrow> ScreenInfo" where
  "screen_of_monitors host monitors =
     (case bounding_corners monitors of
        (min_x, min_y, max_x, max_y) \<Rightarrow>
          (case (if monitors = [] then (0, 0)
                 else (i32_max (max_x - min_x) 0, i32_max (max_y - min_y) 0)) of
             (w, h) \<Rightarrow> \<lparr>si_id = ScreenId 0, si_name = host, si_width = w, si_height = h\<rparr>))"

section \<open>Enumeration on Windows\<close>

record RECT =
  rc_left :: i32
  rc_top :: i32
  rc_right :: i32
  rc_bottom :: i32

text \<open>
  What \<open>GetMonitorInfoW\<close> says of one monitor: its rectangle, the buffer of its device name and its
  flags, or nothing when the call fails. \<open>utf16\<close> is \<open>String::from_utf16_lossy\<close>.
\<close>

type_synonym os_monitor = "(RECT \<times> u16 list \<times> u32) option"

definition MONITORINFOF_PRIMARY :: u32 where
  "MONITORINFOF_PRIMARY = 1"

definition monitor_enum_proc ::
  "(u16 list \<Rightarrow> string) \<Rightarrow> MonitorInfo list \<Rightarrow> os_monitor \<Rightarrow> MonitorInfo list" where
  "monitor_enum_proc utf16 collected info =
     (case info of
        None \<Rightarrow> collected
      | Some (rect, szDevice, dwFlags) \<Rightarrow>
          collected @
          [\<lparr>mi_name = utf16 (takeWhile (\<lambda>c. c \<noteq> 0) szDevice),
            mi_x = rc_left rect, mi_y = rc_top rect,
            mi_width = rc_right rect - rc_left rect, mi_height = rc_bottom rect - rc_top rect,
            mi_primary = (dwFlags AND MONITORINFOF_PRIMARY \<noteq> 0)\<rparr>])"

definition windows_enumerate ::
  "(u16 list \<Rightarrow> string) \<Rightarrow> bool \<Rightarrow> os_monitor list \<Rightarrow> Error + MonitorInfo list" where
  "windows_enumerate utf16 ok infos =
     (if ok then Ok (foldl (monitor_enum_proc utf16) [] infos)
      else Err (EPlatform ''EnumDisplayMonitors failed''))"

definition windows_hostname :: "string option \<Rightarrow> string" where
  "windows_hostname computername = (case computername of Some n \<Rightarrow> n | None \<Rightarrow> ''windows'')"

definition windows_screen_info ::
  "(u16 list \<Rightarrow> string) \<Rightarrow> string option \<Rightarrow> bool \<Rightarrow> os_monitor list \<Rightarrow> Error + ScreenInfo" where
  "windows_screen_info utf16 computername ok infos =
     try_then (windows_enumerate utf16 ok infos)
       (\<lambda>monitors. Ok (screen_of_monitors (windows_hostname computername) monitors))"

section \<open>Enumeration on Linux\<close>

definition linux_enumerate :: "Error + MonitorInfo list" where
  "linux_enumerate = Ok []"

definition linux_hostname :: "string option \<Rightarrow> string" where
  "linux_hostname host = (case host of Some n \<Rightarrow> n | None \<Rightarrow> ''linux'')"

definition linux_screen_info :: "string option \<Rightarrow> Error + ScreenInfo" where
  "linux_screen_info host =
     try_then linux_enumerate (\<lambda>monitors. Ok (screen_of_monitors (linux_hostname host) monitors))"

section \<open>The fallback back end\<close>

definition stub_new :: "string \<Rightarrow> Error + 'p" where
  "stub_new os = Err (EPlatform (''no platform backend available for '' @ os))"

definition stub_screen_info :: "Error + ScreenInfo" where
  "stub_screen_info = Ok \<lparr>si_id = ScreenId 0, si_name = ''stub'', si_width = 0, si_height = 0\<rparr>"

definition stub_enumerate :: "Error + MonitorInfo list" where
  "stub_enumerate = Ok []"

definition stub_capture_start :: "Error + unit" where
  "stub_capture_start = Err (EPlatform ''stub: capture unsupported'')"

definition stub_cursor_position :: "Error + CursorPos" where
  "stub_cursor_position = Ok cursor_pos_default"

definition stub_inject :: "InputEvent \<Rightarrow> Error + unit" where
  "stub_inject ev = Err (EPlatform ''stub: inject unsupported'')"

section \<open>The bounding box\<close>

lemma sint_i32_min [simp]: "sint (i32_min a b) = min (sint a) (sint b)"
  by (simp add: i32_min_def word_sless_alt min_def)

lemma sint_i32_max [simp]: "sint (i32_max a b) = max (sint a) (sint b)"
  by (simp add: i32_max_def word_sle_eq max_def)

lemma sint_I32_extremes [simp]: "sint I32_MAX = 2 ^ 31 - 1" "sint I32_MIN = - (2 ^ 31)"
  by (simp_all add: I32_MAX_def I32_MIN_def)

text \<open>The four coordinates are folded independently.\<close>

lemma foldl_corners:
  "foldl (\<lambda>(a, b, c, d) m. (f a m, g b m, h c m, k d m)) (a0, b0, c0, d0) ms =
     (foldl f a0 ms, foldl g b0 ms, foldl h c0 ms, foldl k d0 ms)"
  by (induction ms arbitrary: a0 b0 c0 d0) simp_all

lemma Min_insert_min: "finite A \<Longrightarrow> Min (insert (min a b) A) = Min (insert a (insert b A))" for a b :: int
  by (cases "A = {}") (simp_all add: min.assoc)

lemma Max_insert_max: "finite A \<Longrightarrow> Max (insert (max a b) A) = Max (insert a (insert b A))" for a b :: int
  by (cases "A = {}") (simp_all add: max.assoc)

lemma foldl_i32_min:
  "sint (foldl (\<lambda>a m. i32_min a (f m)) a0 ms) = Min (insert (sint a0) ((\<lambda>m. sint (f m)) ` set ms))"
  by (induction ms arbitrary: a0) (simp_all add: Min_insert_min)

lemma foldl_i32_max:
  "sint (foldl (\<lambda>a m. i32_max a (f m)) a0 ms) = Max (insert (sint a0) ((\<lambda>m. sint (f m)) ` set ms))"
  by (induction ms arbitrary: a0) (simp_all add: Max_insert_max)

text \<open>The extreme start values do not show once there is a monitor.\<close>

lemma Min_from_I32_MAX:
  "ms \<noteq> [] \<Longrightarrow> Min (insert (2 ^ 31 - 1) ((\<lambda>m. sint (f m :: i32)) ` set ms)) = Min ((\<lambda>m. sint (f m)) ` set ms)"
proof -
  assume "ms \<noteq> []"
  then have "hd ms \<in> set ms" by simp
  moreover have "sint (f (hd ms)) \<le> 2 ^ 31 - 1" using i32_bounds(2) [of "f (hd ms)"] by simp
  ultimately have "Min ((\<lambda>m. sint (f m)) ` set ms) \<le> 2 ^ 31 - 1"
    by (meson Min_le finite_imageI finite_set image_eqI order.trans)
  with \<open>ms \<noteq> []\<close> show ?thesis by (simp add: min_absorb2)
qed

lemma Max_from_I32_MIN:
  "ms \<noteq> [] \<Longrightarrow> Max (insert (- (2 ^ 31)) ((\<lambda>m. sint (f m :: i32)) ` set ms)) = Max ((\<lambda>m. sint (f m)) ` set ms)"
proof -
  assume "ms \<noteq> []"
  then have "hd ms \<in> set ms" by simp
  moreover have "- (2 ^ 31) \<le> sint (f (hd ms))" using i32_bounds(1) [of "f (hd ms)"] by simp
  ultimately have "- (2 ^ 31) \<le> Max ((\<lambda>m. sint (f m)) ` set ms)"
    by (meson Max_ge finite_imageI finite_set image_eqI order.trans)
  with \<open>ms \<noteq> []\<close> show ?thesis by (simp add: max_absorb2)
qed

text \<open>The size of the logical screen is the span of the monitors, when it fits.\<close>

definition span :: "(MonitorInfo \<Rightarrow> i32) \<Rightarrow> (MonitorInfo \<Rightarrow> i32) \<Rightarrow> MonitorInfo list \<Rightarrow> int" where
  "span low high ms = Max ((\<lambda>m. sint (high m)) ` set ms) - Min ((\<lambda>m. sint (low m)) ` set ms)"

lemma corner_span:
  assumes "ms \<noteq> []" and "0 \<le> span low high ms" and "span low high ms < 2 ^ 31"
  shows "sint (i32_max (foldl (\<lambda>a m. i32_max a (high m)) I32_MIN ms -
                        foldl (\<lambda>a m. i32_min a (low m)) I32_MAX ms) 0) = span low high ms"
proof -
  let ?hi = "foldl (\<lambda>a m. i32_max a (high m)) I32_MIN ms"
  let ?lo = "foldl (\<lambda>a m. i32_min a (low m)) I32_MAX ms"
  have "sint ?hi - sint ?lo = span low high ms"
    using assms(1)
    by (simp add: foldl_i32_max foldl_i32_min span_def Min_from_I32_MAX [of ms low, simplified]
        Max_from_I32_MIN [of ms high, simplified])
  then have "sint (?hi - ?lo) = span low high ms"
    using assms(2,3) by (subst sint_diff32) simp_all
  with assms(2) show ?thesis by simp
qed

lemma screen_of_monitors_span:
  fixes ms :: "MonitorInfo list"
  defines "wd \<equiv> span mi_x (\<lambda>m. mi_x m + mi_width m) ms"
    and "ht \<equiv> span mi_y (\<lambda>m. mi_y m + mi_height m) ms"
  assumes "ms \<noteq> []" and "0 \<le> wd" "wd < 2 ^ 31" and "0 \<le> ht" "ht < 2 ^ 31"
  shows "sint (si_width (screen_of_monitors host ms)) = wd"
    and "sint (si_height (screen_of_monitors host ms)) = ht"
  using assms(3-) corner_span [of ms mi_x "\<lambda>m. mi_x m + mi_width m"]
    corner_span [of ms mi_y "\<lambda>m. mi_y m + mi_height m"]
  unfolding wd_def ht_def screen_of_monitors_def bounding_corners_def foldl_corners
  by simp_all

lemma screen_of_no_monitors:
  "screen_of_monitors host [] = \<lparr>si_id = ScreenId 0, si_name = host, si_width = 0, si_height = 0\<rparr>"
  by (simp add: screen_of_monitors_def bounding_corners_def)

section \<open>What Windows reports\<close>

text \<open>The rectangles of the monitors that could be queried.\<close>

definition reported_rects :: "os_monitor list \<Rightarrow> RECT list" where
  "reported_rects infos = map fst (List.map_filter id infos)"

lemma enumerate_monitors:
  "foldl (monitor_enum_proc utf16) ms0 infos = ms0 @
     map (\<lambda>(rect, szDevice, dwFlags).
        \<lparr>mi_name = utf16 (takeWhile (\<lambda>c. c \<noteq> 0) szDevice), mi_x = rc_left rect, mi_y = rc_top rect,
         mi_width = rc_right rect - rc_left rect, mi_height = rc_bottom rect - rc_top rect,
         mi_primary = (dwFlags AND MONITORINFOF_PRIMARY \<noteq> 0)\<rparr>) (List.map_filter id infos)"
proof (induction infos arbitrary: ms0)
  case (Cons info infos)
  then show ?case
    by (cases info) (auto simp: monitor_enum_proc_def split: prod.split)
qed simp

lemma windows_screen_info_ok:
  "windows_screen_info utf16 host ok infos = Ok s \<longleftrightarrow>
   ok \<and> s = screen_of_monitors (windows_hostname host) (foldl (monitor_enum_proc utf16) [] infos)"
  by (auto simp: windows_screen_info_def windows_enumerate_def)

text \<open>
  The logical screen of a Windows machine is as wide and as high as the bounding box of its
  monitors: from the leftmost left edge to the rightmost right edge and from the highest top to the
  lowest bottom, whatever the position of the primary monitor, as long as those spans fit 31 bits;
  monitors that cannot be queried do not count.
\<close>

theorem windows_screen_spans:
  assumes "windows_screen_info utf16 host ok infos = Ok s"
    and "reported_rects infos = rs" and "rs \<noteq> []"
    and "wd = Max ((\<lambda>r. sint (rc_right r)) ` set rs) - Min ((\<lambda>r. sint (rc_left r)) ` set rs)"
    and "ht = Max ((\<lambda>r. sint (rc_bottom r)) ` set rs) - Min ((\<lambda>r. sint (rc_top r)) ` set rs)"
    and "0 \<le> wd" "wd < 2 ^ 31" "0 \<le> ht" "ht < 2 ^ 31"
  shows "sint (si_width s) = wd \<and> sint (si_height s) = ht \<and> si_id s = ScreenId 0"
proof -
  define ms where "ms = foldl (monitor_enum_proc utf16) [] infos"
  have ms: "set rs = (\<lambda>m. \<lparr>rc_left = mi_x m, rc_top = mi_y m, rc_right = mi_x m + mi_width m,
      rc_bottom = mi_y m + mi_height m\<rparr>) ` set ms"
    unfolding ms_def enumerate_monitors assms(2) [symmetric] reported_rects_def
    by (force simp: image_image split: prod.split)
  then have "ms \<noteq> []" using assms(3) by auto
  moreover have "span mi_x (\<lambda>m. mi_x m + mi_width m) ms = wd" "span mi_y (\<lambda>m. mi_y m + mi_height m) ms = ht"
    unfolding span_def assms(4,5) ms by (simp_all add: image_image)
  moreover have "s = screen_of_monitors (windows_hostname host) ms"
    using assms(1) by (simp add: windows_screen_info_ok ms_def)
  ultimately show ?thesis
    using assms(6-9) screen_of_monitors_span [of ms "windows_hostname host"]
    by (simp add: screen_of_monitors_def split: prod.split)
qed

definition sample_monitors :: "os_monitor list" where
  "sample_monitors =
     [Some (\<lparr>rc_left = 0, rc_top = 0, rc_right = 1920, rc_bottom = 1080\<rparr>, [65, 0, 66], 1), None,
      Some (\<lparr>rc_left = -1280, rc_top = 100, rc_right = 0, rc_bottom = 1124\<rparr>, [66], 0)]"

theorem windows_screen_spans_witness:
  "\<exists>s. windows_screen_info (\<lambda>cs. map (char_of \<circ> unat) cs) None True sample_monitors = Ok s \<and>
     sint (si_width s) = 3200 \<and> sint (si_height s) = 1124"
proof -
  let ?f = "\<lambda>cs :: u16 list. map (char_of \<circ> unat) cs :: string"
  obtain s where s: "windows_screen_info ?f None True sample_monitors = Ok s"
    by (simp add: windows_screen_info_ok)
  have "sint (si_width s) = 3200 \<and> sint (si_height s) = 1124 \<and> si_id s = ScreenId 0"
    by (rule windows_screen_spans [OF s refl]) (simp_all add: reported_rects_def sample_monitors_def)
  with s show ?thesis by blast
qed

end
