(* ===== verification/WindowsCapture.thy ===== *)
theory WindowsCapture
  imports KeyTables Platform
begin

text \<open>
  Input capture on Windows (\<open>crates/platform/src/windows/capture.rs\<close>): the two low-level hook
  procedures with the bounded queue they fill, the drain thread that turns raw events into input
  events, starting and stopping, and the three threads together. The constants of the \<open>windows\<close>
  crate are functions from their names; handles of the system are numbers, 0 for none.
\<close>

section \<open>Raw events\<close>

record Win32 =
  w32_vk :: "string \<Rightarrow> u16"
  w32_wm :: "string \<Rightarrow> u32"

datatype RawEvent =
    RawKeyDown u32 u32
  | RawKeyUp u32 u32
  | RawMouseMove i32 i32
  | RawMouseButton Button bool
  | RawMouseScroll bool i16

fun scan_code :: "RawEvent \<Rightarrow> u32 option" where
  "scan_code (RawKeyDown vk scan) = Some scan"
| "scan_code (RawKeyUp vk scan) = Some scan"
| "scan_code _ = None"

text \<open>A virtual key code survives the way through the \<open>u32\<close> field of the hook structure.\<close>

lemma u16_through_u32 [simp]: "(ucast (ucast v :: u32) :: u16) = v" for v :: u16
  by (rule bit_word_eqI) (simp add: bit_simps)

section \<open>State\<close>

text \<open>
  \<open>CaptureState\<close> together with the statics of the hooks. The channel is its queue with a flag for
  each end: \<open>wc_tx\<close> says that \<open>HOOK_TX\<close> holds the sender, \<open>wc_rx\<close> that the receiver is alive.
  \<open>wc_sink\<close> names the sink that the drain thread owns.
\<close>

record CaptureState =
  wc_running :: bool
  wc_capturing :: bool
  wc_hook_thread :: bool
  wc_drain_thread :: bool
  wc_hook_capturing :: bool
  wc_tx :: bool
  wc_rx :: bool
  wc_queue :: "RawEvent list"
  wc_keyboard_hook :: nat
  wc_mouse_hook :: nat
  wc_sink :: "nat option"

definition capture_new :: CaptureState where
  "capture_new =
     \<lparr>wc_running = False, wc_capturing = False, wc_hook_thread = False, wc_drain_thread = False,
      wc_hook_capturing = False, wc_tx = False, wc_rx = False, wc_queue = [],
      wc_keyboard_hook = 0, wc_mouse_hook = 0, wc_sink = None\<rparr>"

definition QUEUE_BOUND :: nat where
  "QUEUE_BOUND = 8192"

text \<open>\<open>start\<close>; the arguments are the outcomes of spawning the two threads.\<close>

definition capture_start ::
  "nat \<Rightarrow> string + unit \<Rightarrow> string + unit \<Rightarrow> CaptureState \<Rightarrow> (Error + unit) \<times> CaptureState" where
  "capture_start sink spawn_hook spawn_drain s =
     (if wc_running s then (Ok (), s)
      else
        (let s1 = s\<lparr>wc_running := True, wc_tx := True, wc_rx := True, wc_queue := []\<rparr> in
         case spawn_hook of
           Inl e \<Rightarrow> (Err (EPlatform (''spawn hook thread: '' @ e)), s1\<lparr>wc_rx := False\<rparr>)
         | Inr _ \<Rightarrow>
             (let s2 = s1\<lparr>wc_hook_thread := True\<rparr> in
              case spawn_drain of
                Inl e \<Rightarrow> (Err (EPlatform (''spawn drain thread: '' @ e)), s2\<lparr>wc_rx := False\<rparr>)
              | Inr _ \<Rightarrow> (Ok (), s2\<lparr>wc_drain_thread := True, wc_sink := Some sink\<rparr>))))"

definition set_capturing :: "bool \<Rightarrow> CaptureState \<Rightarrow> CaptureState" where
  "set_capturing capturing s = s\<lparr>wc_capturing := capturing, wc_hook_capturing := capturing\<rparr>"

text \<open>\<open>stop\<close> up to the two joins: the state, and the hooks it removes.\<close>

definition stop_begin :: "CaptureState \<Rightarrow> nat list \<times> CaptureState" where
  "stop_begin s =
     (filter (\<lambda>h. h \<noteq> 0) [wc_keyboard_hook s, wc_mouse_hook s],
      s\<lparr>wc_running := False, wc_capturing := False, wc_hook_capturing := False,
        wc_keyboard_hook := 0, wc_mouse_hook := 0, wc_tx := False\<rparr>)"

text \<open>\<open>cursor_position\<close> and \<open>warp_cursor\<close> over the outcome of the system call.\<close>

definition windows_cursor_position :: "string + i32 \<times> i32 \<Rightarrow> Error + CursorPos" where
  "windows_cursor_position get =
     (case get of
        Inl e \<Rightarrow> Err (EPlatform (''GetCursorPos: '' @ e))
      | Inr (x, y) \<Rightarrow> Ok \<lparr>cp_x = x, cp_y = y\<rparr>)"

definition windows_warp_cursor :: "(i32 \<Rightarrow> i32 \<Rightarrow> string + unit) \<Rightarrow> CursorPos \<Rightarrow> Error + unit" where
  "windows_warp_cursor set_pos pos =
     map_err (\<lambda>e. EPlatform (''SetCursorPos: '' @ e)) (set_pos (cp_x pos) (cp_y pos))"

section \<open>The hook procedures\<close>

definition try_push :: "RawEvent \<Rightarrow> CaptureState \<Rightarrow> CaptureState" where
  "try_push ev s =
     (if wc_tx s \<and> wc_rx s \<and> length (wc_queue s) < QUEUE_BOUND
      then s\<lparr>wc_queue := wc_queue s @ [ev]\<rparr> else s)"

definition push_opt :: "RawEvent option \<Rightarrow> CaptureState \<Rightarrow> CaptureState" where
  "push_opt ev s = (case ev of None \<Rightarrow> s | Some r \<Rightarrow> try_push r s)"

text \<open>What the procedure answers: \<open>LRESULT(1)\<close>, or the result of the next hook.\<close>

datatype hook_result = Swallowed | CallNext nat

record KBDLLHOOKSTRUCT =
  kb_vkCode :: u32
  kb_scanCode :: u32

definition keyboard_event :: "Win32 \<Rightarrow> u64 \<Rightarrow> KBDLLHOOKSTRUCT \<Rightarrow> RawEvent option" where
  "keyboard_event w wparam kb =
     (let x = ucast wparam :: u32 in
      if x = w32_wm w ''WM_KEYDOWN'' \<or> x = w32_wm w ''WM_SYSKEYDOWN''
      then Some (RawKeyDown (kb_vkCode kb) (kb_scanCode kb))
      else if x = w32_wm w ''WM_KEYUP'' \<or> x = w32_wm w ''WM_SYSKEYUP''
      then Some (RawKeyUp (kb_vkCode kb) (kb_scanCode kb))
      else None)"

definition low_level_keyboard_proc ::
  "Win32 \<Rightarrow> i32 \<Rightarrow> u64 \<Rightarrow> KBDLLHOOKSTRUCT \<Rightarrow> CaptureState \<Rightarrow> hook_result \<times> CaptureState" where
  "low_level_keyboard_proc w code wparam kb s =
     (if 0 <=s code
      then let s1 = push_opt (keyboard_event w wparam kb) s in
        if wc_hook_capturing s1 \<and> kb_vkCode kb \<noteq> ucast (w32_vk w ''VK_ESCAPE'')
        then (Swallowed, s1)
        else (CallNext (wc_keyboard_hook s1), s1)
      else (CallNext (wc_keyboard_hook s), s))"

record MSLLHOOKSTRUCT =
  ms_x :: i32
  ms_y :: i32
  ms_mouseData :: u32

definition wheel_delta :: "u32 \<Rightarrow> i16" where
  "wheel_delta d = ucast (drop_bit 16 d AND 0xFFFF)"

definition mouse_event :: "Win32 \<Rightarrow> u64 \<Rightarrow> MSLLHOOKSTRUCT \<Rightarrow> RawEvent option" where
  "mouse_event w wparam ms =
     (let x = ucast wparam :: u32 in
      if x = w32_wm w ''WM_MOUSEMOVE'' then Some (RawMouseMove (ms_x ms) (ms_y ms))
      else if x = w32_wm w ''WM_LBUTTONDOWN'' then Some (RawMouseButton BtnLeft True)
      else if x = w32_wm w ''WM_LBUTTONUP'' then Some (RawMouseButton BtnLeft False)
      else if x = w32_wm w ''WM_RBUTTONDOWN'' then Some (RawMouseButton BtnRight True)
      else if x = w32_wm w ''WM_RBUTTONUP'' then Some (RawMouseButton BtnRight False)
      else if x = w32_wm w ''WM_MBUTTONDOWN'' then Some (RawMouseButton BtnMiddle True)
      else if x = w32_wm w ''WM_MBUTTONUP'' then Some (RawMouseButton BtnMiddle False)
      else if x = w32_wm w ''WM_MOUSEWHEEL''
      then Some (RawMouseScroll False (wheel_delta (ms_mouseData ms)))
      else if x = w32_wm w ''WM_MOUSEHWHEEL''
      then Some (RawMouseScroll True (wheel_delta (ms_mouseData ms)))
      else None)"

definition low_level_mouse_proc ::
  "Win32 \<Rightarrow> i32 \<Rightarrow> u64 \<Rightarrow> MSLLHOOKSTRUCT \<Rightarrow> CaptureState \<Rightarrow> hook_result \<times> CaptureState" where
  "low_level_mouse_proc w code wparam ms s =
     (if 0 <=s code
      then let s1 = push_opt (mouse_event w wparam ms) s in
        if wc_hook_capturing s1 \<and> (ucast wparam :: u32) \<noteq> w32_wm w ''WM_MOUSEMOVE''
        then (Swallowed, s1)
        else (CallNext (wc_mouse_hook s1), s1)
      else (CallNext (wc_mouse_hook s), s))"

section \<open>The drain thread\<close>

definition modifier_flag :: "Win32 \<Rightarrow> u32 \<Rightarrow> ModifierState option" where
  "modifier_flag w vk =
     (let v = ucast vk :: u16; is = (\<lambda>names. v \<in> set (map (w32_vk w) names)) in
      if is [''VK_LSHIFT'', ''VK_RSHIFT'', ''VK_SHIFT''] then Some MOD_SHIFT
      else if is [''VK_LCONTROL'', ''VK_RCONTROL'', ''VK_CONTROL''] then Some MOD_CTRL
      else if is [''VK_LMENU'', ''VK_RMENU'', ''VK_MENU''] then Some MOD_ALT
      else if is [''VK_LWIN'', ''VK_RWIN''] then Some MOD_SUPER
      else if is [''VK_CAPITAL''] then Some MOD_CAPS_LOCK
      else if is [''VK_NUMLOCK''] then Some MOD_NUM_LOCK
      else None)"

definition update_modifiers :: "Win32 \<Rightarrow> ModifierState \<Rightarrow> u32 \<Rightarrow> bool \<Rightarrow> ModifierState" where
  "update_modifiers w m vk down =
     (case modifier_flag w vk of
        None \<Rightarrow> m
      | Some flag \<Rightarrow> if down then mod_insert m flag else mod_remove m flag)"

definition raw_modifiers :: "Win32 \<Rightarrow> ModifierState \<Rightarrow> RawEvent \<Rightarrow> ModifierState" where
  "raw_modifiers w m raw =
     (case raw of
        RawKeyDown vk _ \<Rightarrow> update_modifiers w m vk True
      | RawKeyUp vk _ \<Rightarrow> update_modifiers w m vk False
      | _ \<Rightarrow> m)"

fun raw_to_input :: "Win32 \<Rightarrow> ModifierState \<Rightarrow> RawEvent \<Rightarrow> InputEvent" where
  "raw_to_input w m (RawKeyDown vk scan) =
     Key \<lparr>ke_code = vk_to_keycode (w32_vk w) (ucast vk), ke_state = Pressed, ke_modifiers = m,
          ke_character = None\<rparr>"
| "raw_to_input w m (RawKeyUp vk scan) =
     Key \<lparr>ke_code = vk_to_keycode (w32_vk w) (ucast vk), ke_state = Released, ke_modifiers = m,
          ke_character = None\<rparr>"
| "raw_to_input w m (RawMouseMove x y) = Mouse (MoveAbs x y)"
| "raw_to_input w m (RawMouseButton b down) = Mouse (MButton b (if down then Pressed else Released))"
| "raw_to_input w m (RawMouseScroll h delta) =
     Mouse (MScroll \<lparr>sd_horizontal = (if h then delta else 0), sd_vertical = (if h then 0 else delta)\<rparr>)"

fun is_raw_move :: "RawEvent \<Rightarrow> bool" where
  "is_raw_move (RawMouseMove x y) \<longleftrightarrow> True"
| "is_raw_move _ \<longleftrightarrow> False"

text \<open>One event: the new modifiers, and what goes to the sink.\<close>

definition drain_raw ::
  "Win32 \<Rightarrow> bool \<Rightarrow> ModifierState \<Rightarrow> RawEvent \<Rightarrow> InputEvent list \<times> ModifierState" where
  "drain_raw w capturing m raw =
     (let m1 = raw_modifiers w m raw in
      (if capturing \<or> is_raw_move raw then [raw_to_input w m1 raw] else [], m1))"

fun drain_queue ::
  "Win32 \<Rightarrow> bool \<Rightarrow> ModifierState \<Rightarrow> RawEvent list \<Rightarrow> InputEvent list \<times> ModifierState" where
  "drain_queue w c m [] = ([], m)"
| "drain_queue w c m (r # rs) =
     (case drain_raw w c m r of (evs, m1) \<Rightarrow>
        (case drain_queue w c m1 rs of (evs', m2) \<Rightarrow> (evs @ evs', m2)))"

section \<open>Inputs of the operating system\<close>

text \<open>A call of one of the hook procedures, and a sequence of such calls.\<close>

datatype os_input =
    OsKey i32 u64 KBDLLHOOKSTRUCT
  | OsMouse i32 u64 MSLLHOOKSTRUCT

fun hook_proc :: "Win32 \<Rightarrow> os_input \<Rightarrow> CaptureState \<Rightarrow> hook_result \<times> CaptureState" where
  "hook_proc w (OsKey code wparam kb) s = low_level_keyboard_proc w code wparam kb s"
| "hook_proc w (OsMouse code wparam ms) s = low_level_mouse_proc w code wparam ms s"

fun hook_run :: "Win32 \<Rightarrow> os_input list \<Rightarrow> CaptureState \<Rightarrow> hook_result list \<times> CaptureState" where
  "hook_run w [] s = ([], s)"
| "hook_run w (i # is) s =
     (case hook_proc w i s of (r, s1) \<Rightarrow> (case hook_run w is s1 of (rs, s2) \<Rightarrow> (r # rs, s2)))"

text \<open>
  The specification of the two procedures: the raw event an input stands for, and the inputs that
  reach the local machine while capture is on - those with a negative code, Escape, and motion.
\<close>

fun input_event :: "Win32 \<Rightarrow> os_input \<Rightarrow> RawEvent option" where
  "input_event w (OsKey code wparam kb) = (if 0 <=s code then keyboard_event w wparam kb else None)"
| "input_event w (OsMouse code wparam ms) = (if 0 <=s code then mouse_event w wparam ms else None)"

fun stays_local :: "Win32 \<Rightarrow> os_input \<Rightarrow> bool" where
  "stays_local w (OsKey code wparam kb) \<longleftrightarrow>
     \<not> 0 <=s code \<or> kb_vkCode kb = ucast (w32_vk w ''VK_ESCAPE'')"
| "stays_local w (OsMouse code wparam ms) \<longleftrightarrow>
     \<not> 0 <=s code \<or> (ucast wparam :: u32) = w32_wm w ''WM_MOUSEMOVE''"

lemma push_opt_frame [simp]:
  "wc_hook_capturing (push_opt r s) = wc_hook_capturing s" "wc_running (push_opt r s) = wc_running s"
  "wc_tx (push_opt r s) = wc_tx s" "wc_rx (push_opt r s) = wc_rx s"
  "wc_capturing (push_opt r s) = wc_capturing s" "wc_sink (push_opt r s) = wc_sink s"
  "wc_keyboard_hook (push_opt r s) = wc_keyboard_hook s" "wc_mouse_hook (push_opt r s) = wc_mouse_hook s"
  by (simp_all add: push_opt_def try_push_def split: option.split)

lemma hook_proc_state: "snd (hook_proc w i s) = push_opt (input_event w i) s"
  by (cases i) (simp_all add: low_level_keyboard_proc_def low_level_mouse_proc_def Let_def push_opt_def)

lemma hook_proc_swallows:
  "fst (hook_proc w i s) = Swallowed \<longleftrightarrow> wc_hook_capturing s \<and> \<not> stays_local w i"
  by (cases i) (simp_all add: low_level_keyboard_proc_def low_level_mouse_proc_def Let_def)

lemma push_opt_queue:
  "wc_tx s \<Longrightarrow> wc_rx s \<Longrightarrow> length (wc_queue s) < QUEUE_BOUND \<Longrightarrow>
   wc_queue (push_opt r s) = wc_queue s @ (case r of None \<Rightarrow> [] | Some x \<Rightarrow> [x])"
  by (simp add: push_opt_def try_push_def split: option.split)

text \<open>The raw events of a sequence that fits into the queue.\<close>

definition input_events :: "Win32 \<Rightarrow> os_input list \<Rightarrow> RawEvent list" where
  "input_events w is = List.map_filter (input_event w) is"

lemma hook_run_spec:
  assumes "wc_tx s" "wc_rx s" and "length (wc_queue s) + length is \<le> QUEUE_BOUND"
  shows "map (\<lambda>r. r = Swallowed) (fst (hook_run w is s)) =
           map (\<lambda>i. wc_hook_capturing s \<and> \<not> stays_local w i) is"
    and "wc_queue (snd (hook_run w is s)) = wc_queue s @ input_events w is"
  using assms
proof (induction "is" arbitrary: s)
  case (Cons i "is")
  {
    case 1
    with Cons.IH(1) [of "push_opt (input_event w i) s"] show ?case
      using hook_proc_state [of w i s] hook_proc_swallows [of w i s]
      by (cases "hook_proc w i s"; cases "input_event w i")
        (auto simp: push_opt_queue split: prod.split)
  next
    case 2
    with Cons.IH(2) [of "push_opt (input_event w i) s"] show ?case
      using hook_proc_state [of w i s]
      by (cases "hook_proc w i s"; cases "input_event w i")
        (auto simp: push_opt_queue input_events_def split: prod.split)
  }
qed (simp_all add: input_events_def)

section \<open>The events that reach the sink\<close>

text \<open>The modifiers a raw event is stamped with: those after it and all before it.\<close>

fun stamped :: "Win32 \<Rightarrow> ModifierState \<Rightarrow> RawEvent list \<Rightarrow> (RawEvent \<times> ModifierState) list" where
  "stamped w m [] = []"
| "stamped w m (r # rs) = (r, raw_modifiers w m r) # stamped w (raw_modifiers w m r) rs"

lemma drain_queue_spec:
  "fst (drain_queue w c m rs) =
     map (\<lambda>(r, n). raw_to_input w n r) (filter (\<lambda>(r, n). c \<or> is_raw_move r) (stamped w m rs))"
  "snd (drain_queue w c m rs) = foldl (raw_modifiers w) m rs"
  by (induction rs arbitrary: m) (simp_all add: drain_raw_def Let_def case_prod_unfold)

lemma raw_move_modifiers: "is_raw_move r \<Longrightarrow> raw_modifiers w m r = m"
  by (cases r) (simp_all add: raw_modifiers_def)

lemma stamped_fst [simp]: "map fst (stamped w m rs) = rs"
  by (induction rs arbitrary: m) simp_all

section \<open>Which modifiers are stamped\<close>

definition tracked_flags :: "ModifierState list" where
  "tracked_flags = [MOD_SHIFT, MOD_CTRL, MOD_ALT, MOD_SUPER, MOD_CAPS_LOCK, MOD_NUM_LOCK]"

lemma modifier_flag_tracked: "modifier_flag w vk = Some f \<Longrightarrow> f \<in> set tracked_flags"
  by (auto simp: modifier_flag_def tracked_flags_def Let_def split: if_splits)

definition bit_flag :: "nat \<Rightarrow> ModifierState" where
  "bit_flag n = ModifierState (2 ^ n)"

lemma tracked_bit_flag: "f \<in> set tracked_flags \<Longrightarrow> \<exists>n<16. f = bit_flag n"
proof -
  assume "f \<in> set tracked_flags"
  moreover have "set tracked_flags = bit_flag ` {0, 1, 2, 3, 4, 5}"
    by (simp add: tracked_flags_def bit_flag_def mod_flag_defs)
  ultimately obtain n where "n \<in> {0 :: nat, 1, 2, 3, 4, 5}" "f = bit_flag n" by blast
  then show ?thesis by (intro exI [of _ n]) auto
qed

lemma bit_power_2: "n < 16 \<Longrightarrow> bit (2 ^ n :: u16) k \<longleftrightarrow> k = n"
  by (auto simp: bit_simps)

lemma contains_bit_flag: "n < 16 \<Longrightarrow> mod_contains m (bit_flag n) \<longleftrightarrow> bit (mod_bits m) n"
proof
  assume "n < 16" "mod_contains m (bit_flag n)"
  then show "bit (mod_bits m) n"
    unfolding mod_contains_def bit_flag_def ModifierState.sel by (metis bit_and_iff bit_power_2)
next
  assume "n < 16" "bit (mod_bits m) n"
  then show "mod_contains m (bit_flag n)"
    unfolding mod_contains_def bit_flag_def ModifierState.sel
    by (intro bit_eqI) (auto simp: bit_and_iff bit_power_2)
qed

lemma bit_flag_inj: "n < 16 \<Longrightarrow> k < 16 \<Longrightarrow> bit_flag n = bit_flag k \<longleftrightarrow> n = k"
  unfolding bit_flag_def by (metis ModifierState.inject bit_power_2)

lemma contains_insert_remove:
  assumes "f \<in> set tracked_flags" and "g \<in> set tracked_flags"
  shows "mod_contains (mod_insert m g) f \<longleftrightarrow> f = g \<or> mod_contains m f"
    and "mod_contains (mod_remove m g) f \<longleftrightarrow> f \<noteq> g \<and> mod_contains m f"
proof -
  obtain n k where n: "n < 16" "f = bit_flag n" and k: "k < 16" "g = bit_flag k"
    using assms tracked_bit_flag by metis
  have "bit (mod_bits (mod_insert m g)) n \<longleftrightarrow> n = k \<or> bit (mod_bits m) n"
    "bit (mod_bits (mod_remove m g)) n \<longleftrightarrow> n \<noteq> k \<and> bit (mod_bits m) n"
    using n(1) k(1) unfolding k(2) mod_insert_def mod_remove_def bit_flag_def ModifierState.sel
    by (auto simp: bit_or_iff bit_and_iff bit_not_iff bit_power_2 bit_imp_le_length)
  with n k show "mod_contains (mod_insert m g) f \<longleftrightarrow> f = g \<or> mod_contains m f"
    "mod_contains (mod_remove m g) f \<longleftrightarrow> f \<noteq> g \<and> mod_contains m f"
    by (simp_all add: contains_bit_flag bit_flag_inj)
qed

text \<open>The specification: a flag is up after its last press or release, whichever came last.\<close>

fun key_change :: "Win32 \<Rightarrow> ModifierState \<Rightarrow> RawEvent \<Rightarrow> bool option" where
  "key_change w f (RawKeyDown vk _) = (if modifier_flag w vk = Some f then Some True else None)"
| "key_change w f (RawKeyUp vk _) = (if modifier_flag w vk = Some f then Some False else None)"
| "key_change w f _ = None"

definition last_change :: "Win32 \<Rightarrow> ModifierState \<Rightarrow> RawEvent list \<Rightarrow> bool option" where
  "last_change w f rs = (case rev (List.map_filter (key_change w f) rs) of [] \<Rightarrow> None | b # _ \<Rightarrow> Some b)"

lemma last_change_snoc:
  "last_change w f (rs @ [r]) = (case key_change w f r of None \<Rightarrow> last_change w f rs | Some b \<Rightarrow> Some b)"
proof -
  have "List.map_filter g (rs @ [r]) = List.map_filter g rs @ (case g r of None \<Rightarrow> [] | Some b \<Rightarrow> [b])"
    for g :: "RawEvent \<Rightarrow> bool option"
    by (induction rs) (simp_all split: option.split)
  then show ?thesis by (simp add: last_change_def split: option.split)
qed

lemma raw_modifiers_flag:
  assumes "f \<in> set tracked_flags"
  shows "mod_contains (raw_modifiers w m r) f =
    (case key_change w f r of None \<Rightarrow> mod_contains m f | Some b \<Rightarrow> b)"
  using assms modifier_flag_tracked
  by (cases r) (auto simp: raw_modifiers_def update_modifiers_def contains_insert_remove split: option.split)

lemma modifiers_last_change:
  assumes "f \<in> set tracked_flags"
  shows "mod_contains (foldl (raw_modifiers w) m rs) f =
    (case last_change w f rs of None \<Rightarrow> mod_contains m f | Some b \<Rightarrow> b)"
proof (induction rs rule: rev_induct)
  case (snoc r rs)
  then show ?case using assms
    by (simp add: last_change_snoc raw_modifiers_flag split: option.split)
qed (simp add: last_change_def)

section \<open>What becomes of an input\<close>

text \<open>
  C24: Nothing is lost or duplicated between the hooks and the sink as long as the queue has room.
  With capture on exactly the recognised inputs reach the sink, each once and in order, keys stamped
  with the modifiers up to and including themselves, and everything but Escape and motion is kept
  from the local machine; with capture off nothing is kept from it and exactly the motion reaches the
  sink. Hence a mouse message that is not recognised, such as a press of an extra button, reaches
  neither side while capture is on.
\<close>

theorem capture_partition:
  assumes "wc_tx s" "wc_rx s" "wc_queue s = []" and "length is \<le> QUEUE_BOUND"
    and "hook_run w is s = (results, s')" and "wc_hook_capturing s = c"
    and "drain_queue w c m (wc_queue s') = (evs, m')"
  shows "map (\<lambda>r. r = Swallowed) results = map (\<lambda>i. c \<and> \<not> stays_local w i) is \<and>
    evs = map (\<lambda>(r, n). raw_to_input w n r)
      (filter (\<lambda>(r, n). c \<or> is_raw_move r) (stamped w m (input_events w is))) \<and>
    (c \<longrightarrow> length evs = length (filter (\<lambda>i. input_event w i \<noteq> None) is)) \<and>
    (\<not> c \<longrightarrow> list_all (\<lambda>ev. move_target ev \<noteq> None) evs)"
proof -
  have q: "wc_queue s' = input_events w is"
    and r: "map (\<lambda>r. r = Swallowed) results = map (\<lambda>i. c \<and> \<not> stays_local w i) is"
    using hook_run_spec [of s "is" w] assms by simp_all
  have evs: "evs = map (\<lambda>(r, n). raw_to_input w n r)
      (filter (\<lambda>(r, n). c \<or> is_raw_move r) (stamped w m (input_events w is)))"
    using drain_queue_spec(1) [of w c m "wc_queue s'"] assms(7) by (simp add: q)
  have len: "length (stamped w m rs) = length rs" for rs
    by (metis length_map stamped_fst)
  have "length (input_events w is) = length (filter (\<lambda>i. input_event w i \<noteq> None) is)"
    by (induction "is") (auto simp: input_events_def split: option.split)
  moreover have "is_raw_move r \<Longrightarrow> move_target (raw_to_input w n r) \<noteq> None" for r n
    by (cases r) simp_all
  ultimately show ?thesis
    using r evs by (auto simp: len list_all_iff)
qed

definition sample_wms :: "(string \<times> nat) list" where
  "sample_wms =
     [(''WM_KEYDOWN'', 256), (''WM_KEYUP'', 257), (''WM_SYSKEYDOWN'', 260), (''WM_SYSKEYUP'', 261),
      (''WM_MOUSEMOVE'', 512), (''WM_LBUTTONDOWN'', 513), (''WM_LBUTTONUP'', 514),
      (''WM_RBUTTONDOWN'', 516), (''WM_RBUTTONUP'', 517), (''WM_MBUTTONDOWN'', 519),
      (''WM_MBUTTONUP'', 520), (''WM_MOUSEWHEEL'', 522), (''WM_MOUSEHWHEEL'', 526)]"

definition sample_win32 :: Win32 where
  "sample_win32 =
     \<lparr>w32_vk = sample_vk,
      w32_wm = (\<lambda>name. case map_of sample_wms name of Some v \<Rightarrow> word_of_nat v | None \<Rightarrow> 0)\<rparr>"

lemma sample_wm [simp]:
  "w32_wm sample_win32 ''WM_KEYDOWN'' = 256" "w32_wm sample_win32 ''WM_SYSKEYDOWN'' = 260"
  "w32_wm sample_win32 ''WM_KEYUP'' = 257" "w32_wm sample_win32 ''WM_SYSKEYUP'' = 261"
  "w32_wm sample_win32 ''WM_MOUSEMOVE'' = 512" "w32_wm sample_win32 ''WM_LBUTTONDOWN'' = 513"
  "w32_wm sample_win32 ''WM_LBUTTONUP'' = 514" "w32_wm sample_win32 ''WM_RBUTTONDOWN'' = 516"
  "w32_wm sample_win32 ''WM_RBUTTONUP'' = 517" "w32_wm sample_win32 ''WM_MBUTTONDOWN'' = 519"
  "w32_wm sample_win32 ''WM_MBUTTONUP'' = 520" "w32_wm sample_win32 ''WM_MOUSEWHEEL'' = 522"
  "w32_wm sample_win32 ''WM_MOUSEHWHEEL'' = 526"
  by (simp_all add: sample_win32_def sample_wms_def)

lemma sample_win32_vk [simp]: "w32_vk sample_win32 = sample_vk"
  by (simp add: sample_win32_def)

text \<open>A press of A, a press of an extra button (message 523), and a motion, with capture on.\<close>

definition sample_inputs :: "os_input list" where
  "sample_inputs =
     [OsKey 0 256 \<lparr>kb_vkCode = 65, kb_scanCode = 30\<rparr>,
      OsMouse 0 523 \<lparr>ms_x = 7, ms_y = 8, ms_mouseData = 65536\<rparr>,
      OsMouse 0 512 \<lparr>ms_x = 7, ms_y = 9, ms_mouseData = 0\<rparr>]"

definition sample_capture :: CaptureState where
  "sample_capture =
     capture_new\<lparr>wc_running := True, wc_tx := True, wc_rx := True, wc_capturing := True,
       wc_hook_capturing := True, wc_keyboard_hook := 1, wc_mouse_hook := 2, wc_hook_thread := True,
       wc_drain_thread := True, wc_sink := Some 0\<rparr>"

theorem capture_partition_witness:
  "map (\<lambda>r. r = Swallowed) (fst (hook_run sample_win32 sample_inputs sample_capture)) = [True, True, False] \<and>
   length (fst (drain_queue sample_win32 True mod_empty
     (wc_queue (snd (hook_run sample_win32 sample_inputs sample_capture))))) = 2"
proof -
  let ?r = "hook_run sample_win32 sample_inputs sample_capture"
  let ?d = "drain_queue sample_win32 True mod_empty (wc_queue (snd ?r))"
  have "?r = (fst ?r, snd ?r)" "?d = (fst ?d, snd ?d)" by simp_all
  note part = capture_partition [OF _ _ _ _ this(1) _ this(2)]
  have s: "wc_tx sample_capture" "wc_rx sample_capture" "wc_queue sample_capture = []"
    "wc_hook_capturing sample_capture"
    by (simp_all add: sample_capture_def capture_new_def)
  have len: "length sample_inputs \<le> QUEUE_BOUND"
    by (simp add: sample_inputs_def QUEUE_BOUND_def)
  have esc: "sample_vk ''VK_ESCAPE'' = 27" by code_simp
  have loc: "map (stays_local sample_win32) sample_inputs = [False, False, True]"
    by (simp add: sample_inputs_def word_sle_eq esc)
  have ev: "map (\<lambda>i. input_event sample_win32 i \<noteq> None) sample_inputs = [True, False, True]"
    by (simp add: sample_inputs_def word_sle_eq keyboard_event_def mouse_event_def Let_def)
  have "length (filter (\<lambda>i. input_event sample_win32 i \<noteq> None) sample_inputs) = 2"
    using ev by (simp add: sample_inputs_def)
  moreover have "map (\<lambda>i. True \<and> \<not> stays_local sample_win32 i) sample_inputs = [True, True, False]"
    using loc by (simp add: sample_inputs_def)
  ultimately show ?thesis
    using part [OF s(1-3) len] s(4) by metis
qed

text \<open>
  One of two held keys of a pair releases the flag of both: after pressing left and right Shift and
  releasing the right one, events are stamped without Shift although the left one is down.
\<close>

theorem second_shift_release_clears_flag:
  assumes "l = ucast (w32_vk w ''VK_LSHIFT'')" and "r = ucast (w32_vk w ''VK_RSHIFT'')"
  shows "\<not> mod_contains (foldl (raw_modifiers w) m [RawKeyDown l a, RawKeyDown r b, RawKeyUp r b]) MOD_SHIFT"
proof -
  have "modifier_flag w r = Some MOD_SHIFT"
    by (simp add: modifier_flag_def assms(2) Let_def)
  then have "last_change w MOD_SHIFT [RawKeyDown l a, RawKeyDown r b, RawKeyUp r b] = Some False"
    by (simp add: last_change_def)
  then show ?thesis
    using modifiers_last_change [of MOD_SHIFT w m "[RawKeyDown l a, RawKeyDown r b, RawKeyUp r b]"]
    by (simp add: tracked_flags_def)
qed

section \<open>Shape of what is captured\<close>

text \<open>
  The events that a capture can produce: absolute motion, buttons, the wheel along one axis, and keys
  without a character, stamped with modifiers among the six that are tracked - AltGr is none of them.
\<close>

definition tracked_all :: ModifierState where
  "tracked_all = ModifierState 0x3F"

fun captured_shape :: "InputEvent \<Rightarrow> bool" where
  "captured_shape (Mouse (MoveAbs x y)) \<longleftrightarrow> True"
| "captured_shape (Mouse (MButton b s)) \<longleftrightarrow> True"
| "captured_shape (Mouse (MScroll d)) \<longleftrightarrow> sd_horizontal d = 0 \<or> sd_vertical d = 0"
| "captured_shape (Key k) \<longleftrightarrow> ke_character k = None \<and> ke_modifiers k \<le> tracked_all"
| "captured_shape _ \<longleftrightarrow> False"

lemma tracked_flag_le: "f \<in> set tracked_flags \<Longrightarrow> f \<le> tracked_all"
  by (auto simp: tracked_flags_def mod_flag_defs tracked_all_def less_eq_ModifierState_def)

lemma mod_remove_le: "mod_remove m f \<le> m"
  by (simp add: mod_remove_def mod_le_bits bit_simps)

lemma raw_modifiers_tracked: "m \<le> tracked_all \<Longrightarrow> raw_modifiers w m r \<le> tracked_all"
  using mod_remove_le order_trans
  by (fastforce simp: raw_modifiers_def update_modifiers_def mod_insert_sup
      dest: modifier_flag_tracked tracked_flag_le split: RawEvent.split option.split)

lemma raw_to_input_shape: "m \<le> tracked_all \<Longrightarrow> captured_shape (raw_to_input w m r)"
  by (cases r) simp_all

text \<open>
  C25: Everything the capture hands to the session has the shape of a captured event, and the modifiers
  it keeps are always a set of tracked flags: no undefined bit, no AltGr, no relative motion and no
  session event can come from the hooks.
\<close>

theorem captured_inputs_well_formed:
  "list_all captured_shape (fst (drain_queue w c mod_empty rs)) \<and> snd (drain_queue w c mod_empty rs) \<le> tracked_all"
proof -
  have "list_all captured_shape (fst (drain_queue w c m rs)) \<and> snd (drain_queue w c m rs) \<le> tracked_all"
    if "m \<le> tracked_all" for m
    using that
  proof (induction rs arbitrary: m)
    case (Cons r rs)
    from raw_modifiers_tracked [OF Cons.prems] have "raw_modifiers w m r \<le> tracked_all" .
    with Cons.IH raw_to_input_shape show ?case by (simp add: drain_raw_def Let_def case_prod_unfold)
  qed simp
  then show ?thesis by (simp add: mod_empty_bot)
qed

end
