(* ===== verification/KeyInjection.thy ===== *)
theory KeyInjection
  imports SessionClient KeyTables
begin

text \<open>
  The interface of an injector (trait \<open>Inject\<close> of \<open>crates/platform/src/traits.rs\<close>) as far as keys go:
  what it writes to the operating system for an event and for \<open>release_all_modifiers\<close>, and the keys the
  system then holds down. The session specifies the keys held as a set of key codes (\<open>held_after\<close>); an
  injector implements it when the system's keys are always the codes of that set. Both back ends are
  instances.
\<close>

text \<open>The platform codes of a set of keys; keys without a code do not show.\<close>

definition codes_of :: "(KeyCode \<Rightarrow> 'c option) \<Rightarrow> KeyCode set \<Rightarrow> 'c set" where
  "codes_of code K = {c. \<exists>k\<in>K. code k = Some c}"

text \<open>What the handling of an inbound effect writes.\<close>

fun effect_output :: "(InputEvent \<Rightarrow> 'o list) \<Rightarrow> 'o list \<Rightarrow> inbound_effect \<Rightarrow> 'o list" where
  "effect_output inject release (Inject ev) = inject ev"
| "effect_output inject release ReleaseAllModifiers = release"
| "effect_output inject release _ = []"

definition effects_output :: "(InputEvent \<Rightarrow> 'o list) \<Rightarrow> 'o list \<Rightarrow> inbound_effect list \<Rightarrow> 'o list" where
  "effects_output inject release effs = concat (map (effect_output inject release) effs)"

locale key_injector =
  fixes code :: "KeyCode \<Rightarrow> 'c option"
    and inject :: "InputEvent \<Rightarrow> 'o list"
    and release :: "'o list"
    and os_step :: "'c set \<Rightarrow> 'o \<Rightarrow> 'c set"
  assumes code_inj: "code a = Some c \<Longrightarrow> code b = Some c \<Longrightarrow> a = b"
    and inject_key: "foldl os_step C (inject (Key k)) =
      (case code (ke_code k) of None \<Rightarrow> C
       | Some c \<Rightarrow> (case ke_state k of Pressed \<Rightarrow> insert c C | Released \<Rightarrow> C - {c}))"
    and inject_other: "\<forall>k. ev \<noteq> Key k \<Longrightarrow> foldl os_step C (inject ev) = C"
    and release_modifiers: "foldl os_step C release = C - codes_of code modifier_keys"
begin

lemma codes_of_insert:
  "codes_of code (insert k K) = (case code k of None \<Rightarrow> codes_of code K | Some c \<Rightarrow> insert c (codes_of code K))"
  by (auto simp: codes_of_def split: option.split)

lemma codes_of_diff: "codes_of code (K - L) = codes_of code K - codes_of code L"
proof (intro equalityI subsetI)
  fix c assume "c \<in> codes_of code (K - L)"
  then obtain k where k: "k \<in> K" "k \<notin> L" "code k = Some c" by (auto simp: codes_of_def)
  then have "c \<notin> codes_of code L" using code_inj by (auto simp: codes_of_def)
  with k show "c \<in> codes_of code K - codes_of code L" by (auto simp: codes_of_def)
qed (auto simp: codes_of_def)

lemma codes_of_remove:
  "codes_of code (K - {k}) = (case code k of None \<Rightarrow> codes_of code K | Some c \<Rightarrow> codes_of code K - {c})"
  unfolding codes_of_diff by (auto simp: codes_of_def split: option.split)

lemma effect_refines:
  "foldl os_step (codes_of code H) (effect_output inject release eff) = codes_of code (held_step H eff)"
proof (cases eff)
  case (Inject ev)
  show ?thesis
  proof (cases ev)
    case (Key k)
    then show ?thesis using Inject
      by (cases "ke_state k") (simp_all add: inject_key codes_of_insert codes_of_remove split: option.split)
  qed (simp_all add: Inject inject_other)
qed (simp_all add: release_modifiers codes_of_diff)

text \<open>The refinement: the system holds exactly the codes of the keys the specification holds.\<close>

lemma effects_refine:
  "foldl os_step (codes_of code H) (effects_output inject release effs) = codes_of code (held_after H effs)"
  by (induction effs arbitrary: H) (simp_all add: effects_output_def effect_refines)

end

lemma in_modifier_keys [simp]: "K_Modifier m \<in> modifier_keys"
  by (simp add: modifier_keys_def)

end
