(* ===== verification/WindowsInject.thy ===== *)
theory WindowsInject
  imports KeyInjection
begin

text \<open>
  Input injection on Windows (\<open>crates/platform/src/windows/inject.rs\<close>). The \<open>windows\<close> crate and the
  system are a record of parameters: the constants by name, \<open>SendInput\<close> with the number of inputs it
  inserts into the input stream, \<open>MapVirtualKeyW\<close> and \<open>GetSystemMetrics\<close>. An operation gives its result
  and, for each of its calls of \<open>SendInput\<close>, the inputs that were inserted: by the documentation these are
  the first ones of the call, as many as it returns.
\<close>

section \<open>Inputs\<close>

datatype INPUT =
    MouseInput (mi_dx: i32) (mi_dy: i32) (mi_mouseData: u32) (mi_dwFlags: u32)
  | KeybdInput (ki_wVk: u16) (ki_wScan: u16) (ki_dwFlags: u32)

record Win32Inject =
  wi_vk :: "string \<Rightarrow> u16"
  wi_flag :: "string \<Rightarrow> u32"
  wi_send :: "INPUT list \<Rightarrow> u32"
  wi_scan :: "u32 \<Rightarrow> u32"
  wi_metric :: "string \<Rightarrow> i32"

type_synonym injected = "(Error + unit) \<times> INPUT list list"

definition send_input :: "Win32Inject \<Rightarrow> INPUT list \<Rightarrow> injected" where
  "send_input w inputs =
     (let written = wi_send w inputs in
      (if unat written \<noteq> length inputs
       then Err (EPlatform (''SendInput wrote '' @ show_nat (unat written) @ '' of '' @ show_nat (length inputs)))
       else Ok (),
       [take (unat written) inputs]))"

text \<open>A system that inserts whatever it is given.\<close>

definition inserts_all :: "Win32Inject \<Rightarrow> bool" where
  "inserts_all w \<longleftrightarrow> (\<forall>inputs. length inputs < 2 ^ 32 \<longrightarrow> unat (wi_send w inputs) = length inputs)"

section \<open>Mouse\<close>

text \<open>
  A coordinate scaled to the normalised range of the virtual desktop. The product is computed in 64
  bits, where it cannot overflow, divided towards zero and truncated to 32 bits.
\<close>

definition normalised :: "i32 \<Rightarrow> i32 \<Rightarrow> i32" where
  "normalised x extent =
     (if 0 <s extent then word_of_int ((sint x * 65535) sdiv sint extent) else 0)"

definition move_absolute :: "Win32Inject \<Rightarrow> i32 \<Rightarrow> i32 \<Rightarrow> injected" where
  "move_absolute w x y =
     (let virtual_w = wi_metric w ''SM_CXVIRTUALSCREEN'';
          virtual_h = wi_metric w ''SM_CYVIRTUALSCREEN'';
          nx = normalised x virtual_w;
          ny = normalised y virtual_h
      in send_input w [MouseInput nx ny 0
           (wi_flag w ''MOUSEEVENTF_MOVE'' OR wi_flag w ''MOUSEEVENTF_ABSOLUTE'' OR
            wi_flag w ''MOUSEEVENTF_VIRTUALDESK'')])"

definition move_relative :: "Win32Inject \<Rightarrow> i32 \<Rightarrow> i32 \<Rightarrow> injected" where
  "move_relative w dx dy = send_input w [MouseInput dx dy 0 (wi_flag w ''MOUSEEVENTF_MOVE'')]"

fun button_flags :: "Button \<Rightarrow> bool \<Rightarrow> (string \<times> u32) option" where
  "button_flags BtnLeft True = Some (''MOUSEEVENTF_LEFTDOWN'', 0)"
| "button_flags BtnLeft False = Some (''MOUSEEVENTF_LEFTUP'', 0)"
| "button_flags BtnRight True = Some (''MOUSEEVENTF_RIGHTDOWN'', 0)"
| "button_flags BtnRight False = Some (''MOUSEEVENTF_RIGHTUP'', 0)"
| "button_flags BtnMiddle True = Some (''MOUSEEVENTF_MIDDLEDOWN'', 0)"
| "button_flags BtnMiddle False = Some (''MOUSEEVENTF_MIDDLEUP'', 0)"
| "button_flags BtnBack True = Some (''MOUSEEVENTF_XDOWN'', 1)"
| "button_flags BtnBack False = Some (''MOUSEEVENTF_XUP'', 1)"
| "button_flags BtnForward True = Some (''MOUSEEVENTF_XDOWN'', 2)"
| "button_flags BtnForward False = Some (''MOUSEEVENTF_XUP'', 2)"
| "button_flags (BtnOther _) _ = None"

definition mouse_button :: "Win32Inject \<Rightarrow> Button \<Rightarrow> KeyState \<Rightarrow> injected" where
  "mouse_button w button state =
     (case button_flags button (state = Pressed) of
        None \<Rightarrow> (Ok (), [])
      | Some (flags, data) \<Rightarrow> send_input w [MouseInput 0 0 data (wi_flag w flags)])"

definition mouse_scroll :: "Win32Inject \<Rightarrow> i16 \<Rightarrow> i16 \<Rightarrow> injected" where
  "mouse_scroll w horizontal vertical =
     (let inputs =
        (if vertical \<noteq> 0
         then [MouseInput 0 0 (scast vertical) (wi_flag w ''MOUSEEVENTF_WHEEL'')] else []) @
        (if horizontal \<noteq> 0
         then [MouseInput 0 0 (scast horizontal) (wi_flag w ''MOUSEEVENTF_HWHEEL'')] else [])
      in if inputs = [] then (Ok (), []) else send_input w inputs)"

section \<open>Keys\<close>

definition key_vk :: "Win32Inject \<Rightarrow> u16 \<Rightarrow> bool \<Rightarrow> injected" where
  "key_vk w vk down =
     send_input w [KeybdInput vk (ucast (wi_scan w (ucast vk)))
       (if down then 0 else wi_flag w ''KEYEVENTF_KEYUP'')]"

definition key_event :: "Win32Inject \<Rightarrow> KeyEvent \<Rightarrow> injected" where
  "key_event w k =
     (case keycode_to_vk (wi_vk w) (ke_code k) of
        None \<Rightarrow> (Ok (), [])
      | Some vk \<Rightarrow> key_vk w vk (ke_state k = Pressed))"

fun windows_inject :: "Win32Inject \<Rightarrow> InputEvent \<Rightarrow> injected" where
  "windows_inject w (Mouse (MoveAbs x y)) = move_absolute w x y"
| "windows_inject w (Mouse (MoveRelative dx dy)) = move_relative w dx dy"
| "windows_inject w (Mouse (MButton button state)) = mouse_button w button state"
| "windows_inject w (Mouse (MScroll delta)) = mouse_scroll w (sd_horizontal delta) (sd_vertical delta)"
| "windows_inject w (Key k) = key_event w k"
| "windows_inject w _ = (Ok (), [])"

definition release_vks :: "string list" where
  "release_vks =
     [''VK_LSHIFT'', ''VK_RSHIFT'', ''VK_LCONTROL'', ''VK_RCONTROL'', ''VK_LMENU'', ''VK_RMENU'',
      ''VK_LWIN'', ''VK_RWIN'']"

definition windows_release_all_modifiers :: "Win32Inject \<Rightarrow> injected" where
  "windows_release_all_modifiers w =
     (Ok (), concat (map (\<lambda>vk. snd (key_vk w (wi_vk w vk) False)) release_vks))"

section \<open>The keyboard of the system\<close>

text \<open>
  What the documentation of \<open>SendInput\<close> says of keyboard inputs: a virtual key goes up when the flags
  are those of a release, and down otherwise.
\<close>

fun vk_step :: "u32 \<Rightarrow> u16 set \<Rightarrow> INPUT \<Rightarrow> u16 set" where
  "vk_step keyup V (KeybdInput vk scan flags) = (if flags = keyup then V - {vk} else insert vk V)"
| "vk_step keyup V (MouseInput dx dy data flags) = V"

lemma send_input_outputs: "snd (send_input w inputs) = [take (unat (wi_send w inputs)) inputs]"
  by (simp add: send_input_def Let_def)

lemma send_input_all:
  "inserts_all w \<Longrightarrow> length inputs < 2 ^ 32 \<Longrightarrow> send_input w inputs = (Ok (), [inputs])"
  by (simp add: send_input_def inserts_all_def Let_def)

fun is_mouse_input :: "INPUT \<Rightarrow> bool" where
  "is_mouse_input (MouseInput dx dy data flags) \<longleftrightarrow> True"
| "is_mouse_input (KeybdInput vk scan flags) \<longleftrightarrow> False"

lemma mouse_inputs: "list_all is_mouse_input inputs \<Longrightarrow> foldl (vk_step up) V inputs = V"
  by (induction inputs; simp) (metis INPUT.exhaust is_mouse_input.simps(2) vk_step.simps(2))

lemma send_mouse_inputs:
  "list_all is_mouse_input inputs \<Longrightarrow> foldl (vk_step up) V (concat (snd (send_input w inputs))) = V"
proof -
  assume "list_all is_mouse_input inputs"
  then have "list_all is_mouse_input (take n inputs)" for n
    by (auto simp: list_all_iff dest: in_set_takeD)
  then show ?thesis by (simp add: send_input_outputs mouse_inputs)
qed

lemma mouse_outputs:
  "foldl (vk_step up) V (concat (snd (move_absolute w x y))) = V"
  "foldl (vk_step up) V (concat (snd (move_relative w dx dy))) = V"
  "foldl (vk_step up) V (concat (snd (mouse_button w b st))) = V"
  "foldl (vk_step up) V (concat (snd (mouse_scroll w h v))) = V"
  by (auto simp: move_absolute_def move_relative_def mouse_button_def mouse_scroll_def Let_def
      send_mouse_inputs split: option.split)

lemma other_outputs:
  "\<forall>k. ev \<noteq> Key k \<Longrightarrow> foldl (vk_step up) V (concat (snd (windows_inject w ev))) = V"
  by (cases "(w, ev)" rule: windows_inject.cases) (simp_all add: mouse_outputs)

lemma release_vks_modifiers:
  "wi_vk w ` set release_vks = codes_of (keycode_to_vk (wi_vk w)) modifier_keys"
proof -
  have "set release_vks \<subseteq> range modifier_vk"
    using rangeI [of modifier_vk K_LeftCtrl] rangeI [of modifier_vk K_LeftShift]
      rangeI [of modifier_vk K_LeftAlt] rangeI [of modifier_vk K_LeftSuper]
      rangeI [of modifier_vk K_RightCtrl] rangeI [of modifier_vk K_RightShift]
      rangeI [of modifier_vk K_RightAlt] rangeI [of modifier_vk K_RightSuper]
    by (simp add: release_vks_def)
  moreover have "modifier_vk m \<in> set release_vks" for m
    by (cases m) (simp_all add: release_vks_def)
  ultimately have "set release_vks = range modifier_vk" by blast
  then show ?thesis
    by (auto simp: codes_of_def modifier_keys_def keycode_to_vk_def image_image)
qed

lemma release_outputs:
  assumes "inserts_all w" and "wi_flag w ''KEYEVENTF_KEYUP'' = up"
  shows "foldl (vk_step up) V (concat (snd (windows_release_all_modifiers w))) = V - wi_vk w ` set release_vks"
proof -
  have "foldl (vk_step up) V (concat (concat (map (\<lambda>vk. snd (key_vk w (wi_vk w vk) False)) vks))) =
      V - wi_vk w ` set vks" for vks
    using assms by (induction vks arbitrary: V) (auto simp: key_vk_def send_input_all)
  then show ?thesis by (simp add: windows_release_all_modifiers_def)
qed

text \<open>
  The Windows back end is an injector, given distinct constants, a flag for releases and a system that
  inserts what it is given.
\<close>

lemma windows_key_injector:
  assumes "vk_distinct (wi_vk w)" and "wi_flag w ''KEYEVENTF_KEYUP'' \<noteq> 0" and "inserts_all w"
  shows "key_injector (keycode_to_vk (wi_vk w)) (\<lambda>ev. concat (snd (windows_inject w ev)))
    (concat (snd (windows_release_all_modifiers w))) (vk_step (wi_flag w ''KEYEVENTF_KEYUP''))"
proof
  show "a = b" if "keycode_to_vk (wi_vk w) a = Some c" "keycode_to_vk (wi_vk w) b = Some c" for a b c
    using keycode_to_vk_inj [OF assms(1) that] .
  show "foldl (vk_step (wi_flag w ''KEYEVENTF_KEYUP'')) C (concat (snd (windows_inject w (Key k)))) =
      (case keycode_to_vk (wi_vk w) (ke_code k) of None \<Rightarrow> C
       | Some c \<Rightarrow> (case ke_state k of Pressed \<Rightarrow> insert c C | Released \<Rightarrow> C - {c}))" for C k
    using assms(2) by (cases "ke_state k") (auto simp: key_event_def key_vk_def send_input_all [OF assms(3)] split: option.split)
  show "foldl (vk_step (wi_flag w ''KEYEVENTF_KEYUP'')) C (concat (snd (windows_inject w ev))) = C"
    if "\<forall>k. ev \<noteq> Key k" for C ev
    using that by (rule other_outputs)
  show "foldl (vk_step (wi_flag w ''KEYEVENTF_KEYUP'')) C (concat (snd (windows_release_all_modifiers w))) =
      C - codes_of (keycode_to_vk (wi_vk w)) modifier_keys" for C
    by (simp add: release_outputs [OF assms(3)] release_vks_modifiers)
qed

definition sample_flags :: "string list" where
  "sample_flags =
     [''MOUSEEVENTF_MOVE'', ''MOUSEEVENTF_LEFTDOWN'', ''MOUSEEVENTF_LEFTUP'', ''MOUSEEVENTF_RIGHTDOWN'',
      ''MOUSEEVENTF_RIGHTUP'', ''MOUSEEVENTF_MIDDLEDOWN'', ''MOUSEEVENTF_MIDDLEUP'', ''MOUSEEVENTF_XDOWN'',
      ''MOUSEEVENTF_XUP'']"

definition sample_inject :: Win32Inject where
  "sample_inject =
     \<lparr>wi_vk = sample_vk,
      wi_flag = (\<lambda>name. if name = ''KEYEVENTF_KEYUP'' then 2 else
         word_of_nat (length (takeWhile (\<lambda>n. n \<noteq> name) sample_flags))),
      wi_send = (\<lambda>inputs. word_of_nat (length inputs)),
      wi_scan = (\<lambda>vk. vk),
      wi_metric = (\<lambda>name. if name = ''SM_CXVIRTUALSCREEN'' then 1920 else 1080)\<rparr>"

lemma sample_inject_simps [simp]:
  "wi_vk sample_inject = sample_vk" "wi_flag sample_inject ''KEYEVENTF_KEYUP'' = 2"
  by (simp_all add: sample_inject_def)

lemma sample_inserts_all [simp]: "inserts_all sample_inject"
  by (simp add: inserts_all_def sample_inject_def unat_of_nat)

interpretation sample_windows: key_injector "keycode_to_vk sample_vk"
  "\<lambda>ev. concat (snd (windows_inject sample_inject ev))"
  "concat (snd (windows_release_all_modifiers sample_inject))" "vk_step 2"
  using windows_key_injector [of sample_inject] sample_vk_distinct by simp

section \<open>What injection promises\<close>

text \<open>
  C27: On a system whose \<open>SendInput\<close> inserts what it is given, the keyboard of a Windows client is a
  refinement of the specification of the session: after any sequence of inbound effects the virtual
  keys that are down are exactly those of the keys the specification holds, if they were before. Presses, releases, the resynchronisation after a screen
  entry and the release of all modifiers touch no other key, and keys without a virtual key code
  leave no trace.
\<close>

theorem windows_keyboard_refines:
  assumes "vk_distinct (wi_vk w)" and "wi_flag w ''KEYEVENTF_KEYUP'' \<noteq> 0"
    and "inserts_all w" and "V = codes_of (keycode_to_vk (wi_vk w)) H"
  shows "foldl (vk_step (wi_flag w ''KEYEVENTF_KEYUP'')) V
      (effects_output (\<lambda>ev. concat (snd (windows_inject w ev)))
        (concat (snd (windows_release_all_modifiers w))) effs) =
    codes_of (keycode_to_vk (wi_vk w)) (held_after H effs)"
  unfolding assms(4) by (rule key_injector.effects_refine [OF windows_key_injector [OF assms(1-3)]])

theorem windows_keyboard_refines_witness:
  "foldl (vk_step 2) {sample_vk ''VK_A''}
     (effects_output (\<lambda>ev. concat (snd (windows_inject sample_inject ev)))
        (concat (snd (windows_release_all_modifiers sample_inject))) (resync_modifiers MOD_SHIFT)) =
   {sample_vk ''VK_A'', sample_vk ''VK_LSHIFT''}"
proof -
  have a: "codes_of (keycode_to_vk sample_vk) {K_Letter K_A} = {sample_vk ''VK_A''}"
    by (auto simp: codes_of_def keycode_to_vk_def)
  have "keys_of_modifiers MOD_SHIFT = {K_Modifier K_LeftShift}"
  proof -
    have "MOD_SHIFT \<le> MOD_SHIFT" "\<not> MOD_CTRL \<le> MOD_SHIFT" "\<not> MOD_ALT \<le> MOD_SHIFT" "\<not> MOD_SUPER \<le> MOD_SHIFT"
      by (simp_all add: mod_flag_defs less_eq_ModifierState_def)
    then show ?thesis by (auto simp: keys_of_modifiers_def modifier_table_def)
  qed
  then have h: "held_after {K_Letter K_A} (resync_modifiers MOD_SHIFT) = {K_Letter K_A, K_Modifier K_LeftShift}"
    unfolding held_after_resync by (auto simp: modifier_keys_def)
  have b: "codes_of (keycode_to_vk sample_vk) {K_Letter K_A, K_Modifier K_LeftShift} =
      {sample_vk ''VK_A'', sample_vk ''VK_LSHIFT''}"
    by (auto simp: codes_of_def keycode_to_vk_def)
  show ?thesis
    using windows_keyboard_refines [of sample_inject "{sample_vk ''VK_A''}" "{K_Letter K_A}"
        "resync_modifiers MOD_SHIFT"]
    by (simp add: sample_vk_distinct a b h)
qed

text \<open>
  Without that hypothesis: a key event changes the keyboard exactly when its injection succeeds, so a
  key whose press or release the system refuses is left as it was, and the caller is told.
\<close>

theorem refused_key_changes_nothing:
  assumes "\<forall>inputs. unat (wi_send w inputs) \<le> length inputs" and "wi_flag w ''KEYEVENTF_KEYUP'' \<noteq> 0"
    and "keycode_to_vk (wi_vk w) (ke_code k) = Some vk"
  shows "foldl (vk_step (wi_flag w ''KEYEVENTF_KEYUP'')) V (concat (snd (windows_inject w (Key k)))) =
    (if is_ok (fst (windows_inject w (Key k)))
     then (case ke_state k of Pressed \<Rightarrow> insert vk V | Released \<Rightarrow> V - {vk}) else V)"
proof -
  let ?input = "KeybdInput vk (ucast (wi_scan w (ucast vk)))
     (if ke_state k = Pressed then 0 else wi_flag w ''KEYEVENTF_KEYUP'')"
  have "unat (wi_send w [?input]) \<le> length [?input]" using assms(1) by blast
  then consider "unat (wi_send w [?input]) = 0" | "unat (wi_send w [?input]) = Suc 0"
    by (auto simp: le_Suc_eq)
  then show ?thesis
    using assms(2,3) by cases (cases "ke_state k"; simp add: key_event_def key_vk_def send_input_def Let_def)+
qed

lemma normalised_value:
  assumes "0 \<le> sint x" and "sint x < sint e"
  shows "sint (normalised x e) = sint x * 65535 div sint e" and "sint x * 65535 div sint e < 65535"
proof -
  have pos: "0 < sint e" using assms by simp
  have "sint x * 65535 < 65535 * sint e" using assms by simp
  moreover have "sint x * 65535 div sint e * sint e \<le> sint x * 65535"
    using div_mult_mod_eq [of "sint x * 65535" "sint e"] pos_mod_sign [OF pos, of "sint x * 65535"]
    by linarith
  ultimately have "sint x * 65535 div sint e * sint e < 65535 * sint e" by linarith
  then show lt: "sint x * 65535 div sint e < 65535"
    using pos by simp
  have "sint x * 65535 sdiv sint e = sint x * 65535 div sint e"
    using assms by (auto simp: signed_divide_int_def sgn_if)
  moreover have "0 \<le> sint x * 65535 div sint e"
    using assms by (intro pos_imp_zdiv_nonneg_iff [THEN iffD2]) simp_all
  ultimately show "sint (normalised x e) = sint x * 65535 div sint e"
    using pos lt by (simp add: normalised_def word_sless_alt sint_word_of_int32)
qed

text \<open>
  C40: An absolute position on the desktop of a Windows client is scaled into the normalised range:
  positions inside the desktop give values from 0 to 65534, in the same order, and on a desktop of
  up to 65535 pixels no two positions are merged.
\<close>

theorem normalised_range:
  assumes "0 \<le> sint x" and "sint x < sint x'" and "sint x' < sint e" and "sint e \<le> 65535"
  shows "0 \<le> sint (normalised x e) \<and> sint (normalised x e) < sint (normalised x' e) \<and>
    sint (normalised x' e) < 65535"
proof -
  have e: "0 < sint e" using assms by simp
  have "sint x * 65535 + sint e \<le> sint x' * 65535"
    using assms(2,4) by simp
  then have "(sint x * 65535 + sint e) div sint e \<le> sint x' * 65535 div sint e"
    using e by (rule zdiv_mono1)
  moreover have "(sint x * 65535 + sint e) div sint e = sint x * 65535 div sint e + 1"
    using e div_add_self2 [of "sint e" "sint x * 65535"] by simp
  ultimately have "sint x * 65535 div sint e < sint x' * 65535 div sint e"
    by linarith
  moreover have "0 \<le> sint x * 65535 div sint e"
    using assms(1) e by (intro pos_imp_zdiv_nonneg_iff [THEN iffD2]) simp_all
  ultimately show ?thesis
    using normalised_value [of x e] normalised_value [of x' e] assms by simp
qed

theorem normalised_range_witness:
  "sint (normalised 1918 1920) < sint (normalised 1919 1920) \<and> sint (normalised 1919 1920) < 65535"
  using normalised_range [of 1918 1919 1920] by simp

end
