(* ===== verification/LinuxInject.thy ===== *)
theory LinuxInject
  imports KeyInjection Platform
begin

text \<open>
  The Linux back end (\<open>crates/platform/src/linux/inject.rs\<close> and \<open>linux/mod.rs\<close>): creating the uinput
  device, injecting events as batches of evdev events, the fallback that drops everything, and the
  capture stub. The codes of the relative axes and the outcome of every call of the \<open>input_linux\<close>
  crate are parameters.
\<close>

section \<open>Creating the device\<close>

definition BTN_LEFT :: u16 where "BTN_LEFT = 0x110"
definition BTN_RIGHT :: u16 where "BTN_RIGHT = 0x111"
definition BTN_MIDDLE :: u16 where "BTN_MIDDLE = 0x112"
definition BTN_BACK :: u16 where "BTN_BACK = 0x116"
definition BTN_FORWARD :: u16 where "BTN_FORWARD = 0x115"

lemmas btn_defs = BTN_LEFT_def BTN_RIGHT_def BTN_MIDDLE_def BTN_BACK_def BTN_FORWARD_def

text \<open>
  The outcome of each call - opening the file, declaring a capability, creating the device - and the
  enumeration \<open>Key\<close> of the crate: its codes in order, which of them are keys and not buttons, and
  which numbers are codes at all.
\<close>

datatype open_error = PermissionDenied | OtherIo string

record Uinput =
  ui_open :: "open_error + unit"
  ui_evbit :: "string \<Rightarrow> string + unit"
  ui_key_iter :: "u16 list"
  ui_is_key :: "u16 \<Rightarrow> bool"
  ui_from_code :: "u16 \<Rightarrow> bool"
  ui_keybit :: "u16 \<Rightarrow> string + unit"
  ui_relbit :: "string \<Rightarrow> string + unit"
  ui_create :: "string + unit"

text \<open>Lower case hexadecimal digits without leading zeros, as \<open>{:x}\<close> prints them.\<close>

fun show_hex :: "nat \<Rightarrow> string" where
  "show_hex n = (if n < 16 then [''0123456789abcdef'' ! n]
                 else show_hex (n div 16) @ [''0123456789abcdef'' ! (n mod 16)])"

declare show_hex.simps [simp del]

definition io_err :: "string \<Rightarrow> string \<Rightarrow> Error" where
  "io_err ctx e = EPlatform (''uinput '' @ ctx @ '': '' @ e)"

fun declare_all :: "('a \<Rightarrow> Error + unit) \<Rightarrow> 'a list \<Rightarrow> Error + unit" where
  "declare_all f [] = Ok ()"
| "declare_all f (x # xs) = try_then (f x) (\<lambda>_. declare_all f xs)"

definition declare_button :: "Uinput \<Rightarrow> u16 \<Rightarrow> Error + unit" where
  "declare_button u btn =
     (if ui_from_code u btn
      then map_err (io_err (''set_keybit btn 0x'' @ show_hex (unat btn))) (ui_keybit u btn)
      else Ok ())"

text \<open>The keys that the loop over all codes gets declared: a code the kernel rejects is skipped.\<close>

definition declare_keys :: "Uinput \<Rightarrow> u16 list" where
  "declare_keys u = filter (\<lambda>k. is_ok (ui_keybit u k)) (filter (ui_is_key u) (ui_key_iter u))"

definition device_buttons :: "u16 list" where
  "device_buttons = [BTN_LEFT, BTN_RIGHT, BTN_MIDDLE, BTN_BACK, BTN_FORWARD]"

definition permission_hint :: string where
  "permission_hint =
     ''permission denied opening /dev/uinput - add your user to the '' @ [CHR 0x27] @ ''uinput'' @
     [CHR 0x27] @ '' and '' @ [CHR 0x27] @ ''input'' @ [CHR 0x27] @
     '' groups (the .deb installer does this), then log out and back in''"

text \<open>
  The injector is its device, with the keys and buttons declared for it, and its last known position;
  \<open>new\<close> starts at the origin.
\<close>

definition linux_inject_new :: "Uinput \<Rightarrow> Error + (u16 list \<times> i32 \<times> i32)" where
  "linux_inject_new u =
     try_then (map_err (\<lambda>e. case e of PermissionDenied \<Rightarrow> EPlatform permission_hint
                                    | OtherIo s \<Rightarrow> EPlatform (''open /dev/uinput: '' @ s)) (ui_open u))
     (\<lambda>_. try_then (declare_all (\<lambda>k. map_err (io_err (''set_evbit '' @ k)) (ui_evbit u k))
              [''Key'', ''Relative'', ''Synchronize''])
     (\<lambda>_. try_then (declare_all (declare_button u) device_buttons)
     (\<lambda>_. try_then (declare_all (\<lambda>a. map_err (io_err (''set_relbit '' @ a)) (ui_relbit u a))
              [''X'', ''Y'', ''Wheel'', ''HorizontalWheel'', ''WheelHiRes'', ''HorizontalWheelHiRes''])
     (\<lambda>_. try_then (map_err (io_err ''create'') (ui_create u))
     (\<lambda>_. Ok (declare_keys u @ filter (ui_from_code u) device_buttons, 0, 0))))))"

section \<open>Events\<close>

record input_event =
  ie_time :: "int \<times> int"
  ie_type :: u16
  ie_code :: u16
  ie_value :: i32

definition EV_SYN :: u16 where "EV_SYN = 0"
definition EV_KEY :: u16 where "EV_KEY = 1"
definition EV_REL :: u16 where "EV_REL = 2"
definition SYN_REPORT :: u16 where "SYN_REPORT = 0"

definition input_event_raw :: "u16 \<Rightarrow> u16 \<Rightarrow> i32 \<Rightarrow> input_event" where
  "input_event_raw ty code v = \<lparr>ie_time = (0, 0), ie_type = ty, ie_code = code, ie_value = v\<rparr>"

definition key_event_raw :: "u16 \<Rightarrow> i32 \<Rightarrow> input_event" where
  "key_event_raw code v = input_event_raw EV_KEY code v"

definition syn_event :: input_event where
  "syn_event = input_event_raw EV_SYN SYN_REPORT 0"

fun key_state_value :: "KeyState \<Rightarrow> i32" where
  "key_state_value Pressed = 1"
| "key_state_value Released = 0"

fun button_to_evdev :: "Button \<Rightarrow> u16 option" where
  "button_to_evdev BtnLeft = Some BTN_LEFT"
| "button_to_evdev BtnRight = Some BTN_RIGHT"
| "button_to_evdev BtnMiddle = Some BTN_MIDDLE"
| "button_to_evdev BtnBack = Some BTN_BACK"
| "button_to_evdev BtnForward = Some BTN_FORWARD"
| "button_to_evdev (BtnOther _) = None"

section \<open>Injection\<close>

text \<open>
  \<open>ls_write\<close> is the outcome of a write to the device: an error, with nothing written, or how many of the
  events, the first ones, were. An operation gives its result and, for each write, the events written.
\<close>

record LinuxSys =
  ls_axis :: "string \<Rightarrow> u16"
  ls_write :: "input_event list \<Rightarrow> string + nat"

definition rel_event :: "LinuxSys \<Rightarrow> string \<Rightarrow> i32 \<Rightarrow> input_event" where
  "rel_event sys axis v = input_event_raw EV_REL (ls_axis sys axis) v"

definition events_taken :: "string + nat \<Rightarrow> input_event list \<Rightarrow> input_event list" where
  "events_taken r es = (case r of Inl e \<Rightarrow> [] | Inr n \<Rightarrow> take n es)"

text \<open>A device that takes whatever it is given.\<close>

definition takes_all :: "LinuxSys \<Rightarrow> bool" where
  "takes_all sys \<longleftrightarrow> (\<forall>es. ls_write sys es = Inr (length es))"

type_synonym written = "(Error + unit) \<times> input_event list list"

definition write_batch :: "LinuxSys \<Rightarrow> input_event list \<Rightarrow> written" where
  "write_batch sys events =
     (let es = events @ [syn_event] in
      (case ls_write sys es of
         Inl e \<Rightarrow> Err (EPlatform (''uinput write: '' @ e))
       | Inr n \<Rightarrow>
           if n \<noteq> length es
           then Err (EPlatform (''uinput short write: '' @ show_nat n @ ''/'' @ show_nat (length es)))
           else Ok (),
       [events_taken (ls_write sys es) es]))"

text \<open>Rust's \<open>saturating_add\<close> on \<open>i32\<close>.\<close>

definition i32_saturating_add :: "i32 \<Rightarrow> i32 \<Rightarrow> i32" where
  "i32_saturating_add a b = word_of_int (max (- (2 ^ 31)) (min (2 ^ 31 - 1) (sint a + sint b)))"

definition inject_key :: "LinuxSys \<Rightarrow> KeyEvent \<Rightarrow> written" where
  "inject_key sys k =
     (case hid_to_evdev (ke_code k) of
        None \<Rightarrow> (Ok (), [])
      | Some code \<Rightarrow> write_batch sys [key_event_raw code (key_state_value (ke_state k))])"

definition inject_scroll :: "LinuxSys \<Rightarrow> ScrollDelta \<Rightarrow> written" where
  "inject_scroll sys delta =
     (let v = sd_vertical delta; h = sd_horizontal delta;
          evs = (if v \<noteq> 0 then [rel_event sys ''Wheel'' (scast v),
                                rel_event sys ''WheelHiRes'' (scast v * 120)] else []) @
                (if h \<noteq> 0 then [rel_event sys ''HorizontalWheel'' (scast h),
                                rel_event sys ''HorizontalWheelHiRes'' (scast h * 120)] else [])
      in if evs = [] then (Ok (), []) else write_batch sys evs)"

fun linux_inject :: "LinuxSys \<Rightarrow> i32 \<times> i32 \<Rightarrow> InputEvent \<Rightarrow> written \<times> (i32 \<times> i32)" where
  "linux_inject sys (lx, ly) (Mouse (MoveAbs x y)) =
     (let dx = x - lx; dy = y - ly in
      (if dx \<noteq> 0 \<or> dy \<noteq> 0 then write_batch sys [rel_event sys ''X'' dx, rel_event sys ''Y'' dy]
       else (Ok (), []),
       (x, y)))"
| "linux_inject sys (lx, ly) (Mouse (MoveRelative dx dy)) =
     (write_batch sys [rel_event sys ''X'' dx, rel_event sys ''Y'' dy],
      (i32_saturating_add lx dx, i32_saturating_add ly dy))"
| "linux_inject sys lp (Mouse (MButton button state)) =
     (case button_to_evdev button of
        None \<Rightarrow> (Ok (), [])
      | Some code \<Rightarrow> write_batch sys [key_event_raw code (key_state_value state)], lp)"
| "linux_inject sys lp (Mouse (MScroll delta)) = (inject_scroll sys delta, lp)"
| "linux_inject sys lp (Key k) = (inject_key sys k, lp)"
| "linux_inject sys lp _ = ((Ok (), []), lp)"

definition linux_release_all_modifiers :: "LinuxSys \<Rightarrow> written" where
  "linux_release_all_modifiers sys =
     (let events = map (\<lambda>k. key_event_raw (evdev_code (K_Modifier k)) 0)
            [K_LeftCtrl, K_RightCtrl, K_LeftShift, K_RightShift, K_LeftAlt, K_RightAlt,
             K_LeftSuper, K_RightSuper] @ [syn_event]
      in (case ls_write sys events of
            Inl e \<Rightarrow> Err (EPlatform (''uinput write modifiers: '' @ e))
          | Inr n \<Rightarrow> Ok (),
          [events_taken (ls_write sys events) events]))"

section \<open>The platform\<close>

text \<open>The injector of the platform: the device, or the fallback that drops everything.\<close>

datatype LinuxInjector = UinputInject "u16 list" "i32 \<times> i32" | NullInject

definition linux_new :: "Uinput \<Rightarrow> LinuxInjector" where
  "linux_new u = (case linux_inject_new u of Inr (keys, lp) \<Rightarrow> UinputInject keys lp | Inl e \<Rightarrow> NullInject)"

fun injector_inject :: "LinuxSys \<Rightarrow> LinuxInjector \<Rightarrow> InputEvent \<Rightarrow> written \<times> LinuxInjector" where
  "injector_inject sys (UinputInject keys lp) ev =
     (case linux_inject sys lp ev of (r, lp') \<Rightarrow> (r, UinputInject keys lp'))"
| "injector_inject sys NullInject ev = ((Ok (), []), NullInject)"

fun injector_release :: "LinuxSys \<Rightarrow> LinuxInjector \<Rightarrow> written" where
  "injector_release sys (UinputInject keys lp) = linux_release_all_modifiers sys"
| "injector_release sys NullInject = (Ok (), [])"

text \<open>The capture stub: its switch, and nothing else.\<close>

definition linux_capture_start :: "bool \<Rightarrow> (Error + unit) \<times> bool" where
  "linux_capture_start capturing = (Ok (), capturing)"

definition linux_capture_stop :: "bool \<Rightarrow> (Error + unit) \<times> bool" where
  "linux_capture_stop capturing = (Ok (), False)"

definition linux_set_capturing :: "bool \<Rightarrow> bool \<Rightarrow> bool" where
  "linux_set_capturing b capturing = b"

definition linux_cursor_position :: "Error + CursorPos" where
  "linux_cursor_position = Err (EPlatform ''linux cursor query not yet implemented'')"

definition linux_warp_cursor :: "CursorPos \<Rightarrow> Error + unit" where
  "linux_warp_cursor pos = Err (EPlatform ''linux warp_cursor not yet implemented'')"

section \<open>Handling the effects of a session\<close>

text \<open>The injector over a sequence of inbound effects: the events written, and its state.\<close>

fun injector_effect :: "LinuxSys \<Rightarrow> LinuxInjector \<Rightarrow> inbound_effect \<Rightarrow> input_event list list \<times> LinuxInjector" where
  "injector_effect sys dev (Inject ev) =
     (case injector_inject sys dev ev of ((r, out), dev') \<Rightarrow> (out, dev'))"
| "injector_effect sys dev ReleaseAllModifiers = (snd (injector_release sys dev), dev)"
| "injector_effect sys dev _ = ([], dev)"

fun injector_run :: "LinuxSys \<Rightarrow> LinuxInjector \<Rightarrow> inbound_effect list \<Rightarrow> input_event list \<times> LinuxInjector" where
  "injector_run sys dev [] = ([], dev)"
| "injector_run sys dev (eff # effs) =
     (case injector_effect sys dev eff of (out, dev1) \<Rightarrow>
        (case injector_run sys dev1 effs of (es, dev2) \<Rightarrow> (concat out @ es, dev2)))"

section \<open>The keyboard of the system\<close>

text \<open>
  What the kernel makes of key events: codes that were not declared for the device are ignored. Codes
  from 256 on are buttons of the mouse or keys without a place in the key table; they are left out.
\<close>

definition ev_step :: "u16 set \<Rightarrow> u16 set \<Rightarrow> input_event \<Rightarrow> u16 set" where
  "ev_step declared K e =
     (if ie_type e = EV_KEY \<and> ie_code e \<in> declared \<and> ie_code e < 0x100
      then if ie_value e = 0 then K - {ie_code e} else insert (ie_code e) K
      else K)"

lemma write_batch_all: "takes_all sys \<Longrightarrow> write_batch sys es = (Ok (), [es @ [syn_event]])"
  by (simp add: write_batch_def takes_all_def events_taken_def Let_def)

lemma release_all:
  "takes_all sys \<Longrightarrow> snd (linux_release_all_modifiers sys) =
     [map (\<lambda>k. key_event_raw (evdev_code (K_Modifier k)) 0)
        [K_LeftCtrl, K_RightCtrl, K_LeftShift, K_RightShift, K_LeftAlt, K_RightAlt,
         K_LeftSuper, K_RightSuper] @ [syn_event]]"
  by (simp add: linux_release_all_modifiers_def takes_all_def events_taken_def Let_def)

lemma ev_step_simps [simp]:
  "ev_step D K syn_event = K" "ev_step D K (rel_event sys axis v) = K"
  "c < 0x100 \<Longrightarrow> ev_step D K (key_event_raw c v) =
     (if c \<in> D then if v = 0 then K - {c} else insert c K else K)"
  "\<not> c < 0x100 \<Longrightarrow> ev_step D K (key_event_raw c v) = K"
  by (simp_all add: ev_step_def syn_event_def rel_event_def key_event_raw_def input_event_raw_def
      EV_SYN_def EV_REL_def EV_KEY_def)

text \<open>The codes of the key table as far as a device has them.\<close>

definition declared_code :: "u16 set \<Rightarrow> KeyCode \<Rightarrow> u16 option" where
  "declared_code D k = (case hid_to_evdev k of Some c \<Rightarrow> if c \<in> D then Some c else None | None \<Rightarrow> None)"

lemma codes_of_declared: "codes_of (declared_code D) K = codes_of hid_to_evdev K \<inter> D"
  by (auto simp: codes_of_def declared_code_def split: option.splits if_splits)

lemma evdev_code_small: "evdev_code k < 0x100"
proof (cases "k = K_Unknown")
  case False
  then have "keycode_u16 k \<le> 0xE7" using keycode_u16_known by blast
  then show ?thesis by (simp add: evdev_code_def word_less_nat_alt word_le_nat_alt unat_word_ariths)
qed (simp add: evdev_code_def)

lemma button_code_large: "button_to_evdev b = Some c \<Longrightarrow> \<not> c < 0x100"
  by (cases b) (auto simp: btn_defs)

lemma hid_to_evdev_code: "hid_to_evdev k = Some c \<Longrightarrow> c = evdev_code k"
  by (cases "k = K_Unknown") (simp_all add: hid_to_evdev_known)

lemma release_codes:
  "codes_of hid_to_evdev modifier_keys =
   evdev_code ` K_Modifier ` {K_LeftCtrl, K_RightCtrl, K_LeftShift, K_RightShift, K_LeftAlt, K_RightAlt,
     K_LeftSuper, K_RightSuper}"
proof -
  have "modifier_keys = K_Modifier ` {K_LeftCtrl, K_RightCtrl, K_LeftShift, K_RightShift, K_LeftAlt,
      K_RightAlt, K_LeftSuper, K_RightSuper}"
    unfolding modifier_keys_def by (auto intro: modifier_key.exhaust)
  moreover have "hid_to_evdev k = Some (evdev_code k)" if "k \<in> modifier_keys" for k
    using that by (auto simp: modifier_keys_def intro: hid_to_evdev_known)
  then have "codes_of hid_to_evdev modifier_keys = evdev_code ` modifier_keys"
    by (force simp: codes_of_def)
  ultimately show ?thesis by simp
qed

lemma foldl_release:
  "foldl (ev_step D) C (map (\<lambda>k. key_event_raw (evdev_code k) 0) ks) = C - evdev_code ` set ks \<inter> D"
  by (induction ks arbitrary: C) (auto simp: evdev_code_small)

lemma linux_release_keys:
  "takes_all sys \<Longrightarrow> foldl (ev_step D) C (concat (snd (linux_release_all_modifiers sys))) =
     C - codes_of (declared_code D) modifier_keys"
  using foldl_release [of D C "map K_Modifier [K_LeftCtrl, K_RightCtrl, K_LeftShift, K_RightShift, K_LeftAlt,
    K_RightAlt, K_LeftSuper, K_RightSuper]"]
  by (simp add: release_all codes_of_declared release_codes)

text \<open>A device that takes what it is given is an injector for the keys declared.\<close>

lemma linux_key_injector:
  assumes "takes_all sys"
  shows "key_injector (declared_code D) (\<lambda>ev. concat (snd (fst (linux_inject sys lp ev))))
    (concat (snd (linux_release_all_modifiers sys))) (ev_step D)"
proof
  show "a = b" if "declared_code D a = Some c" "declared_code D b = Some c" for a b c
    using that hid_to_evdev_inj [of a c b] by (auto simp: declared_code_def split: option.splits if_splits)
  show "foldl (ev_step D) C (concat (snd (fst (linux_inject sys lp (Key k))))) =
      (case declared_code D (ke_code k) of None \<Rightarrow> C
       | Some c \<Rightarrow> (case ke_state k of Pressed \<Rightarrow> insert c C | Released \<Rightarrow> C - {c}))" for C k
    by (cases "ke_state k")
      (auto simp: inject_key_def declared_code_def write_batch_all [OF assms] evdev_code_small
        dest: hid_to_evdev_code split: option.split)
  show "foldl (ev_step D) C (concat (snd (fst (linux_inject sys lp ev)))) = C" if "\<forall>k. ev \<noteq> Key k" for C ev
    using that by (cases "(sys, lp, ev)" rule: linux_inject.cases)
      (auto simp: Let_def inject_scroll_def button_code_large write_batch_all [OF assms] split: option.split)
  show "foldl (ev_step D) C (concat (snd (linux_release_all_modifiers sys))) =
      C - codes_of (declared_code D) modifier_keys" for C
    by (rule linux_release_keys [OF assms])
qed

definition sample_linux :: LinuxSys where
  "sample_linux =
     \<lparr>ls_axis = (\<lambda>name. case map_of (zip [''X'', ''Y'', ''Wheel'', ''HorizontalWheel'', ''WheelHiRes'',
          ''HorizontalWheelHiRes''] [0 :: nat, 1, 8, 6, 11, 12]) name of
                          Some c \<Rightarrow> word_of_nat c | None \<Rightarrow> 63),
      ls_write = (\<lambda>es. Inr (length es))\<rparr>"

lemma sample_takes_all: "takes_all sample_linux"
  by (simp add: takes_all_def sample_linux_def)

interpretation sample_keys: key_injector "declared_code D" "\<lambda>ev. concat (snd (fst (linux_inject sample_linux lp ev)))"
  "concat (snd (linux_release_all_modifiers sample_linux))" "ev_step D" for D lp
  by (rule linux_key_injector [OF sample_takes_all])

lemma injector_effect_state:
  "injector_effect sys (UinputInject keys lp) eff = (out, dev') \<Longrightarrow> \<exists>lp'. dev' = UinputInject keys lp'"
  by (cases eff) (auto split: prod.splits)

lemma injector_effect_keys:
  assumes "takes_all sys" and "injector_effect sys (UinputInject keys lp) eff = (out, dev')"
  shows "foldl (ev_step D) (codes_of (declared_code D) H) (concat out) = codes_of (declared_code D) (held_step H eff)"
proof -
  have "concat out = effect_output (\<lambda>ev. concat (snd (fst (linux_inject sys lp ev))))
      (concat (snd (linux_release_all_modifiers sys))) eff"
    using assms(2) by (cases eff) (auto split: prod.splits)
  then show ?thesis
    by (simp only: key_injector.effect_refines [OF linux_key_injector [OF assms(1)]])
qed

lemma injector_run_keys:
  assumes "takes_all sys"
  shows "foldl (ev_step D) (codes_of (declared_code D) H) (fst (injector_run sys (UinputInject keys lp) effs)) =
    codes_of (declared_code D) (held_after H effs)"
proof (induction effs arbitrary: H lp)
  case (Cons eff effs)
  obtain out dev' where e: "injector_effect sys (UinputInject keys lp) eff = (out, dev')" by fastforce
  then obtain lp' where "dev' = UinputInject keys lp'" using injector_effect_state by blast
  with e Cons.IH [of "held_step H eff" lp'] injector_effect_keys [OF assms e, of D H] show ?case
    by (simp add: case_prod_unfold)
qed simp

text \<open>
  The codes a device can hold down for a set of keys: those of the key table which the crate lists as keys
  and the kernel accepted when the device was created.
\<close>

definition device_codes :: "Uinput \<Rightarrow> KeyCode set \<Rightarrow> u16 set" where
  "device_codes u K =
     {c. \<exists>k\<in>K. hid_to_evdev k = Some c \<and> c \<in> set (ui_key_iter u) \<and> ui_is_key u c \<and> is_ok (ui_keybit u c)}"

lemma device_buttons_large: "c \<in> set device_buttons \<Longrightarrow> \<not> c < 0x100"
  by (auto simp: device_buttons_def btn_defs)

lemma linux_new_keys:
  assumes "linux_new u = UinputInject keys lp"
  shows "codes_of (declared_code (set keys)) K = device_codes u K"
proof -
  have "keys = declare_keys u @ filter (ui_from_code u) device_buttons"
    using assms by (auto simp: linux_new_def linux_inject_new_def try_then_Ok split: sum.splits prod.splits)
  then have "c \<in> set keys \<longleftrightarrow> c \<in> set (ui_key_iter u) \<and> ui_is_key u c \<and> is_ok (ui_keybit u c)"
    if "hid_to_evdev k = Some c" for k c
    using device_buttons_large [of c] evdev_code_small [of k] hid_to_evdev_code [OF that]
    by (auto simp: declare_keys_def)
  then show ?thesis unfolding codes_of_declared by (auto simp: codes_of_def device_codes_def)
qed

text \<open>
  C28: The keyboard of a Linux client whose device takes what is written to it is a refinement of the
  specification of the session as well: after any sequence of inbound effects the evdev codes that are
  down are exactly those that the key table gives to the keys the specification holds, as far as the
  loop over all keys got them declared when the device was created, wherever the pointer is; without
  the device nothing is written at all.
\<close>

theorem linux_keyboard_refines:
  assumes "linux_new u = UinputInject keys lp" and "takes_all sys"
  shows "foldl (ev_step (set keys)) (device_codes u H) (fst (injector_run sys (linux_new u) effs)) =
     device_codes u (held_after H effs) \<and>
   injector_run sys NullInject effs = ([], NullInject)"
proof
  show "foldl (ev_step (set keys)) (device_codes u H) (fst (injector_run sys (linux_new u) effs)) =
      device_codes u (held_after H effs)"
    using injector_run_keys [OF assms(2), of "set keys" H keys lp effs] linux_new_keys [OF assms(1)]
    by (simp add: assms(1))
  have null: "injector_effect sys NullInject eff = ([], NullInject)" for eff
    by (cases eff) simp_all
  show "injector_run sys NullInject effs = ([], NullInject)"
    by (induction effs) (simp_all add: null)
qed

text \<open>A device without the key of the table's code 13: it is never down.\<close>

definition sample_uinput :: Uinput where
  "sample_uinput =
     \<lparr>ui_open = Ok (), ui_evbit = (\<lambda>_. Ok ()), ui_key_iter = [12, 13, 0x110], ui_is_key = (\<lambda>c. c < 0x100),
      ui_from_code = (\<lambda>_. True), ui_keybit = (\<lambda>c. if c = 13 then Err ''rejected'' else Ok ()),
      ui_relbit = (\<lambda>_. Ok ()), ui_create = Ok ()\<rparr>"

theorem linux_keyboard_refines_witness:
  "let press = (\<lambda>k. Inject (Key \<lparr>ke_code = K_Letter k, ke_state = Pressed, ke_modifiers = mod_empty, ke_character = None\<rparr>))
   in \<exists>keys lp. linux_new sample_uinput = UinputInject keys lp \<and>
     foldl (ev_step (set keys)) {} (fst (injector_run sample_linux (linux_new sample_uinput) [press K_A, press K_B])) = {12}"
proof -
  let ?press = "\<lambda>k. Inject (Key \<lparr>ke_code = K_Letter k, ke_state = Pressed, ke_modifiers = mod_empty, ke_character = None\<rparr>)"
  obtain keys where new: "linux_new sample_uinput = UinputInject keys (0, 0)"
    by (simp add: linux_new_def linux_inject_new_def sample_uinput_def device_buttons_def declare_button_def btn_defs)
  have codes: "hid_to_evdev (K_Letter K_A) = Some 12" "hid_to_evdev (K_Letter K_B) = Some 13" by code_simp+
  have "device_codes sample_uinput {} = {}" by (simp add: device_codes_def)
  moreover have "device_codes sample_uinput {K_Letter K_B, K_Letter K_A} = {12}"
    by (auto simp: device_codes_def sample_uinput_def codes)
  ultimately have "foldl (ev_step (set keys)) {}
      (fst (injector_run sample_linux (linux_new sample_uinput) [?press K_A, ?press K_B])) = {12}"
    using linux_keyboard_refines [OF new sample_takes_all, of "{}" "[?press K_A, ?press K_B]"] by simp
  with new show ?thesis unfolding Let_def by blast
qed

section \<open>The pointer of the system\<close>

definition axis_names :: "string list" where
  "axis_names = [''X'', ''Y'', ''Wheel'', ''HorizontalWheel'', ''WheelHiRes'', ''HorizontalWheelHiRes'']"

definition axes_distinct :: "LinuxSys \<Rightarrow> bool" where
  "axes_distinct sys \<longleftrightarrow> inj_on (ls_axis sys) (set axis_names)"

text \<open>What the kernel makes of relative motion.\<close>

definition pointer_step :: "LinuxSys \<Rightarrow> i32 \<times> i32 \<Rightarrow> input_event \<Rightarrow> i32 \<times> i32" where
  "pointer_step sys p e =
     (if ie_type e = EV_REL
      then (if ie_code e = ls_axis sys ''X'' then fst p + ie_value e else fst p,
            if ie_code e = ls_axis sys ''Y'' then snd p + ie_value e else snd p)
      else p)"

text \<open>No relative motion of the sequence saturates the remembered position.\<close>

definition fits_i32 :: "i32 \<Rightarrow> i32 \<Rightarrow> bool" where
  "fits_i32 a b \<longleftrightarrow> - (2 ^ 31) \<le> sint a + sint b \<and> sint a + sint b < 2 ^ 31"

fun unsaturated :: "i32 \<times> i32 \<Rightarrow> inbound_effect list \<Rightarrow> bool" where
  "unsaturated (lx, ly) [] \<longleftrightarrow> True"
| "unsaturated (lx, ly) (Inject (Mouse (MoveAbs x y)) # effs) \<longleftrightarrow> unsaturated (x, y) effs"
| "unsaturated (lx, ly) (Inject (Mouse (MoveRelative dx dy)) # effs) \<longleftrightarrow>
     fits_i32 lx dx \<and> fits_i32 ly dy \<and> unsaturated (lx + dx, ly + dy) effs"
| "unsaturated (lx, ly) (eff # effs) \<longleftrightarrow> unsaturated (lx, ly) effs"

lemma saturating_add_fits: "fits_i32 a b \<Longrightarrow> i32_saturating_add a b = a + b"
proof -
  assume "fits_i32 a b"
  then have "max (- (2 ^ 31)) (min (2 ^ 31 - 1) (sint a + sint b)) = sint a + sint b"
    by (auto simp: fits_i32_def)
  then show ?thesis by (simp only: i32_saturating_add_def) simp
qed

lemma pointer_step_other [simp]:
  "pointer_step sys p syn_event = p" "pointer_step sys p (key_event_raw c v) = p"
  by (simp_all add: pointer_step_def syn_event_def key_event_raw_def input_event_raw_def EV_SYN_def
      EV_KEY_def EV_REL_def)

lemma pointer_step_rel:
  assumes "axes_distinct sys" and "a \<in> set axis_names"
  shows "pointer_step sys p (rel_event sys a v) =
    (if a = ''X'' then (fst p + v, snd p) else if a = ''Y'' then (fst p, snd p + v) else p)"
  using assms inj_on_eq_iff [of "ls_axis sys" "set axis_names" a "''X''"]
    inj_on_eq_iff [of "ls_axis sys" "set axis_names" a "''Y''"]
  by (cases p) (simp add: pointer_step_def rel_event_def input_event_raw_def axes_distinct_def axis_names_def)

lemma pointer_step_axes [simp]:
  assumes "axes_distinct sys"
  shows "pointer_step sys p (rel_event sys ''X'' v) = (fst p + v, snd p)"
    and "pointer_step sys p (rel_event sys ''Y'' v) = (fst p, snd p + v)"
    and "pointer_step sys p (rel_event sys ''Wheel'' v) = p"
    and "pointer_step sys p (rel_event sys ''HorizontalWheel'' v) = p"
    and "pointer_step sys p (rel_event sys ''WheelHiRes'' v) = p"
    and "pointer_step sys p (rel_event sys ''HorizontalWheelHiRes'' v) = p"
  by (simp_all add: pointer_step_rel [OF assms] axis_names_def)

lemma pointer_release:
  "takes_all sys \<Longrightarrow> foldl (pointer_step sys) p (concat (snd (linux_release_all_modifiers sys))) = p"
  by (simp add: release_all)

lemma pointer_inject:
  assumes "axes_distinct sys" and "takes_all sys" and "unsaturated lp (Inject ev # effs)"
    and "linux_inject sys lp ev = ((r, out), lp')"
  shows "foldl (pointer_step sys) p (concat out) = (fst p + (fst lp' - fst lp), snd p + (snd lp' - snd lp)) \<and>
    unsaturated lp' effs"
proof -
  have out: "out = snd (fst (linux_inject sys lp ev))" "lp' = snd (linux_inject sys lp ev)"
    by (simp_all add: assms(4))
  obtain lx ly where lp: "lp = (lx, ly)" by (cases lp)
  show ?thesis
    using assms(1,3) unfolding out lp
    by (cases "(sys, (lx, ly), ev)" rule: linux_inject.cases)
      (auto simp: Let_def inject_scroll_def inject_key_def saturating_add_fits write_batch_all [OF assms(2)]
        split: option.split)
qed

text \<open>
  C29: The pointer of a Linux client whose device takes what is written to it goes where the injector
  believes it to be: after any sequence of effects whose relative motions do not saturate, the relative
  events written to the device add up exactly to the way from the position remembered before to the
  position remembered after. A pointer that agrees with the injector once agrees for good, and after an
  absolute move it is there.
\<close>

theorem linux_pointer_tracks:
  assumes "axes_distinct sys" and "takes_all sys" and "unsaturated lp effs"
    and "injector_run sys (UinputInject keys lp) effs = (es, UinputInject keys' lp')"
  shows "foldl (pointer_step sys) p es = (fst p + (fst lp' - fst lp), snd p + (snd lp' - snd lp))"
  using assms(3,4)
proof (induction effs arbitrary: lp es p)
  case (Cons eff effs)
  obtain out dev1 where e: "injector_effect sys (UinputInject keys lp) eff = (out, dev1)" by fastforce
  then obtain lp1 where dev1: "dev1 = UinputInject keys lp1" using injector_effect_state by blast
  obtain es2 where es2: "injector_run sys (UinputInject keys lp1) effs = (es2, UinputInject keys' lp')"
      and es: "es = concat out @ es2"
    using Cons.prems(2) by (auto simp: e dev1 split: prod.splits)
  have "foldl (pointer_step sys) p (concat out) = (fst p + (fst lp1 - fst lp), snd p + (snd lp1 - snd lp)) \<and>
      unsaturated lp1 effs"
  proof (cases eff)
    case (Inject ev)
    then obtain r where "linux_inject sys lp ev = ((r, out), lp1)"
      using e dev1 by (auto split: prod.splits)
    then show ?thesis using pointer_inject [OF assms(1,2) Cons.prems(1) [unfolded Inject]] by blast
  qed (use e dev1 Cons.prems(1) in \<open>cases lp; auto simp: pointer_release [OF assms(2)]\<close>)+
  then show ?case
    using Cons.IH [OF _ es2, of "foldl (pointer_step sys) p (concat out)"] by (simp add: es)
qed simp

lemma sample_axes_distinct: "axes_distinct sample_linux"
  by (simp add: axes_distinct_def sample_linux_def axis_names_def)

theorem linux_pointer_tracks_witness:
  "foldl (pointer_step sample_linux) (0, 0)
     (fst (injector_run sample_linux (UinputInject [] (0, 0))
        [Inject (Mouse (MoveAbs 100 50)), Inject (Mouse (MoveRelative (-30) 5)), ReleaseAllModifiers])) = (70, 55)"
proof -
  let ?effs = "[Inject (Mouse (MoveAbs 100 50)), Inject (Mouse (MoveRelative (-30) 5)), ReleaseAllModifiers]"
  have u: "unsaturated (0, 0) ?effs" by (simp add: fits_i32_def)
  then have sat: "i32_saturating_add 100 (- 30) = 70" "i32_saturating_add 50 5 = 55"
    using saturating_add_fits [of 100 "- 30"] saturating_add_fits [of 50 5] by simp_all
  obtain es where es: "injector_run sample_linux (UinputInject [] (0, 0)) ?effs = (es, UinputInject [] (70, 55))"
    by (simp add: Let_def sat case_prod_unfold)
  show ?thesis
    using linux_pointer_tracks [OF sample_axes_distinct sample_takes_all u es, of "(0, 0)"]
    unfolding es by (simp del: injector_run.simps)
qed

text \<open>
  A device that refuses a motion: the injector has moved its remembered position before it writes, so
  nothing reaches the device, and the same position sent again, which the device would take now, is
  no motion any more. The pointer stays where it was.
\<close>

theorem refused_motion_lost:
  assumes "ls_write busy [rel_event busy ''X'' (x - fst lp), rel_event busy ''Y'' (y - snd lp), syn_event] = Err e"
    and "lp \<noteq> (x, y)"
    and "injector_effect busy (UinputInject keys lp) (Inject (Mouse (MoveAbs x y))) = (out1, dev1)"
    and "injector_effect sys dev1 (Inject (Mouse (MoveAbs x y))) = (out2, dev2)"
  shows "\<not> is_ok (fst (fst (linux_inject busy lp (Mouse (MoveAbs x y))))) \<and> concat (out1 @ out2) = [] \<and>
    dev2 = UinputInject keys (x, y)"
  using assms by (cases lp) (auto simp: Let_def write_batch_def events_taken_def split: if_splits)

text \<open>
  The key table shifts the discriminant by a constant: no key gets a code below 12, and the letter A
  gets 12, although the evdev codes of the keyboard begin at 1 and are not in the order of the
  discriminants.
\<close>

theorem linux_key_codes:
  assumes "hid_to_evdev k = Some c"
  shows "c = keycode_u16 k + 8 \<and> 12 \<le> c \<and> c \<le> 239"
proof -
  have "k \<noteq> K_Unknown" using assms by auto
  then have r: "4 \<le> keycode_u16 k \<and> keycode_u16 k \<le> 0xE7" by (rule keycode_u16_known)
  have "c = keycode_u16 k + 8" using assms hid_to_evdev_code by (simp add: evdev_code_def)
  with r show ?thesis by (simp add: word_le_nat_alt unat_word_ariths)
qed

end
