(* ===== verification/EndToEnd.thy ===== *)
theory EndToEnd
  imports InputPipeline WindowsCapture WindowsInject LinuxInject
begin

text \<open>
  Input from the hooks of one machine to the system calls of the other: the capture of Windows, the
  session of the server, the wire, the session of the client and the injection of its platform.
\<close>

section \<open>Keys\<close>

text \<open>A raw key event whose virtual key code is in the table, and the input that repeats it.\<close>

fun known_key :: "Win32 \<Rightarrow> RawEvent \<Rightarrow> bool" where
  "known_key w (RawKeyDown vk scan) \<longleftrightarrow> vk_to_keycode (w32_vk w) (ucast vk) \<noteq> K_Unknown"
| "known_key w (RawKeyUp vk scan) \<longleftrightarrow> vk_to_keycode (w32_vk w) (ucast vk) \<noteq> K_Unknown"
| "known_key w _ \<longleftrightarrow> False"

fun repeated_key :: "Win32Inject \<Rightarrow> RawEvent \<Rightarrow> INPUT list" where
  "repeated_key w (RawKeyDown vk scan) = [KeybdInput (ucast vk) (ucast (wi_scan w (ucast (ucast vk :: u16)))) 0]"
| "repeated_key w (RawKeyUp vk scan) =
     [KeybdInput (ucast vk) (ucast (wi_scan w (ucast (ucast vk :: u16)))) (wi_flag w ''KEYEVENTF_KEYUP'')]"
| "repeated_key w _ = []"

lemma inject_known_key:
  assumes "wi_vk c = w32_vk w" and "inserts_all c" and "known_key w r"
  shows "concat (snd (windows_inject c (raw_to_input w m r))) = repeated_key c r"
    and "\<exists>k. raw_to_input w m r = Key k"
  using assms by (cases r; simp add: key_event_def vk_of_keycode key_vk_def send_input_all)+

lemma captured_keys:
  assumes "list_all (known_key w) raws" and "wi_vk c = w32_vk w" and "inserts_all c"
  shows "list_all (\<lambda>ev. \<exists>k. ev = Key k) (fst (drain_queue w True m raws))"
    and "concat (map (\<lambda>ev. concat (snd (windows_inject c ev))) (fst (drain_queue w True m raws))) =
      concat (map (repeated_key c) raws)"
  using assms
  by (induction raws arbitrary: m)
    (auto simp: drain_raw_def Let_def inject_known_key case_prod_unfold)

lemma effects_output_inject [simp]:
  "effects_output inject release (map Inject evs) = concat (map inject evs)"
  by (simp add: effects_output_def o_def)

text \<open>
  C14: A key stroke on one Windows machine is the same key stroke on the other. While capture is on and
  the route remote, any sequence of presses and releases of keys in the table, short of the emergency
  hotkey, is stamped and forwarded to the first peer; if its channel, empty and open at first, is emptied
  by the writer in time for each of them to find room, and the other machine's \<open>SendInput\<close> inserts what it
  is given, then what the writer took and what still waits for it, framed, read back, dispatched and
  injected there, inserts the same sequence of virtual key codes, with the release flag exactly on the
  releases.
\<close>

theorem key_strokes_travel:
  assumes "wi_vk c = w32_vk w" and "inserts_all c" and "list_all (known_key w) raws"
    and "drain_queue w True m raws = (evs, m')" and "list_all (\<lambda>ev. \<not> is_emergency ev) evs"
    and "ed_route (ds_edge st) = Remote s" and "drain_capture (h # hs) st evs = (effs, st')"
    and "length ns = length effs" and "keeps_room 0 ns"
    and "list_all (wire_ok ser de) (map from_input evs)"
  shows "\<exists>taken out. perform_all display (ph_chan h) (zip ns effs) \<lparr>oc_queue = [], oc_open = True\<rparr> = Some (taken, out) \<and>
    effects_output (\<lambda>ev. concat (snd (windows_inject c ev))) (concat (snd (windows_release_all_modifiers c)))
      (inbound_loop True (read_loop eof de (write_loop ser (taken @ oc_queue out)))) =
    concat (map (repeated_key c) raws)"
proof -
  have keys: "list_all (\<lambda>ev. \<exists>k. ev = Key k) evs"
    and inputs: "concat (map (\<lambda>ev. concat (snd (windows_inject c ev))) evs) = concat (map (repeated_key c) raws)"
    using captured_keys [OF assms(3,1,2), of m] assms(4) by simp_all
  have "list_all (\<lambda>ev. \<not> is_emergency ev \<and> move_target ev = None) evs"
    using keys assms(5) by (auto simp: list_all_iff)
  then have "effs = map (TrySend (ph_chan h)) (map from_input evs)"
    using drain_capture_forward [OF assms(6) _ assms(7)] by simp
  then obtain taken out where sent:
    "perform_all display (ph_chan h) (zip ns effs) \<lparr>oc_queue = [], oc_open = True\<rparr> = Some (taken, out)"
    "taken @ oc_queue out = map from_input evs"
    using perform_all_room [of "\<lparr>oc_queue = [], oc_open = True\<rparr>" ns "map from_input evs" display "ph_chan h"]
      assms(8,9) by (auto simp del: map_map)
  have "read_loop eof de (write_loop ser (taken @ oc_queue out)) = map from_input evs"
    unfolding sent(2) using read_write_loop_append [OF assms(10), of eof "[]"] by (simp add: read_loop_Nil)
  moreover have "inbound_loop True (map from_input evs) = map Inject evs"
    using keys by (intro inbound_loop_from_input) (auto simp: list_all_iff)
  ultimately show ?thesis using sent(1) by (simp add: inputs)
qed

theorem key_strokes_travel_witness:
  "let raws = [RawKeyDown 65 30, RawKeyUp 65 30];
       evs = fst (drain_queue sample_win32 True mod_empty raws);
       ms = map from_input evs
   in \<exists>taken out. perform_all (\<lambda>_. ''full'') 0 (zip [0, 1] (fst (drain_capture [sample_peer] sample_remote evs)))
          \<lparr>oc_queue = [], oc_open = True\<rparr> = Some (taken, out) \<and>
      effects_output (\<lambda>ev. concat (snd (windows_inject sample_inject ev)))
        (concat (snd (windows_release_all_modifiers sample_inject)))
        (inbound_loop True (read_loop ''eof'' (table_de ms) (write_loop (table_ser ms) (taken @ oc_queue out)))) =
      [KeybdInput 65 65 0, KeybdInput 65 65 2]"
proof -
  let ?raws = "[RawKeyDown 65 30, RawKeyUp 65 30]"
  let ?q = "drain_queue sample_win32 True mod_empty ?raws"
  let ?ms = "map from_input (fst ?q)"
  let ?d = "drain_capture [sample_peer] sample_remote (fst ?q)"
  have q: "?q = (fst ?q, snd ?q)" and d: "?d = (fst ?d, snd ?d)" by simp_all
  have "(''VK_A'', K_Letter K_A) \<in> set vk_table" by (simp add: vk_table_def)
  then have "vk_to_keycode sample_vk (sample_vk ''VK_A'') = K_Letter K_A"
    by (rule vk_to_keycode_row [OF sample_vk_distinct])
  moreover have "sample_vk ''VK_A'' = 65" by (simp add: sample_vk_def sample_vks_def)
  ultimately have a: "vk_to_keycode sample_vk 65 = K_Letter K_A" by simp
  have u: "(ucast (65 :: u32) :: u16) = 65" by simp
  have keys: "list_all (known_key sample_win32) ?raws" by (simp add: a)
  have quiet: "list_all (\<lambda>ev. \<not> is_emergency ev) (fst ?q)"
    by (simp add: drain_raw_def Let_def a case_prod_unfold)
  have ok: "list_all (wire_ok (table_ser ?ms) (table_de ?ms)) ?ms"
    unfolding list_all_iff
    by (intro ballI table_wire_ok) (simp_all add: MAX_PAYLOAD_SIZE_def drain_raw_def Let_def case_prod_unfold)
  have remote: "ed_route (ds_edge sample_remote) = Remote (ScreenId 1)" by (simp add: sample_remote_def)
  have forwarded: "list_all (\<lambda>ev. \<not> is_emergency ev \<and> move_target ev = None) (fst ?q)"
    by (simp add: drain_raw_def Let_def a case_prod_unfold move_target_def)
  have effs: "length [0, 1 :: nat] = length (fst ?d)"
    using drain_capture_forward [OF remote forwarded d] by (simp add: drain_raw_def Let_def case_prod_unfold)
  from key_strokes_travel [OF _ sample_inserts_all keys q quiet remote d effs _ ok, of "\<lambda>_. ''full''" "''eof''"]
  show ?thesis
    by (simp add: Let_def sample_peer_def sample_inject_def CHANNEL_BOUND_def
        del: perform_all.simps drain_capture.simps drain_queue.simps table_ser.simps table_de.simps)
qed

section \<open>Modifiers\<close>

text \<open>With capture off the capture drain passes on pointer motion only.\<close>

lemma drain_queue_off:
  "list_all (\<lambda>ev. move_target ev \<noteq> None) (fst (drain_queue w False m raws))"
proof (induction raws arbitrary: m)
  case (Cons r raws)
  then show ?case
    by (cases r) (simp_all add: drain_raw_def Let_def case_prod_unfold move_target_def)
qed simp

lemma drain_queue_off_modifiers:
  "snd (drain_queue w False m raws) = snd (drain_queue w True m raws)"
  by (induction raws arbitrary: m) (simp_all add: drain_raw_def Let_def case_prod_unfold)

text \<open>A movement leaves the detector's modifiers alone and is announced with them, if at all.\<close>

lemma move_observed:
  assumes "move_target ev = Some p" and "edge_observe ed ev = ((d, f), ed')"
  shows "ed_modifiers ed' = ed_modifiers ed"
    and "d = EnterRemote s entry warp mods \<Longrightarrow> mods = ed_modifiers ed"
  using assms by (auto simp: edge_observe_def Let_def split: Route.splits option.splits prod.splits)

lemma move_drained:
  assumes "move_target ev = Some p" and "drain_step peers st ev = (effs, st')"
  shows "ed_modifiers (ds_edge st') = ed_modifiers (ds_edge st)"
    and "M_ScreenEnter x y mods \<in> set (messages_to ch effs) \<Longrightarrow> mods = ed_modifiers (ds_edge st)"
proof -
  obtain d f ed' where o: "edge_observe (ds_edge st) ev = ((d, f), ed')" by (metis prod.exhaust)
  have ne: "\<not> is_emergency ev" using assms(1) by simp
  have fw: "M_ScreenEnter x y mods \<notin> set (messages_to ch es)"
    if "drain_forward peers lm ev f = (es, lm')" for lm es lm'
    using that assms(1)
    by (cases ev rule: from_input.cases)
      (auto simp: drain_forward_def move_target_def split: ForwardTo.splits option.splits prod.splits if_splits)
  have ap: "\<exists>s entry warp. d = EnterRemote s entry warp mods"
    if "M_ScreenEnter x y mods \<in> set (messages_to ch (apply_decision peers d))"
    using that by (cases d) (auto split: option.splits if_splits)
  obtain es lm' where es: "drain_forward peers (ds_last_mouse st) ev f = (es, lm')"
    by (metis prod.exhaust)
  then have step: "effs = apply_decision peers d @ es" "ds_edge st' = ed'"
    using assms(2) o ne by (auto simp: drain_step_def drain_observe_normal)
  show "ed_modifiers (ds_edge st') = ed_modifiers (ds_edge st)"
    using step(2) move_observed(1) [OF assms(1) o] by simp
  show "mods = ed_modifiers (ds_edge st)" if "M_ScreenEnter x y mods \<in> set (messages_to ch effs)"
    using that step(1) fw [OF es] ap move_observed(2) [OF assms(1) o] by auto
qed

text \<open>
  C15: The modifiers announced when the pointer crosses to the peer are those of the last key event
  that was forwarded, not those of the keyboard: while capture is off the drain drops key events, so
  whatever modifier keys go down or up before the crossing, the peer is told to press the ones the
  detector remembered, and is left holding them.
\<close>

theorem screen_enter_modifiers_stale:
  assumes "drain_queue w False m raws = (evs, m')" and "drain_capture (h # hs) st evs = (effs, st')"
    and "M_ScreenEnter x y mods \<in> set (messages_to (ph_chan h) effs)"
  shows "mods = ed_modifiers (ds_edge st) \<and>
    held_after H (inbound_step True (M_ScreenEnter x y mods)) =
      (H - modifier_keys) \<union> keys_of_modifiers (ed_modifiers (ds_edge st))"
proof -
  have "list_all (\<lambda>ev. move_target ev \<noteq> None) evs"
    using drain_queue_off [of w m raws] assms(1) by simp
  then have "mods = ed_modifiers (ds_edge st)"
    using assms(2,3)
  proof (induction evs arbitrary: st effs)
    case (Cons ev evs)
    obtain effs1 st1 effs2 where d: "drain_step (h # hs) st ev = (effs1, st1)"
      "drain_capture (h # hs) st1 evs = (effs2, st')" "effs = effs1 @ effs2"
      using Cons.prems(2) by (auto split: prod.splits)
    from Cons.prems(1) obtain p where "move_target ev = Some p" by auto
    from move_drained [OF this d(1)] Cons.IH [OF _ d(2)] Cons.prems d(3) show ?case by auto
  qed simp
  then show ?thesis by (simp add: held_after_resync)
qed

text \<open>
  The hotkey is pressed while the route is remote, its keys are let go on the server, with capture
  off, and the pointer crosses: the client presses all three.
\<close>

definition hotkey_mods :: ModifierState where
  "hotkey_mods = mod_insert (mod_insert MOD_CTRL MOD_ALT) MOD_SHIFT"

lemma hotkey_keys:
  "keys_of_modifiers hotkey_mods = {K_Modifier K_LeftShift, K_Modifier K_LeftCtrl, K_Modifier K_LeftAlt}"
proof -
  have le: "MOD_SHIFT \<le> hotkey_mods" "MOD_CTRL \<le> hotkey_mods" "MOD_ALT \<le> hotkey_mods"
    by (simp_all add: hotkey_mods_def mod_insert_sup le_supI1 le_supI2)
  have "\<not> MOD_SUPER \<le> hotkey_mods"
    by (simp add: hotkey_mods_def mod_flag_defs mod_insert_def less_eq_ModifierState_def)
  moreover have "keys_of_modifiers m = snd ` set (filter (\<lambda>(flag, code). flag \<le> m) modifier_table)" for m
    by (force simp: keys_of_modifiers_def)
  ultimately show ?thesis using le by (simp add: modifier_table_def)
qed

definition hotkey_events :: "InputEvent list" where
  "hotkey_events =
     [Key \<lparr>ke_code = K_Modifier K_LeftShift, ke_state = Pressed, ke_modifiers = hotkey_mods,
           ke_character = None\<rparr>, escape_chord]"

lemma hotkey_drained:
  "drain_capture [sample_peer] sample_remote hotkey_events =
     ([TrySend 0 (from_input (hd hotkey_events)), Send 0 (M_ScreenLeave 1), Send 0 (M_ModifierSync mod_empty),
       SetCapturing False],
      \<lparr>ds_edge = sample_edge\<lparr>ed_modifiers := hotkey_mods\<rparr>, ds_last_mouse = None\<rparr>)"
proof -
  have r: "sample_edge\<lparr>ed_route := Remote (ScreenId 1), ed_modifiers := m, ed_route := Local\<rparr> =
      sample_edge\<lparr>ed_modifiers := m\<rparr>" for m
    by (rule EdgeDetector.equality) simp_all
  show ?thesis
    using escape_chord_emergency
    by (simp add: hotkey_events_def drain_step_def drain_observe_def sample_remote_def edge_observe_def
        observe_modifiers_def move_target_def drain_forward_def edge_force_local_def Let_def
        sample_peer_def screen_u32_def r)
qed

theorem screen_enter_modifiers_stale_witness:
  "let st = snd (drain_capture [sample_peer] sample_remote hotkey_events);
       evs = fst (drain_queue sample_win32 False mod_empty [RawKeyUp 16 42, RawMouseMove 0 500])
   in \<exists>x y mods. M_ScreenEnter x y mods \<in> set (messages_to 0 (fst (drain_capture [sample_peer] st evs))) \<and>
        held_after {} (inbound_step True (M_ScreenEnter x y mods)) =
          {K_Modifier K_LeftShift, K_Modifier K_LeftCtrl, K_Modifier K_LeftAlt}"
proof -
  let ?ed = "sample_edge\<lparr>ed_modifiers := hotkey_mods\<rparr>"
  let ?st = "\<lparr>ds_edge = ?ed, ds_last_mouse = None\<rparr>"
  let ?q = "drain_queue sample_win32 False mod_empty [RawKeyUp 16 42, RawMouseMove 0 500]"
  let ?d = "drain_capture [sample_peer] ?st (fst ?q)"
  have q: "?q = (fst ?q, snd ?q)" and d: "?d = (fst ?d, snd ?d)" by simp_all
  have "edge_observe ?ed (Mouse (MoveAbs 0 500)) =
      ((EnterRemote (ScreenId 1) (mk_point 32000 500)
          (warp_back_inside EdgeLeft 1920 1080) hotkey_mods, FwdRemote),
       ?ed\<lparr>ed_last_point := mk_point 0 500, ed_route := Remote (ScreenId 1)\<rparr>)"
    using observe_crossing [of ?ed "Mouse (MoveAbs 0 500)" "mk_point 0 500" EdgeLeft
        "mk_point 0 500" "ScreenId 1"]
    by (simp add: cross_local_edge_def crossing_target_def move_target_def word_sle_eq)
  then have m: "M_ScreenEnter 32000 500 hotkey_mods \<in> set (messages_to (ph_chan sample_peer) (fst ?d))"
    by (simp add: drain_raw_def Let_def case_prod_unfold drain_step_def drain_observe_normal sample_peer_def)
  have "ed_modifiers (ds_edge ?st) = hotkey_mods" by simp
  moreover have "keys_of_modifiers hotkey_mods =
      {K_Modifier K_LeftShift, K_Modifier K_LeftCtrl, K_Modifier K_LeftAlt}"
    by (rule hotkey_keys)
  ultimately have "held_after {} (inbound_step True (M_ScreenEnter 32000 500 hotkey_mods)) =
      {K_Modifier K_LeftShift, K_Modifier K_LeftCtrl, K_Modifier K_LeftAlt}"
    using screen_enter_modifiers_stale [OF q d m, of "{}"] by (simp only: Un_empty_left Diff_empty empty_Diff)
  moreover have "ph_chan sample_peer = 0" by (simp add: sample_peer_def)
  ultimately show ?thesis
    using m unfolding hotkey_drained Let_def snd_conv by (intro exI conjI) simp_all
qed

section \<open>The wheel\<close>

text \<open>
  A turn of the wheel arrives in different units: the hook reports 120 for a notch, which a Windows
  peer replays as it is; a Linux peer writes it as that many whole notches, and 120 times as many
  units of the high resolution axis.
\<close>

theorem wheel_units_differ:
  assumes "raw = RawMouseScroll False (wheel_delta 0x780000)" and "inserts_all c" and "takes_all sys"
  shows "concat (snd (windows_inject c (raw_to_input w m raw))) =
      [MouseInput 0 0 120 (wi_flag c ''MOUSEEVENTF_WHEEL'')]"
    and "concat (snd (fst (linux_inject sys lp (raw_to_input w m raw)))) =
      [rel_event sys ''Wheel'' 120, rel_event sys ''WheelHiRes'' 14400, syn_event]"
proof -
  have "raw = RawMouseScroll False 120"
    by (simp add: assms wheel_delta_def)
  then show "concat (snd (windows_inject c (raw_to_input w m raw))) =
      [MouseInput 0 0 120 (wi_flag c ''MOUSEEVENTF_WHEEL'')]"
    and "concat (snd (fst (linux_inject sys lp (raw_to_input w m raw)))) =
      [rel_event sys ''Wheel'' 120, rel_event sys ''WheelHiRes'' 14400, syn_event]"
    using assms(2,3)
    by (cases lp; simp add: mouse_scroll_def send_input_all inject_scroll_def write_batch_all Let_def)+
qed

end
