(* ===== verification/CaptureThreads.thy ===== *)
theory CaptureThreads
  imports WindowsCapture
begin

text \<open>
  The threads of the Windows capture together (\<open>hook_thread_main\<close>, \<open>drain_thread_main\<close> and \<open>stop\<close> of
  \<open>crates/platform/src/windows/capture.rs\<close>), from a start that succeeded. The hook thread installs
  the hooks and pumps messages; the system calls the hook procedures on it while it waits for a
  message, and such a call does not end the wait. A step is one access to the shared state.
\<close>

section \<open>Steps\<close>

datatype hook_pc = HookInstall | HookCheck | HookGetMessage | HookExited

datatype recv_pc = RecvCheck | RecvWait | RecvExited

datatype stop_pc = StopNotCalled | StopJoinDrain | StopJoinHook | StopReturned

record CaptureRun =
  cr_state :: CaptureState
  cr_hook :: hook_pc
  cr_recv :: recv_pc
  cr_stop :: stop_pc
  cr_mods :: ModifierState
  cr_sent :: "InputEvent list"
  cr_results :: "hook_result list"

text \<open>What the environment does in a step, if anything.\<close>

datatype capture_label =
    Quiet
  | Message
  | Input os_input
  | SetCapturingTo bool
  | CallStop

text \<open>The two threads at the end of \<open>capture_start\<close>.\<close>

definition capture_started :: "nat \<Rightarrow> CaptureRun" where
  "capture_started sink =
     \<lparr>cr_state = snd (capture_start sink (Ok ()) (Ok ()) capture_new),
      cr_hook = HookInstall, cr_recv = RecvCheck, cr_stop = StopNotCalled,
      cr_mods = mod_empty, cr_sent = [], cr_results = []\<rparr>"

text \<open>A hook procedure is called while its hook is in place.\<close>

fun hooked :: "os_input \<Rightarrow> CaptureState \<Rightarrow> bool" where
  "hooked (OsKey _ _ _) s \<longleftrightarrow> wc_keyboard_hook s \<noteq> 0"
| "hooked (OsMouse _ _ _) s \<longleftrightarrow> wc_mouse_hook s \<noteq> 0"

inductive capture_step :: "Win32 \<Rightarrow> capture_label \<Rightarrow> CaptureRun \<Rightarrow> CaptureRun \<Rightarrow> bool" for w where
  install: "cr_hook r = HookInstall \<Longrightarrow> k \<noteq> 0 \<Longrightarrow> m \<noteq> 0 \<Longrightarrow>
    capture_step w Quiet r
      (r\<lparr>cr_state := (cr_state r)\<lparr>wc_keyboard_hook := k, wc_mouse_hook := m\<rparr>, cr_hook := HookCheck\<rparr>)"
| install_failed: "cr_hook r = HookInstall \<Longrightarrow>
    capture_step w Quiet r (r\<lparr>cr_state := (cr_state r)\<lparr>wc_running := False\<rparr>, cr_hook := HookExited\<rparr>)"
| pump: "cr_hook r = HookCheck \<Longrightarrow>
    capture_step w Quiet r
      (r\<lparr>cr_hook := (if wc_running (cr_state r) then HookGetMessage else HookExited)\<rparr>)"
| message: "cr_hook r = HookGetMessage \<Longrightarrow> capture_step w Message r (r\<lparr>cr_hook := HookCheck\<rparr>)"
| input: "cr_hook r = HookGetMessage \<Longrightarrow> hooked i (cr_state r) \<Longrightarrow>
    hook_proc w i (cr_state r) = (res, s') \<Longrightarrow>
    capture_step w (Input i) r (r\<lparr>cr_state := s', cr_results := cr_results r @ [res]\<rparr>)"
| recv_loop: "cr_recv r = RecvCheck \<Longrightarrow> wc_running (cr_state r) \<Longrightarrow>
    capture_step w Quiet r (r\<lparr>cr_recv := RecvWait\<rparr>)"
| recv_end: "cr_recv r = RecvCheck \<Longrightarrow> \<not> wc_running (cr_state r) \<Longrightarrow>
    capture_step w Quiet r (r\<lparr>cr_state := (cr_state r)\<lparr>wc_rx := False\<rparr>, cr_recv := RecvExited\<rparr>)"
| recv_event: "cr_recv r = RecvWait \<Longrightarrow> wc_queue (cr_state r) = raw # rest \<Longrightarrow>
    drain_raw w (wc_capturing (cr_state r)) (cr_mods r) raw = (evs, m') \<Longrightarrow>
    capture_step w Quiet r
      (r\<lparr>cr_state := (cr_state r)\<lparr>wc_queue := rest\<rparr>, cr_mods := m', cr_sent := cr_sent r @ evs,
         cr_recv := RecvCheck\<rparr>)"
| recv_timeout: "cr_recv r = RecvWait \<Longrightarrow> wc_queue (cr_state r) = [] \<Longrightarrow> wc_tx (cr_state r) \<Longrightarrow>
    capture_step w Quiet r (r\<lparr>cr_recv := RecvCheck\<rparr>)"
| recv_disconnected: "cr_recv r = RecvWait \<Longrightarrow> wc_queue (cr_state r) = [] \<Longrightarrow> \<not> wc_tx (cr_state r) \<Longrightarrow>
    capture_step w Quiet r (r\<lparr>cr_state := (cr_state r)\<lparr>wc_rx := False\<rparr>, cr_recv := RecvExited\<rparr>)"
| set_capturing: "capture_step w (SetCapturingTo b) r (r\<lparr>cr_state := set_capturing b (cr_state r)\<rparr>)"
| stop_call: "cr_stop r = StopNotCalled \<Longrightarrow>
    capture_step w CallStop r
      (r\<lparr>cr_state := (snd (stop_begin (cr_state r)))\<lparr>wc_drain_thread := False\<rparr>, cr_stop := StopJoinDrain\<rparr>)"
| join_drain: "cr_stop r = StopJoinDrain \<Longrightarrow> cr_recv r = RecvExited \<Longrightarrow>
    capture_step w Quiet r
      (r\<lparr>cr_state := (cr_state r)\<lparr>wc_hook_thread := False\<rparr>, cr_stop := StopJoinHook\<rparr>)"
| join_hook: "cr_stop r = StopJoinHook \<Longrightarrow> cr_hook r = HookExited \<Longrightarrow>
    capture_step w Quiet r (r\<lparr>cr_stop := StopReturned\<rparr>)"

inductive_cases capture_stepE: "capture_step w l r r'"

text \<open>A run with the labels of its steps.\<close>

inductive capture_run :: "Win32 \<Rightarrow> capture_label list \<Rightarrow> CaptureRun \<Rightarrow> CaptureRun \<Rightarrow> bool" for w where
  run_nil: "capture_run w [] r r"
| run_cons: "capture_step w l r r' \<Longrightarrow> capture_run w ls r' r'' \<Longrightarrow> capture_run w (l # ls) r r''"

lemma capture_run_append:
  "capture_run w ls r r' \<Longrightarrow> capture_run w ks r' r'' \<Longrightarrow> capture_run w (ls @ ks) r r''"
  by (induction rule: capture_run.induct) (auto intro: capture_run.intros)

text \<open>A property that all steps with allowed labels keep holds along runs of such labels.\<close>

lemma capture_run_inv:
  assumes "capture_run w ls r r'" and "list_all ok ls" and "P r"
    and "\<And>l r r'. capture_step w l r r' \<Longrightarrow> ok l \<Longrightarrow> P r \<Longrightarrow> P r'"
  shows "P r'"
  using assms(1-3) by (induction rule: capture_run.induct) (auto intro: assms(4))

section \<open>Stopping\<close>

lemma hook_proc_frame:
  assumes "hook_proc w i s = (res, s')"
  shows "wc_running s' = wc_running s" "wc_tx s' = wc_tx s" "wc_rx s' = wc_rx s"
    "wc_capturing s' = wc_capturing s" "wc_sink s' = wc_sink s"
    "wc_keyboard_hook s' = wc_keyboard_hook s" "wc_mouse_hook s' = wc_mouse_hook s"
  using hook_proc_state [of w i s] by (simp_all add: assms)

text \<open>Once stop has been called nothing runs any more and the sender is gone, for good.\<close>

definition stopping :: "CaptureRun \<Rightarrow> bool" where
  "stopping r \<longleftrightarrow> \<not> wc_running (cr_state r) \<and> \<not> wc_tx (cr_state r)"

definition called_inv :: "CaptureRun \<Rightarrow> bool" where
  "called_inv r \<longleftrightarrow> (cr_stop r \<noteq> StopNotCalled \<longrightarrow> stopping r)"

lemma stopping_step: "capture_step w l r r' \<Longrightarrow> stopping r \<Longrightarrow> stopping r'"
  by (erule capture_stepE)
    (auto simp: stopping_def set_capturing_def stop_begin_def dest: hook_proc_frame)

lemma called_inv_step: "capture_step w l r r' \<Longrightarrow> called_inv r \<Longrightarrow> called_inv r'"
  by (erule capture_stepE)
    (auto simp: called_inv_def stopping_def set_capturing_def stop_begin_def dest: hook_proc_frame)

interpretation capture_calls: invariant_system "\<lambda>r. \<exists>sink. r = capture_started sink"
  "\<lambda>r r'. \<exists>l. capture_step w l r r'" called_inv for w
proof unfold_locales
  show "called_inv r" if "\<exists>sink. r = capture_started sink" for r
    using that by (auto simp: called_inv_def capture_started_def)
  show "called_inv r'" if "called_inv r" "\<exists>l. capture_step w l r r'" for r r'
    using that called_inv_step by blast
qed

lemma capture_run_steps:
  "capture_run w ls r r' \<Longrightarrow> (\<lambda>r r'. \<exists>l. capture_step w l r r')\<^sup>*\<^sup>* r r'"
  by (induction rule: capture_run.induct) (auto intro: converse_rtranclp_into_rtranclp)

lemma called_stopping:
  assumes "capture_run w ls (capture_started sink) r" and "cr_stop r \<noteq> StopNotCalled"
  shows "stopping r"
  using capture_calls.inv_reachable [OF _ capture_run_steps [OF assms(1)]] assms(2)
  by (auto simp: called_inv_def)

text \<open>How many events the drain thread can still deliver once it stops.\<close>

definition still_to_come :: "CaptureRun \<Rightarrow> nat" where
  "still_to_come r = length (cr_sent r) + (if cr_recv r = RecvWait then 1 else 0)"

lemma drain_raw_length: "drain_raw w c m raw = (evs, m') \<Longrightarrow> length evs \<le> 1"
  by (auto simp: drain_raw_def Let_def split: if_splits)

lemma still_to_come_step:
  "capture_step w l r r' \<Longrightarrow> stopping r \<Longrightarrow> still_to_come r' \<le> still_to_come r"
  by (erule capture_stepE) (auto simp: still_to_come_def stopping_def dest: drain_raw_length)

lemma drain_raw_move [simp]: "drain_raw w c m (RawMouseMove x y) = ([Mouse (MoveAbs x y)], m)"
  by (simp add: drain_raw_def raw_modifiers_def)

text \<open>Left alone, the drain thread is out after two more steps.\<close>

lemma recv_exits:
  assumes "stopping r"
  shows "\<exists>js r'. capture_run w js r r' \<and> set js \<subseteq> {Quiet} \<and> length js \<le> 2 \<and> cr_recv r' = RecvExited"
proof -
  have check: "\<exists>r'. capture_step w Quiet r r' \<and> cr_recv r' = RecvExited"
    if "cr_recv r = RecvCheck" "stopping r" for r
  proof -
    have "capture_step w Quiet r (r\<lparr>cr_state := (cr_state r)\<lparr>wc_rx := False\<rparr>, cr_recv := RecvExited\<rparr>)"
      using that by (intro capture_step.recv_end) (simp_all add: stopping_def)
    moreover have "cr_recv (r\<lparr>cr_state := (cr_state r)\<lparr>wc_rx := False\<rparr>, cr_recv := RecvExited\<rparr>) = RecvExited"
      by simp
    ultimately show ?thesis by blast
  qed
  show ?thesis
  proof (cases "cr_recv r")
    case RecvExited
    then show ?thesis by (intro exI [of _ "[]"] exI [of _ r]) (simp add: run_nil)
  next
    case RecvCheck
    with check [OF _ assms] obtain r' where "capture_step w Quiet r r'" "cr_recv r' = RecvExited" by blast
    then show ?thesis by (intro exI [of _ "[Quiet]"] exI [of _ r']) (auto intro: capture_run.intros)
  next
    case RecvWait
    show ?thesis
    proof (cases "wc_queue (cr_state r)")
      case Nil
      let ?r' = "r\<lparr>cr_state := (cr_state r)\<lparr>wc_rx := False\<rparr>, cr_recv := RecvExited\<rparr>"
      have "capture_step w Quiet r ?r'"
        using RecvWait Nil assms by (intro capture_step.recv_disconnected) (simp_all add: stopping_def)
      then show ?thesis by (intro exI [of _ "[Quiet]"] exI [of _ ?r']) (auto intro: capture_run.intros)
    next
      case (Cons raw rest)
      obtain evs m' where d: "drain_raw w (wc_capturing (cr_state r)) (cr_mods r) raw = (evs, m')"
        by (cases "drain_raw w (wc_capturing (cr_state r)) (cr_mods r) raw")
      obtain r1 where r1: "capture_step w Quiet r r1" "cr_recv r1 = RecvCheck"
        using capture_step.recv_event [OF RecvWait Cons d] by (auto simp: that)
      with check [OF _ stopping_step [OF r1(1) assms]] obtain r'
        where "capture_step w Quiet r1 r'" "cr_recv r' = RecvExited" by blast
      with r1 show ?thesis
        by (intro exI [of _ "[Quiet, Quiet]"] exI [of _ r']) (auto intro: capture_run.intros)
    qed
  qed
qed

text \<open>
  C26: Stopping the capture ends the delivery of events: from the moment stop is called the drain
  thread hands at most one more event to the session, whatever the other threads and the system do,
  and it is always at most two of its own steps away from its end, so the first join returns.
\<close>

theorem stop_ends_delivery:
  assumes "capture_run w ls (capture_started sink) r" and "cr_stop r \<noteq> StopNotCalled"
    and "capture_run w ks r r'"
  shows "length (cr_sent r') \<le> Suc (length (cr_sent r)) \<and>
    (\<exists>js r''. capture_run w js r' r'' \<and> set js \<subseteq> {Quiet} \<and> length js \<le> 2 \<and> cr_recv r'' = RecvExited)"
proof -
  have st: "stopping r" using called_stopping assms(1,2) .
  have "stopping r' \<and> still_to_come r' \<le> still_to_come r"
    using assms(3) _ conjI [OF st order.refl]
  proof (rule capture_run_inv)
    show "list_all (\<lambda>_. True) ks" by (simp add: list_all_iff)
  next
    fix l r1 r2
    assume "capture_step w l r1 r2" and "stopping r1 \<and> still_to_come r1 \<le> still_to_come r"
    then show "stopping r2 \<and> still_to_come r2 \<le> still_to_come r"
      using stopping_step still_to_come_step by (meson order.trans)
  qed
  then show ?thesis
    using recv_exits [of r' w] by (auto simp: still_to_come_def split: if_splits)
qed

lemma capture_started_simps [simp]:
  "cr_hook (capture_started sink) = HookInstall" "cr_recv (capture_started sink) = RecvCheck"
  "cr_stop (capture_started sink) = StopNotCalled" "cr_mods (capture_started sink) = mod_empty"
  "cr_sent (capture_started sink) = []" "cr_results (capture_started sink) = []"
  "wc_running (cr_state (capture_started sink))" "wc_tx (cr_state (capture_started sink))"
  "wc_rx (cr_state (capture_started sink))" "wc_queue (cr_state (capture_started sink)) = []"
  "\<not> wc_capturing (cr_state (capture_started sink))"
  "\<not> wc_hook_capturing (cr_state (capture_started sink))"
  by (simp_all add: capture_started_def capture_start_def capture_new_def)

lemma step_Quiet:
  "capture_step w l r r1 \<Longrightarrow> r1 = r2 \<Longrightarrow> capture_step w l r r2"
  by simp

text \<open>The state after installing the hooks and entering the message wait.\<close>

definition pumping :: "nat \<Rightarrow> CaptureRun" where
  "pumping sink =
     (capture_started sink)\<lparr>cr_state := (cr_state (capture_started sink))
        \<lparr>wc_keyboard_hook := 1, wc_mouse_hook := 2\<rparr>, cr_hook := HookGetMessage\<rparr>"

lemma run_pumping: "capture_run w [Quiet, Quiet] (capture_started sink) (pumping sink)"
proof -
  let ?r0 = "capture_started sink"
  let ?r1 = "?r0\<lparr>cr_state := (cr_state ?r0)\<lparr>wc_keyboard_hook := 1, wc_mouse_hook := 2\<rparr>, cr_hook := HookCheck\<rparr>"
  have "capture_step w Quiet ?r0 ?r1" by (rule capture_step.install) simp_all
  moreover have "capture_step w Quiet ?r1 (pumping sink)"
    by (rule step_Quiet [OF capture_step.pump]) (simp_all add: pumping_def)
  ultimately show ?thesis by (blast intro: capture_run.intros)
qed

lemma hook_thread_waits:
  assumes "capture_run w ks r r'" and "Message \<notin> set ks"
    and "cr_hook r = HookGetMessage" and "cr_stop r = StopJoinHook"
  shows "cr_hook r' = HookGetMessage \<and> cr_stop r' = StopJoinHook"
  using assms(1) _ conjI [OF assms(3,4)]
proof (rule capture_run_inv)
  show "list_all (\<lambda>l. l \<noteq> Message) ks" using assms(2) by (auto simp: list_all_iff)
next
  fix l r1 r2
  assume "capture_step w l r1 r2" "l \<noteq> Message" "cr_hook r1 = HookGetMessage \<and> cr_stop r1 = StopJoinHook"
  then show "cr_hook r2 = HookGetMessage \<and> cr_stop r2 = StopJoinHook"
    by (auto elim: capture_stepE)
qed

text \<open>
  C39: Stopping needs a message that nobody posts. After a start and a stop there is a state in which
  the flags are cleared, the hooks are gone and the drain thread has ended, and the hook thread waits
  for a message: then no input can come any more, stop stays in its second join in every run without a
  message, and a single message to that thread is enough for it to return.
\<close>

theorem stop_hangs_without_message:
  "\<exists>ls r. capture_run w ls (capture_started sink) r \<and> Message \<notin> set ls \<and> cr_recv r = RecvExited \<and>
     \<not> wc_running (cr_state r) \<and> (\<forall>i. \<not> hooked i (cr_state r)) \<and>
     {r'. \<exists>ks. capture_run w ks r r' \<and> Message \<notin> set ks} \<subseteq> {r'. cr_stop r' = StopJoinHook} \<and>
     (\<exists>r'. capture_run w [Message, Quiet, Quiet] r r' \<and> cr_stop r' = StopReturned)"
proof -
  let ?s = "(snd (stop_begin (cr_state (pumping sink))))\<lparr>wc_drain_thread := False\<rparr>"
  let ?r1 = "(pumping sink)\<lparr>cr_state := ?s, cr_stop := StopJoinDrain\<rparr>"
  let ?r2 = "?r1\<lparr>cr_state := ?s\<lparr>wc_rx := False\<rparr>, cr_recv := RecvExited\<rparr>"
  let ?r3 = "?r2\<lparr>cr_state := ?s\<lparr>wc_rx := False, wc_hook_thread := False\<rparr>, cr_stop := StopJoinHook\<rparr>"
  have "capture_step w CallStop (pumping sink) ?r1"
    by (rule capture_step.stop_call) (simp add: pumping_def)
  moreover have "capture_step w Quiet ?r1 ?r2"
    by (rule step_Quiet [OF capture_step.recv_end]) (simp_all add: pumping_def stop_begin_def)
  moreover have "capture_step w Quiet ?r2 ?r3"
    by (rule step_Quiet [OF capture_step.join_drain]) simp_all
  ultimately have "capture_run w [CallStop, Quiet, Quiet] (pumping sink) ?r3"
    by (blast intro: capture_run.intros)
  then have run: "capture_run w ([Quiet, Quiet] @ [CallStop, Quiet, Quiet]) (capture_started sink) ?r3"
    by (rule capture_run_append [OF run_pumping])
  define r3 where "r3 = ?r3"
  have r3: "cr_hook r3 = HookGetMessage" "cr_stop r3 = StopJoinHook" "cr_recv r3 = RecvExited"
    "\<not> wc_running (cr_state r3)" "wc_keyboard_hook (cr_state r3) = 0" "wc_mouse_hook (cr_state r3) = 0"
    by (simp_all add: r3_def pumping_def stop_begin_def)
  have "capture_step w Message r3 (r3\<lparr>cr_hook := HookCheck\<rparr>)"
    by (rule capture_step.message [OF r3(1)])
  moreover have "capture_step w Quiet (r3\<lparr>cr_hook := HookCheck\<rparr>) (r3\<lparr>cr_hook := HookExited\<rparr>)"
    by (rule step_Quiet [OF capture_step.pump]) (simp_all add: r3)
  moreover have "capture_step w Quiet (r3\<lparr>cr_hook := HookExited\<rparr>) (r3\<lparr>cr_hook := HookExited, cr_stop := StopReturned\<rparr>)"
    by (rule step_Quiet [OF capture_step.join_hook]) (simp_all add: r3)
  ultimately have "capture_run w [Message, Quiet, Quiet] r3 (r3\<lparr>cr_hook := HookExited, cr_stop := StopReturned\<rparr>)"
    by (blast intro: capture_run.intros)
  moreover have "cr_stop (r3\<lparr>cr_hook := HookExited, cr_stop := StopReturned\<rparr>) = StopReturned" by simp
  ultimately have ends: "\<exists>r'. capture_run w [Message, Quiet, Quiet] r3 r' \<and> cr_stop r' = StopReturned" by blast
  have "\<not> hooked i (cr_state r3)" for i by (cases i) (simp_all add: r3)
  moreover have "{r'. \<exists>ks. capture_run w ks r3 r' \<and> Message \<notin> set ks} \<subseteq> {r'. cr_stop r' = StopJoinHook}"
    using hook_thread_waits r3(1,2) by blast
  moreover have "Message \<notin> set ([Quiet, Quiet] @ [CallStop, Quiet, Quiet])" by simp
  ultimately show ?thesis using run [folded r3_def] ends r3(3,4) by blast
qed

text \<open>A motion is queued, stop is called while the drain thread waits for it, and it is delivered.\<close>

theorem stop_ends_delivery_witness:
  "\<exists>r. capture_run sample_win32 [Quiet, Quiet, Quiet, Input (OsMouse 0 512 \<lparr>ms_x = 7, ms_y = 9, ms_mouseData = 0\<rparr>),
       CallStop, Quiet] (capture_started 0) r \<and> cr_sent r = [Mouse (MoveAbs 7 9)] \<and>
     (\<exists>js r''. capture_run sample_win32 js r r'' \<and> set js \<subseteq> {Quiet} \<and> length js \<le> 2 \<and> cr_recv r'' = RecvExited)"
proof -
  let ?i = "OsMouse 0 512 \<lparr>ms_x = 7, ms_y = 9, ms_mouseData = 0\<rparr>"
  let ?r1 = "(pumping 0)\<lparr>cr_recv := RecvWait\<rparr>"
  let ?r2 = "?r1\<lparr>cr_state := (cr_state ?r1)\<lparr>wc_queue := [RawMouseMove 7 9]\<rparr>, cr_results := [CallNext 2]\<rparr>"
  let ?s3 = "(snd (stop_begin (cr_state ?r2)))\<lparr>wc_drain_thread := False\<rparr>"
  let ?r3 = "?r2\<lparr>cr_state := ?s3, cr_stop := StopJoinDrain\<rparr>"
  let ?r4 = "?r3\<lparr>cr_state := ?s3\<lparr>wc_queue := []\<rparr>, cr_mods := mod_empty, cr_sent := [Mouse (MoveAbs 7 9)], cr_recv := RecvCheck\<rparr>"
  have "capture_step sample_win32 Quiet (pumping 0) ?r1"
    by (rule capture_step.recv_loop) (simp_all add: pumping_def)
  moreover have "capture_step sample_win32 (Input ?i) ?r1 ?r2"
    by (rule step_Quiet [OF capture_step.input])
      (simp_all add: pumping_def low_level_mouse_proc_def word_sle_eq mouse_event_def Let_def push_opt_def
        try_push_def QUEUE_BOUND_def)
  moreover have "capture_step sample_win32 CallStop ?r2 ?r3"
    by (rule step_Quiet [OF capture_step.stop_call]) (simp_all add: pumping_def)
  ultimately have "capture_run sample_win32 [Quiet, Input ?i, CallStop] (pumping 0) ?r3"
    by (blast intro: capture_run.intros)
  then have run: "capture_run sample_win32 ([Quiet, Quiet] @ [Quiet, Input ?i, CallStop]) (capture_started 0) ?r3"
    by (rule capture_run_append [OF run_pumping])
  have "capture_step sample_win32 Quiet ?r3 ?r4"
    by (rule step_Quiet [OF capture_step.recv_event [where raw = "RawMouseMove 7 9" and rest = "[]"
        and evs = "[Mouse (MoveAbs 7 9)]" and m' = mod_empty]])
      (simp_all add: stop_begin_def pumping_def)
  then have last: "capture_run sample_win32 [Quiet] ?r3 ?r4" by (blast intro: capture_run.intros)
  have "\<exists>js r''. capture_run sample_win32 js ?r4 r'' \<and> set js \<subseteq> {Quiet} \<and> length js \<le> 2 \<and> cr_recv r'' = RecvExited"
    using stop_ends_delivery [OF run _ last] by simp
  moreover have "cr_sent ?r4 = [Mouse (MoveAbs 7 9)]" by simp
  moreover have "capture_run sample_win32 (([Quiet, Quiet] @ [Quiet, Input ?i, CallStop]) @ [Quiet]) (capture_started 0) ?r4"
    by (rule capture_run_append [OF run last])
  ultimately show ?thesis by (intro exI [of _ ?r4]) simp
qed

section \<open>Races and failed starts\<close>

text \<open>
  The hook reads the capture switch when an input arrives, the drain thread when it handles the event:
  when the switch goes off in between, a release that was kept from the local machine is dropped, so
  that neither machine sees it.
\<close>

theorem swallowed_release_lost:
  "\<exists>r. capture_run sample_win32 [Quiet, Quiet, SetCapturingTo True,
       Input (OsKey 0 257 \<lparr>kb_vkCode = 65, kb_scanCode = 30\<rparr>), SetCapturingTo False, Quiet, Quiet]
       (capture_started 0) r \<and>
     cr_results r = [Swallowed] \<and> cr_sent r = [] \<and> wc_queue (cr_state r) = []"
proof -
  let ?i = "OsKey 0 257 \<lparr>kb_vkCode = 65, kb_scanCode = 30\<rparr>"
  let ?s0 = "cr_state (pumping 0)"
  let ?r1 = "(pumping 0)\<lparr>cr_state := set_capturing True ?s0\<rparr>"
  let ?r2 = "?r1\<lparr>cr_state := (set_capturing True ?s0)\<lparr>wc_queue := [RawKeyUp 65 30]\<rparr>, cr_results := [Swallowed]\<rparr>"
  let ?r3 = "?r2\<lparr>cr_state := (set_capturing False ?s0)\<lparr>wc_queue := [RawKeyUp 65 30]\<rparr>\<rparr>"
  let ?r4 = "?r3\<lparr>cr_recv := RecvWait\<rparr>"
  let ?m = "raw_modifiers sample_win32 mod_empty (RawKeyUp 65 30)"
  let ?r5 = "?r4\<lparr>cr_state := (set_capturing False ?s0)\<lparr>wc_queue := []\<rparr>, cr_mods := ?m, cr_recv := RecvCheck\<rparr>"
  have esc: "sample_vk ''VK_ESCAPE'' = 27" by code_simp
  have "capture_step sample_win32 (SetCapturingTo True) (pumping 0) ?r1"
    by (rule capture_step.set_capturing)
  moreover have "capture_step sample_win32 (Input ?i) ?r1 ?r2"
    by (rule step_Quiet [OF capture_step.input])
      (simp_all add: pumping_def low_level_keyboard_proc_def word_sle_eq keyboard_event_def Let_def
        push_opt_def try_push_def QUEUE_BOUND_def set_capturing_def esc)
  moreover have "capture_step sample_win32 (SetCapturingTo False) ?r2 ?r3"
    by (rule step_Quiet [OF capture_step.set_capturing]) (simp add: set_capturing_def)
  moreover have "capture_step sample_win32 Quiet ?r3 ?r4"
    by (rule capture_step.recv_loop) (simp_all add: pumping_def set_capturing_def)
  moreover have "capture_step sample_win32 Quiet ?r4 ?r5"
    by (rule step_Quiet [OF capture_step.recv_event [where raw = "RawKeyUp 65 30" and rest = "[]"
        and evs = "[]" and m' = ?m]])
      (simp_all add: drain_raw_def pumping_def set_capturing_def)
  ultimately have "capture_run sample_win32 [SetCapturingTo True, Input ?i, SetCapturingTo False, Quiet, Quiet]
      (pumping 0) ?r5"
    by (blast intro: capture_run.intros)
  then have "capture_run sample_win32 ([Quiet, Quiet] @ [SetCapturingTo True, Input ?i, SetCapturingTo False, Quiet, Quiet])
      (capture_started 0) ?r5"
    by (rule capture_run_append [OF run_pumping])
  moreover have "cr_results ?r5 = [Swallowed]" "cr_sent ?r5 = []" "wc_queue (cr_state ?r5) = []"
    by (simp_all add: pumping_def)
  ultimately show ?thesis by (intro exI [of _ ?r5]) simp
qed

text \<open>
  A start that fails leaves the running flag set: every later start reports success and changes
  nothing, and no event is ever delivered.
\<close>

theorem failed_start_is_final:
  assumes "\<not> wc_running s0" and "\<not> is_ok h \<or> \<not> is_ok d"
    and "capture_start sink h d s0 = (res, s1)"
  shows "\<not> is_ok res \<and> \<not> wc_rx s1 \<and> capture_start sink' h' d' s1 = (Ok (), s1)"
  using assms by (cases h; cases d) (auto simp: capture_start_def Let_def)

end
