(* ===== verification/CaptureLifecycle.thy ===== *)
theory CaptureLifecycle
  imports DaemonControl CaptureThreads
begin

text \<open>
  The requests of the daemon and the capture of the platform together: \<open>start_server\<close> spawns a session,
  and \<open>spawn_server\<close> of \<open>crates/daemon/src/session.rs\<close> starts the capture of the one platform object
  with the sink of the new session. No other effect of a request reaches the capture; in particular the
  teardown of \<open>stop_server\<close> closes the endpoint and aborts the accept and fan-out tasks only.
\<close>

text \<open>The part of an effect that concerns the capture; sinks are named by the endpoint of their session.\<close>

fun capture_effect_of :: "CaptureState \<Rightarrow> daemon_effect \<Rightarrow> CaptureState" where
  "capture_effect_of c (SpawnServerSession ep) = snd (capture_start ep (Ok ()) (Ok ()) c)"
| "capture_effect_of c _ = c"

definition capture_effects_of :: "CaptureState \<Rightarrow> daemon_effect list \<Rightarrow> CaptureState" where
  "capture_effects_of c effs = foldl capture_effect_of c effs"

text \<open>Requests, each with the world it finds, over the state of the daemon and of the capture.\<close>

fun serve_requests ::
  "(RequestWorld \<times> IpcRequest) list \<Rightarrow> DaemonState \<times> CaptureState \<Rightarrow>
   IpcResponse option list \<times> daemon_effect list \<times> DaemonState \<times> CaptureState" where
  "serve_requests [] (s, c) = ([], [], s, c)"
| "serve_requests ((w, req) # reqs) (s, c) =
     (case handle_request w req s of
        (resp, s1, effs) \<Rightarrow>
          (case serve_requests reqs (s1, capture_effects_of c effs) of
             (resps, effs', s2, c2) \<Rightarrow> (resp # resps, effs @ effs', s2, c2)))"

text \<open>The sessions that a list of effects spawns, in order.\<close>

fun spawned :: "daemon_effect list \<Rightarrow> nat list" where
  "spawned [] = []"
| "spawned (SpawnServerSession ep # effs) = ep # spawned effs"
| "spawned (_ # effs) = spawned effs"

lemma capture_effects_of_simps [simp]:
  "capture_effects_of c [] = c"
  "capture_effects_of c (e # effs) = capture_effects_of (capture_effect_of c e) effs"
  "capture_effects_of c (effs @ effs') = capture_effects_of (capture_effects_of c effs) effs'"
  by (simp_all add: capture_effects_of_def)

lemma serve_requests_capture:
  "serve_requests reqs (s, c) = (resps, effs, s', c') \<Longrightarrow> c' = capture_effects_of c effs"
proof (induction reqs arbitrary: s c resps effs)
  case (Cons q reqs)
  then show ?case by (cases q) (fastforce split: prod.splits)
qed simp

text \<open>A started capture never changes: a further start is ignored.\<close>

lemma running_capture_kept: "wc_running c \<Longrightarrow> capture_effects_of c effs = c"
proof (induction effs arbitrary: c)
  case (Cons e effs)
  then show ?case by (cases e) (simp_all add: capture_start_def)
qed simp

lemma first_session_keeps_capture:
  "capture_effects_of capture_new effs =
     (case spawned effs of
        [] \<Rightarrow> capture_new
      | ep # _ \<Rightarrow> snd (capture_start ep (Ok ()) (Ok ()) capture_new))"
proof (induction effs)
  case (Cons e effs)
  have "wc_running (snd (capture_start ep (Ok ()) (Ok ()) capture_new))" for ep
    by (simp add: capture_start_def capture_new_def)
  with Cons running_capture_kept show ?case by (cases e) simp_all
qed simp

text \<open>
  C16: The capture belongs to the first session. Whatever requests the daemon is sent - Stop, Run,
  EmergencyStop or any other - the capture is at the end as the first session that was spawned left
  it, and captured input goes to the sink of that session, if any. A server that is stopped and run
  again therefore spawns a session and reports that it listens and captures, but the new session gets
  no input.
\<close>

theorem capture_belongs_to_first_session:
  assumes "serve_requests reqs (s, capture_new) = (resps, effs, s', c')"
  shows "c' = (case spawned effs of
        [] \<Rightarrow> capture_new
      | ep # _ \<Rightarrow> snd (capture_start ep (Ok ()) (Ok ()) capture_new)) \<and>
    wc_sink c' = (case spawned effs of [] \<Rightarrow> None | ep # _ \<Rightarrow> Some ep)"
  using serve_requests_capture [OF assms] first_session_keeps_capture [of effs]
  by (auto simp: capture_start_def capture_new_def split: list.split)

definition sample_world :: "nat \<Rightarrow> RequestWorld" where
  "sample_world ep =
     \<lparr>rw_version = ''0.1.0'', rw_now = 0,
      rw_resolver = \<lparr>rs_from_str = (\<lambda>a. Some a), rs_resolve = (\<lambda>a. Err ''no such host'')\<rparr>,
      rw_bind = Ok (ep, Some ''0.0.0.0:24800'')\<rparr>"

definition sample_server_state :: DaemonState where
  "sample_server_state = fst (daemon_start ((config_default Map.empty)\<lparr>cfg_role := RoleServer\<rparr>) (PeerId 1)
     \<lparr>cb_cert_chain = [], cb_key = [], cb_fingerprint_hex = []\<rparr> 0)"

text \<open>Run, Stop, Run: the second session has endpoint 8, the captured input goes to that of endpoint 7.\<close>

theorem capture_belongs_to_first_session_witness:
  "\<exists>resps effs s c. serve_requests
       [(sample_world 7, StartServer), (sample_world 7, StopServer), (sample_world 8, StartServer)]
       (sample_server_state, capture_new) = (resps, effs, s, c) \<and>
     resps = [Some OkReply, Some OkReply, Some OkReply] \<and> spawned effs = [7, 8] \<and>
     ds_listening s \<and> ds_capturing s \<and> ds_server_controller s = Some 8 \<and> wc_sink c = Some 7"
proof -
  let ?s0 = sample_server_state
  let ?reqs = "[(sample_world 7, StartServer), (sample_world 7, StopServer), (sample_world 8, StartServer)]"
  have s0: "ds_server_controller ?s0 = None" "\<exists>f. ds_server_factory ?s0 = Some f"
    by (simp_all add: sample_server_state_def daemon_start_def initial_state_def)
  obtain resps effs s c where run: "serve_requests ?reqs (?s0, capture_new) = (resps, effs, s, c)"
    by (metis prod_cases4)
  have "resps = [Some OkReply, Some OkReply, Some OkReply] \<and> spawned effs = [7, 8] \<and>
      ds_listening s \<and> ds_capturing s \<and> ds_server_controller s = Some 8"
    using run s0 by (auto simp: stop_server_def stop_clear_def start_server_def start_check_def start_commit_def
        sample_world_def reply_of_def)
  with capture_belongs_to_first_session [OF run] run show ?thesis by auto
qed

end
