(* ===== verification/Backends.thy ===== *)
theory Backends
  imports CaptureLifecycle WindowsInject LinuxInject
begin

text \<open>
  The back ends behind the traits of \<open>crates/platform/src/traits.rs\<close>: the platform objects of
  \<open>windows/mod.rs\<close>, \<open>linux/mod.rs\<close> and \<open>stub.rs\<close>, and the operations of \<open>Capture\<close> and \<open>Inject\<close>
  dispatched over them. A dynamic object of a trait is the datatype of its implementations.
\<close>

section \<open>Objects\<close>

datatype CaptureObject = CapWindows CaptureState | CapLinux bool | CapStub

datatype InjectObject = InjWindows | InjLinux LinuxInjector | InjStub

record PlatformObject =
  pf_name :: string
  pf_capture :: CaptureObject
  pf_inject :: InjectObject

definition windows_platform :: PlatformObject where
  "windows_platform =
     \<lparr>pf_name = ''windows'', pf_capture = CapWindows capture_new, pf_inject = InjWindows\<rparr>"

definition linux_capture_new :: bool where
  "linux_capture_new = False"

definition linux_platform :: "Uinput \<Rightarrow> PlatformObject" where
  "linux_platform u =
     \<lparr>pf_name = ''linux-x11'', pf_capture = CapLinux linux_capture_new, pf_inject = InjLinux (linux_new u)\<rparr>"

definition stub_platform :: PlatformObject where
  "stub_platform = \<lparr>pf_name = ''stub'', pf_capture = CapStub, pf_inject = InjStub\<rparr>"

section \<open>Capture\<close>

definition stub_capture_stop :: "Error + unit" where
  "stub_capture_stop = Ok ()"

definition stub_set_capturing :: "bool \<Rightarrow> CaptureObject" where
  "stub_set_capturing capturing = CapStub"

definition stub_warp_cursor :: "CursorPos \<Rightarrow> Error + unit" where
  "stub_warp_cursor pos = Ok ()"

text \<open>
  The operations; the two outcomes of \<open>start\<close> are those of spawning the threads on Windows. \<open>stop\<close> is its
  first part on Windows, before the joins.
\<close>

fun cap_start :: "nat \<Rightarrow> string + unit \<Rightarrow> string + unit \<Rightarrow> CaptureObject \<Rightarrow> (Error + unit) \<times> CaptureObject" where
  "cap_start sink hook drain (CapWindows c) = apsnd CapWindows (capture_start sink hook drain c)"
| "cap_start sink hook drain (CapLinux b) = apsnd CapLinux (linux_capture_start b)"
| "cap_start sink hook drain CapStub = (stub_capture_start, CapStub)"

fun cap_stop :: "CaptureObject \<Rightarrow> CaptureObject" where
  "cap_stop (CapWindows c) = CapWindows (snd (stop_begin c))"
| "cap_stop (CapLinux b) = CapLinux (snd (linux_capture_stop b))"
| "cap_stop CapStub = CapStub"

fun cap_set_capturing :: "bool \<Rightarrow> CaptureObject \<Rightarrow> CaptureObject" where
  "cap_set_capturing b (CapWindows c) = CapWindows (set_capturing b c)"
| "cap_set_capturing b (CapLinux old) = CapLinux (linux_set_capturing b old)"
| "cap_set_capturing b CapStub = stub_set_capturing b"

fun cap_warp_cursor :: "(i32 \<Rightarrow> i32 \<Rightarrow> string + unit) \<Rightarrow> CursorPos \<Rightarrow> CaptureObject \<Rightarrow> Error + unit" where
  "cap_warp_cursor set_pos pos (CapWindows c) = windows_warp_cursor set_pos pos"
| "cap_warp_cursor set_pos pos (CapLinux b) = linux_warp_cursor pos"
| "cap_warp_cursor set_pos pos CapStub = stub_warp_cursor pos"

fun cap_cursor_position :: "string + i32 \<times> i32 \<Rightarrow> CaptureObject \<Rightarrow> Error + CursorPos" where
  "cap_cursor_position get (CapWindows c) = windows_cursor_position get"
| "cap_cursor_position get (CapLinux b) = linux_cursor_position"
| "cap_cursor_position get CapStub = stub_cursor_position"

text \<open>The sink that a capture delivers to: the stubs keep none.\<close>

fun cap_sink :: "CaptureObject \<Rightarrow> nat option" where
  "cap_sink (CapWindows c) = wc_sink c"
| "cap_sink _ = None"

section \<open>Injection\<close>

definition stub_release :: "Error + unit" where
  "stub_release = Ok ()"

text \<open>Injecting an event, as far as the result goes, with what the system is given.\<close>

datatype os_output = ToWindows "INPUT list list" | ToLinux "input_event list list" | ToNothing

fun plat_inject :: "Win32Inject \<Rightarrow> LinuxSys \<Rightarrow> InjectObject \<Rightarrow> InputEvent \<Rightarrow> (Error + unit) \<times> os_output \<times> InjectObject" where
  "plat_inject w sys InjWindows ev =
     (case windows_inject w ev of (r, inputs) \<Rightarrow> (r, ToWindows inputs, InjWindows))"
| "plat_inject w sys (InjLinux i) ev =
     (case injector_inject sys i ev of ((r, batches), i') \<Rightarrow> (r, ToLinux batches, InjLinux i'))"
| "plat_inject w sys InjStub ev = (stub_inject ev, ToNothing, InjStub)"

fun plat_release :: "Win32Inject \<Rightarrow> LinuxSys \<Rightarrow> InjectObject \<Rightarrow> (Error + unit) \<times> os_output" where
  "plat_release w sys InjWindows = apsnd ToWindows (windows_release_all_modifiers w)"
| "plat_release w sys (InjLinux i) = apsnd ToLinux (injector_release sys i)"
| "plat_release w sys InjStub = (stub_release, ToNothing)"

section \<open>A session on any back end\<close>

text \<open>The part of the daemon's effects that concerns the capture, on the platform's own object.\<close>

fun backend_effect :: "CaptureObject \<Rightarrow> daemon_effect \<Rightarrow> CaptureObject" where
  "backend_effect c (SpawnServerSession ep) = snd (cap_start ep (Ok ()) (Ok ()) c)"
| "backend_effect c _ = c"

text \<open>On Windows this is the capture of \<open>capture_effects_of\<close>.\<close>

lemma backend_effects_windows:
  "foldl backend_effect (CapWindows c) effs = CapWindows (capture_effects_of c effs)"
proof (induction effs arbitrary: c)
  case (Cons e effs)
  then show ?case by (cases e) simp_all
qed simp

fun is_linux_capture :: "CaptureObject \<Rightarrow> bool" where
  "is_linux_capture (CapLinux b) = True"
| "is_linux_capture _ = False"

lemma backend_effects_linux: "is_linux_capture c \<Longrightarrow> is_linux_capture (foldl backend_effect c effs)"
proof (induction effs arbitrary: c)
  case (Cons e effs)
  then have "is_linux_capture (backend_effect c e)"
    by (cases c; cases e) (simp_all add: linux_capture_start_def)
  with Cons.IH show ?case by simp
qed simp

text \<open>
  A server on Linux reports what it does not do. After an accepted Run the status says that it listens
  and captures; the start of the capture succeeds; yet after any effects of the daemon the capture has no
  sink, so no event ever reaches the session, and the cursor cannot be moved.
\<close>

theorem linux_server_reports_capture:
  assumes "handle_request w StartServer s = (Some OkReply, s', effs)"
    and "c = foldl backend_effect (pf_capture (linux_platform u)) all_effects"
  shows "sr_capturing (status_of v now s') \<and> sr_listening (status_of v now s') \<and>
    fst (cap_start ep hook drain c) = Ok () \<and> cap_sink (snd (cap_start ep hook drain c)) = None \<and>
    cap_sink c = None \<and> \<not> is_ok (cap_warp_cursor set_pos pos c)"
proof -
  have "is_linux_capture c"
    unfolding assms(2) by (rule backend_effects_linux) (simp add: linux_platform_def)
  then obtain b where c: "c = CapLinux b" by (cases c) auto
  have "ds_capturing s' \<and> ds_listening s'"
    using assms(1) by (auto simp: start_server_def start_commit_def reply_of_def split: sum.splits)
  then show ?thesis by (simp add: c status_of_def linux_capture_start_def linux_warp_cursor_def)
qed

theorem linux_server_reports_capture_witness:
  "\<exists>s' effs. handle_request quiet_world StartServer idle_server = (Some OkReply, s', effs) \<and>
     sr_capturing (status_of ''0.1.0'' 5 s')"
proof -
  have f: "ds_server_controller idle_server = None" "\<exists>f. ds_server_factory idle_server = Some f"
    by (simp_all add: idle_server_fields)
  then obtain s' effs where r: "handle_request quiet_world StartServer idle_server = (Some OkReply, s', effs)"
    by (auto simp: start_server_def start_check_def quiet_world_def reply_of_def)
  from linux_server_reports_capture [OF r refl] r show ?thesis by blast
qed

end
