(* ===== verification/IpcTransport.thy ===== *)
theory IpcTransport
  imports DaemonControl StdText
begin

text \<open>
  The local socket between the daemon and its front ends: the path, the listener, the lines of JSON
  and the client of \<open>crates/ipc/src/transport.rs\<close>, the event and message types of
  \<open>crates/ipc/src/lib.rs\<close>, and the connection loop \<open>run\<close> of \<open>crates/daemon/src/ipc_server.rs\<close>.
  What serde writes for a request, response or event, and reads back, are parameters; so is what the
  operating system answers to a call.
\<close>

section \<open>Messages\<close>

datatype IpcEvent =
    PeerConnected string string
  | PeerDisconnected string
  | CapturingChanged bool
  | FileTransferProgress u64 u64 u64
  | LogEvent string

datatype IpcMessage = ResponseMessage IpcResponse | EventMessage IpcEvent

text \<open>A writer and a reader of one type, and those of the protocol.\<close>

record 'a serde =
  sd_ser :: "'a \<Rightarrow> string + bytes"
  sd_de :: "bytes \<Rightarrow> string + 'a"

record IpcJson =
  ij_request :: "IpcRequest serde"
  ij_response :: "IpcResponse serde"
  ij_event :: "IpcEvent serde"

text \<open>An untagged enum is read as the first variant that fits, and written as its content.\<close>

definition message_de :: "IpcJson \<Rightarrow> bytes \<Rightarrow> string + IpcMessage" where
  "message_de j t =
     (case sd_de (ij_response j) t of
        Inr r \<Rightarrow> Ok (ResponseMessage r)
      | Inl _ \<Rightarrow>
          (case sd_de (ij_event j) t of
             Inr e \<Rightarrow> Ok (EventMessage e)
           | Inl _ \<Rightarrow> Err ''data did not match any variant of untagged enum IpcMessage''))"

fun message_ser :: "IpcJson \<Rightarrow> IpcMessage \<Rightarrow> string + bytes" where
  "message_ser j (ResponseMessage r) = sd_ser (ij_response j) r"
| "message_ser j (EventMessage e) = sd_ser (ij_event j) e"

section \<open>The socket\<close>

definition default_socket_path :: "bool \<Rightarrow> (string \<Rightarrow> string option) \<Rightarrow> string" where
  "default_socket_path windows env =
     (if windows
      then [CHR 0x5C, CHR 0x5C, CHR ''.'', CHR 0x5C] @ ''pipe'' @ [CHR 0x5C] @ ''inputsync''
      else unix_join (case env ''XDG_RUNTIME_DIR'' of Some d \<Rightarrow> d | None \<Rightarrow> ''/tmp'') ''inputsync.sock'')"

text \<open>
  Listening on Unix: the names of the sockets in the file system, with the number of the listener
  each of them leads to. The calls can fail; removing the old socket may, unnoticed.
\<close>

record SocketWorld =
  sw_remove :: "string + unit"
  sw_create_dir :: "string \<Rightarrow> string + unit"
  sw_bind :: "string + unit"

type_synonym sockets = "string \<Rightarrow> nat option"

definition listen_unix :: "SocketWorld \<Rightarrow> nat \<Rightarrow> string \<Rightarrow> sockets \<Rightarrow> (string + unit) \<times> sockets" where
  "listen_unix w me path socks =
     (let socks1 = (if socks path \<noteq> None \<and> is_ok (sw_remove w) then socks(path := None) else socks)
      in case (case unix_parent path of None \<Rightarrow> Ok () | Some parent \<Rightarrow> sw_create_dir w parent) of
           Inl e \<Rightarrow> (Err e, socks1)
         | Inr _ \<Rightarrow>
             if socks1 path \<noteq> None
             then (Err (''bind '' @ path @ '': '' @ ''Address already in use''), socks1)
             else (case sw_bind w of
                     Inl e \<Rightarrow> (Err (''bind '' @ path @ '': '' @ e), socks1)
                   | Inr _ \<Rightarrow> (Ok (), socks1(path \<mapsto> me))))"

definition connect_unix :: "(nat \<Rightarrow> bool) \<Rightarrow> string \<Rightarrow> sockets \<Rightarrow> string + nat" where
  "connect_unix alive path socks =
     (case socks path of
        None \<Rightarrow> Err ''No such file or directory''
      | Some i \<Rightarrow> if alive i then Ok i else Err ''Connection refused'')"

text \<open>
  On Windows a listener is a name. Accepting creates an instance of the named pipe and waits until a
  client opens it; opening succeeds while an instance waits, which of several is the choice of the
  system. The state lists, by name, the daemons with a waiting instance.
\<close>

type_synonym pipes = "string \<Rightarrow> nat list"

definition listen_windows :: "string \<Rightarrow> string + string" where
  "listen_windows path = Ok path"

definition accept_windows :: "string + unit \<Rightarrow> nat \<Rightarrow> string \<Rightarrow> pipes \<Rightarrow> (string + unit) \<times> pipes" where
  "accept_windows create me path pipes =
     (case create of
        Inl e \<Rightarrow> (Err (''create pipe '' @ path @ '': '' @ e), pipes)
      | Inr _ \<Rightarrow> (Ok (), pipes(path := pipes path @ [me])))"

definition connect_windows :: "nat \<Rightarrow> string \<Rightarrow> string \<Rightarrow> pipes \<Rightarrow> (string + nat) \<times> pipes" where
  "connect_windows choice busy path pipes =
     (case pipes path of
        [] \<Rightarrow> (Err (''connect '' @ path @ '': '' @ busy), pipes)
      | d # ds \<Rightarrow>
          (let k = choice mod length (d # ds) in
           (Ok ((d # ds) ! k), pipes(path := take k (d # ds) @ drop (Suc k) (d # ds)))))"

text \<open>
  One instance waits at a time: between a client and the next turn of the accept loop another client is
  turned away; and a second daemon listens on the same name without either noticing.
\<close>

theorem pipe_turns_second_client_away:
  assumes "pipes path = []" and "accept_windows (Ok ()) me path pipes = (r, pipes1)"
    and "connect_windows i busy path pipes1 = (r1, pipes2)" and "connect_windows j busy path pipes2 = (r2, pipes3)"
  shows "r1 = Ok me \<and> r2 = Err (''connect '' @ path @ '': '' @ busy)"
  using assms by (auto simp: accept_windows_def connect_windows_def)

theorem pipe_shared_by_daemons:
  assumes "accept_windows (Ok ()) me path pipes = (r, pipes1)" and "accept_windows (Ok ()) other path pipes1 = (r', pipes2)"
    and "pipes path = []" and "me \<noteq> other"
  shows "is_ok r' \<and> (\<exists>i. fst (connect_windows i busy path pipes2) = Ok me) \<and>
    (\<exists>i. fst (connect_windows i busy path pipes2) = Ok other)"
proof -
  have p: "pipes2 path = [me, other]" "is_ok r'" using assms(1-3) by (auto simp: accept_windows_def)
  then have "fst (connect_windows 0 busy path pipes2) = Ok me" "fst (connect_windows 1 busy path pipes2) = Ok other"
    by (simp_all add: connect_windows_def)
  with p(2) show ?thesis by blast
qed

section \<open>Lines\<close>

text \<open>
  Writing a line; the operating system may fail after some of its bytes. The result is the bytes
  that went out. Flushing has no effect of its own.
\<close>

type_synonym io = "(string \<times> nat) option"

definition write_json_line :: "('a \<Rightarrow> string + bytes) \<Rightarrow> io \<Rightarrow> 'a \<Rightarrow> (string + unit) \<times> bytes" where
  "write_json_line ser io v =
     (case ser v of
        Inl e \<Rightarrow> (Err (''serialize ipc message: '' @ e), [])
      | Inr l \<Rightarrow>
          (case io of
             None \<Rightarrow> (Ok (), l @ [10])
           | Some (e, n) \<Rightarrow> (Err e, take n (l @ [10]))))"

definition bytes_string :: "bytes \<Rightarrow> string" where
  "bytes_string t = map (\<lambda>b. char_of (unat b)) t"

definition parse_line :: "(bytes \<Rightarrow> string + 'a) \<Rightarrow> bytes \<Rightarrow> string + 'a" where
  "parse_line de line =
     (if \<not> utf8_valid line then Err ''stream did not contain valid UTF-8''
      else if line = [] then Err ''ipc peer disconnected''
      else (let trimmed = trim_end line in
            map_err (\<lambda>e. ''parse ipc message: '' @ e @ '': '' @ bytes_string trimmed) (de trimmed)))"

text \<open>Reading a line from a stream that has ended or not; \<open>None\<close> waits for more.\<close>

definition read_json_line ::
  "(bytes \<Rightarrow> string + 'a) \<Rightarrow> bool \<Rightarrow> bytes \<Rightarrow> ((string + 'a) \<times> bytes) option" where
  "read_json_line de ended input =
     map_option (\<lambda>(line, rest). (parse_line de line, rest)) (take_line ended input)"

text \<open>The operations of a connection: lines of one type each.\<close>

definition write_request :: "IpcJson \<Rightarrow> io \<Rightarrow> IpcRequest \<Rightarrow> (string + unit) \<times> bytes" where
  [simp]: "write_request j = write_json_line (sd_ser (ij_request j))"

definition write_response :: "IpcJson \<Rightarrow> io \<Rightarrow> IpcResponse \<Rightarrow> (string + unit) \<times> bytes" where
  [simp]: "write_response j = write_json_line (sd_ser (ij_response j))"

definition write_event :: "IpcJson \<Rightarrow> io \<Rightarrow> IpcEvent \<Rightarrow> (string + unit) \<times> bytes" where
  [simp]: "write_event j = write_json_line (sd_ser (ij_event j))"

definition read_request :: "IpcJson \<Rightarrow> bool \<Rightarrow> bytes \<Rightarrow> ((string + IpcRequest) \<times> bytes) option" where
  [simp]: "read_request j = read_json_line (sd_de (ij_request j))"

definition read_ipc_message :: "IpcJson \<Rightarrow> bool \<Rightarrow> bytes \<Rightarrow> ((string + IpcMessage) \<times> bytes) option" where
  [simp]: "read_ipc_message j = read_json_line (message_de j)"

section \<open>The connection loop of the daemon\<close>

text \<open>How the task of a connection stands after the bytes it was given.\<close>

datatype conn_end =
    Awaiting bytes
  | ReadFailed string
  | WriteFailed string
  | Exited

lemma read_json_line_shorter:
  assumes "read_json_line de ended input = Some (Inr v, rest)"
  shows "length rest < length input"
proof -
  obtain line where line: "take_line ended input = Some (line, rest)" "parse_line de line = Ok v"
    using assms by (auto simp: read_json_line_def)
  then have "line \<noteq> []" by (auto simp: parse_line_def)
  with take_line_split [OF line(1)] show ?thesis by simp
qed

text \<open>
  The loop: what it writes, what the requests do to the daemon, and its end. The \<open>n\<close>-th request
  meets the world \<open>w n\<close>, the write of its answer the outcome \<open>io n\<close>.
\<close>

function serve ::
  "IpcJson \<Rightarrow> (nat \<Rightarrow> RequestWorld) \<Rightarrow> (nat \<Rightarrow> io) \<Rightarrow> bool \<Rightarrow> nat \<Rightarrow> DaemonState \<Rightarrow> bytes \<Rightarrow>
   bytes \<times> DaemonState \<times> daemon_effect list \<times> conn_end" where
  "serve j w io ended n s input =
     (case read_request j ended input of
        None \<Rightarrow> ([], s, [], Awaiting input)
      | Some (Inl e, rest) \<Rightarrow> ([], s, [], ReadFailed e)
      | Some (Inr req, rest) \<Rightarrow>
          (case handle_request (w n) req s of
             (None, s1, effs) \<Rightarrow> ([], s1, effs, Exited)
           | (Some resp, s1, effs) \<Rightarrow>
               (case write_response j (io n) resp of
                  (Inl e, out) \<Rightarrow> (out, s1, effs, WriteFailed e)
                | (Inr _, out) \<Rightarrow>
                    (case serve j w io ended (Suc n) s1 rest of
                       (out', s2, effs', e) \<Rightarrow> (out @ out', s2, effs @ effs', e)))))"
  by pat_completeness auto
termination
  by (relation "measure (\<lambda>(j, w, io, ended, n, s, input). length input)")
    (auto dest: read_json_line_shorter)

declare serve.simps [simp del]

text \<open>The stream of the client has ended when the task of the daemon has.\<close>

fun hung_up :: "conn_end \<Rightarrow> bool" where
  "hung_up (Awaiting rest) \<longleftrightarrow> False"
| "hung_up _ \<longleftrightarrow> True"

section \<open>The client\<close>

text \<open>
  A request of the client: \<open>peer\<close> is what the other side does with the bytes it receives - the
  bytes that come back, and whether the stream has ended behind them. \<open>None\<close> is a client that
  waits; otherwise the result is there and the rest of the inbound bytes.
\<close>

definition client_request ::
  "IpcJson \<Rightarrow> io \<Rightarrow> (bytes \<Rightarrow> bytes \<times> bool) \<Rightarrow> IpcRequest \<Rightarrow> ((string + IpcResponse) \<times> bytes \<times> bool) option" where
  "client_request j io peer req =
     (case write_request j io req of
        (Inl e, out) \<Rightarrow> Some (Err e, peer out)
      | (Inr _, out) \<Rightarrow>
          (case peer out of (inbound, ended) \<Rightarrow>
             (case read_ipc_message j ended inbound of
                None \<Rightarrow> None
              | Some (Inl e, rest) \<Rightarrow> Some (Err e, rest, ended)
              | Some (Inr (ResponseMessage r), rest) \<Rightarrow> Some (Ok r, rest, ended)
              | Some (Inr (EventMessage e), rest) \<Rightarrow>
                  Some (Err ''unexpected event before response'', rest, ended))))"

definition next_message ::
  "IpcJson \<Rightarrow> bytes \<times> bool \<Rightarrow> ((string + IpcMessage) \<times> bytes) option" where
  "next_message j st = read_ipc_message j (snd st) (fst st)"

text \<open>The daemon as the other side of a fresh connection.\<close>

definition daemon_peer ::
  "IpcJson \<Rightarrow> (nat \<Rightarrow> RequestWorld) \<Rightarrow> (nat \<Rightarrow> io) \<Rightarrow> DaemonState \<Rightarrow> bytes \<Rightarrow> bytes \<times> bool" where
  "daemon_peer j w io s out =
     (case serve j w io False 0 s out of (back, s', effs, e) \<Rightarrow> (back, hung_up e))"

definition daemon_after ::
  "IpcJson \<Rightarrow> (nat \<Rightarrow> RequestWorld) \<Rightarrow> (nat \<Rightarrow> io) \<Rightarrow> DaemonState \<Rightarrow> bytes \<Rightarrow> DaemonState \<times> daemon_effect list" where
  "daemon_after j w io s out =
     (case serve j w io False 0 s out of (back, s', effs, e) \<Rightarrow> (s', effs))"

section \<open>The line channel\<close>

text \<open>
  A value whose text is what serde\_json writes for it in its compact form: one line, in UTF-8, with
  no white space at its end, from which the value is read back.
\<close>

definition line_ok :: "('a \<Rightarrow> string + bytes) \<Rightarrow> (bytes \<Rightarrow> string + 'a) \<Rightarrow> 'a \<Rightarrow> bool" where
  "line_ok ser de v \<longleftrightarrow>
     (case ser v of
        Inl e \<Rightarrow> False
      | Inr l \<Rightarrow> 10 \<notin> set l \<and> utf8_valid l \<and> space_at_end l = None \<and> de l = Ok v)"

lemma line_okE:
  assumes "line_ok ser de v"
  obtains l where "ser v = Ok l" "10 \<notin> set l" "utf8_valid l" "space_at_end l = None" "de l = Ok v"
  using assms by (cases "ser v") (simp_all add: line_ok_def)

lemma read_line_written:
  assumes "line_ok ser de v" and "write_json_line ser None v = (r, bs)"
  shows "r = Ok ()" and "read_json_line de ended (bs @ rest) = Some (Ok v, rest)"
proof -
  obtain l where l: "ser v = Ok l" "10 \<notin> set l" "utf8_valid l" "space_at_end l = None" "de l = Ok v"
    by (rule line_okE [OF assms(1)])
  then have "r = Ok ()" "bs = l @ [10]" using assms(2) by (auto simp: write_json_line_def)
  moreover have "parse_line de (l @ [10]) = Ok v"
    using l by (simp add: parse_line_def utf8_valid_append trim_end_newline trim_end_same)
  ultimately show "r = Ok ()" and "read_json_line de ended (bs @ rest) = Some (Ok v, rest)"
    using take_line_line [OF l(2)] by (simp_all add: read_json_line_def)
qed

definition line_of :: "('a \<Rightarrow> string + bytes) \<Rightarrow> 'a \<Rightarrow> string + bytes" where
  "line_of ser v = (case write_json_line ser None v of (r, bs) \<Rightarrow> map_sum id (\<lambda>_. bs) r)"

interpretation ipc_lines: record_channel "line_of ser" "read_json_line de ended" "line_ok ser de"
  for ser de ended
proof
  show "\<exists>bs. line_of ser v = Ok bs" if "line_ok ser de v" for v
    using that by (auto elim!: line_okE simp: line_of_def write_json_line_def)
  show "read_json_line de ended (bs @ rest) = Some (Ok v, rest)"
    if "line_ok ser de v" "line_of ser v = Ok bs" for v bs rest
  proof -
    obtain r bs' where w: "write_json_line ser None v = (r, bs')" by force
    with read_line_written(1) [OF that(1) w] that(2) have "bs' = bs" by (simp add: line_of_def)
    with read_line_written(2) [OF that(1) w] show ?thesis by simp
  qed
qed

end
