(* ===== verification/IpcConversation.thy ===== *)
theory IpcConversation
  imports IpcTransport
begin

text \<open>
  Conversations over the local socket: the daemon's connection loop with requests one behind the
  other, the client's single request, and what a malformed line or a shutdown does to it.
\<close>

section \<open>Requests in sequence\<close>

text \<open>The specification of a connection: each request is handled in the state its predecessors left.\<close>

fun answer_all ::
  "(nat \<Rightarrow> RequestWorld) \<Rightarrow> nat \<Rightarrow> DaemonState \<Rightarrow> IpcRequest list \<Rightarrow>
   IpcResponse list \<times> DaemonState \<times> daemon_effect list" where
  "answer_all w n s [] = ([], s, [])"
| "answer_all w n s (req # reqs) =
     (case handle_request (w n) req s of
        (None, s1, effs) \<Rightarrow> ([], s1, effs)
      | (Some resp, s1, effs) \<Rightarrow>
          (case answer_all w (Suc n) s1 reqs of
             (resps, s2, effs') \<Rightarrow> (resp # resps, s2, effs @ effs')))"

definition response_ok :: "IpcJson \<Rightarrow> IpcResponse \<Rightarrow> bool" where
  "response_ok j = line_ok (sd_ser (ij_response j)) (sd_de (ij_response j))"

definition request_ok :: "IpcJson \<Rightarrow> IpcRequest \<Rightarrow> bool" where
  "request_ok j = line_ok (sd_ser (ij_request j)) (sd_de (ij_request j))"

definition request_lines :: "IpcJson \<Rightarrow> IpcRequest list \<Rightarrow> bytes list \<Rightarrow> bool" where
  "request_lines j = list_all2 (\<lambda>req bs. request_ok j req \<and> line_of (sd_ser (ij_request j)) req = Ok bs)"

definition response_lines :: "IpcJson \<Rightarrow> IpcResponse list \<Rightarrow> bytes list \<Rightarrow> bool" where
  "response_lines j = list_all2 (\<lambda>r bs. response_ok j r \<and> line_of (sd_ser (ij_response j)) r = Ok bs)"

text \<open>A response as the client's message.\<close>

lemma response_message_ok:
  "response_ok j r \<Longrightarrow> line_ok (message_ser j) (message_de j) (ResponseMessage r)"
  by (auto simp: response_ok_def line_ok_def message_de_def split: sum.splits)

lemma line_of_write: "line_of ser v = Ok bs \<longleftrightarrow> write_json_line ser None v = (Ok (), bs)"
  by (auto simp: line_of_def write_json_line_def split: sum.splits)

lemma response_line: "response_ok j r \<Longrightarrow> \<exists>bs. line_of (sd_ser (ij_response j)) r = Ok bs"
  unfolding response_ok_def by (rule ipc_lines.wr_sendable)

lemma response_read:
  assumes "response_ok j r" and "line_of (sd_ser (ij_response j)) r = Ok bs"
  shows "read_json_line (message_de j) ended (bs @ rest) = Some (Ok (ResponseMessage r), rest)"
proof -
  have "line_of (message_ser j) (ResponseMessage r) = Ok bs"
    using assms(2) by (simp add: line_of_def write_json_line_def)
  with response_message_ok [OF assms(1)] show ?thesis by (rule ipc_lines.rd_wr)
qed

lemma read_json_line_part: "10 \<notin> set part \<Longrightarrow> read_json_line de False part = None"
  by (simp add: read_json_line_def take_line_open)

lemma serve_awaiting: "10 \<notin> set part \<Longrightarrow> serve j w io False n s part = ([], s, [], Awaiting part)"
  by (subst serve.simps) (simp add: read_json_line_part)

text \<open>One turn of the loop over a request that is answered, and one over a shutdown.\<close>

lemma serve_request:
  assumes "request_ok j req" and "line_of (sd_ser (ij_request j)) req = Ok bs" and "io n = None"
    and "handle_request (w n) req s = (Some resp, s1, effs)"
    and "line_of (sd_ser (ij_response j)) resp = Ok out"
    and "serve j w io ended (Suc n) s1 rest = (out', s2, effs', e)"
  shows "serve j w io ended n s (bs @ rest) = (out @ out', s2, effs @ effs', e)"
  using assms ipc_lines.rd_wr [OF assms(1) [unfolded request_ok_def] assms(2), of ended rest]
  by (subst serve.simps) (simp add: line_of_write)

lemma serve_exit:
  assumes "request_ok j req" and "line_of (sd_ser (ij_request j)) req = Ok bs"
    and "handle_request (w n) req s = (None, s1, effs)"
  shows "serve j w io ended n s (bs @ rest) = ([], s1, effs, Exited)"
  using assms(3) ipc_lines.rd_wr [OF assms(1) [unfolded request_ok_def] assms(2), of ended rest]
  by (subst serve.simps) simp

lemma handle_request_answers: "req \<noteq> Shutdown \<Longrightarrow> \<exists>resp s1 effs. handle_request w req s = (Some resp, s1, effs)"
  by (cases req) (auto split: prod.splits)

lemma serve_sequence:
  assumes "request_lines j reqs bss" and "Shutdown \<notin> set reqs"
    and "answer_all w n s reqs = (resps, s', effs)" and "list_all (response_ok j) resps"
    and "\<And>k. io k = None"
  obtains outs where "response_lines j resps outs" and "length resps = length reqs"
    and "\<And>tail out' s2 effs' e. serve j w io ended (n + length reqs) s' tail = (out', s2, effs', e) \<Longrightarrow>
      serve j w io ended n s (concat bss @ tail) = (concat outs @ out', s2, effs @ effs', e)"
proof -
  have "\<exists>outs. response_lines j resps outs \<and> length resps = length reqs \<and>
      (\<forall>tail out' s2 effs' e. serve j w io ended (n + length reqs) s' tail = (out', s2, effs', e) \<longrightarrow>
        serve j w io ended n s (concat bss @ tail) = (concat outs @ out', s2, effs @ effs', e))"
    using assms(1-4) unfolding request_lines_def
  proof (induction reqs bss arbitrary: n s resps effs rule: list_all2_induct)
    case Nil
    then show ?case by (auto simp: response_lines_def)
  next
    case (Cons req reqs bs bss)
    obtain resp s1 effs1 where h: "handle_request (w n) req s = (Some resp, s1, effs1)"
      using handle_request_answers [of req] Cons.prems(1) by fastforce
    then obtain resps2 effs2 where rest: "answer_all w (Suc n) s1 reqs = (resps2, s', effs2)"
      "resps = resp # resps2" "effs = effs1 @ effs2"
      using Cons.prems(2) by (auto split: prod.splits)
    obtain outs where outs: "response_lines j resps2 outs" "length resps2 = length reqs"
      "\<And>tail out' s2 effs' e. serve j w io ended (Suc n + length reqs) s' tail = (out', s2, effs', e) \<Longrightarrow>
        serve j w io ended (Suc n) s1 (concat bss @ tail) = (concat outs @ out', s2, effs2 @ effs', e)"
      using Cons.IH [OF _ rest(1)] Cons.prems(1,3) rest(2) by auto
    have "response_ok j resp" using Cons.prems(3) rest(2) by simp
    then obtain out where out: "line_of (sd_ser (ij_response j)) resp = Ok out" using response_line by blast
    have "serve j w io ended n s (bs @ (concat bss @ tail)) =
        (out @ (concat outs @ out'), s2, effs1 @ (effs2 @ effs'), e)"
      if "serve j w io ended (Suc n + length reqs) s' tail = (out', s2, effs', e)" for tail out' s2 effs' e
      by (rule serve_request [where io = io, OF _ _ assms(5) h out outs(3) [OF that]]) (use Cons.hyps in simp_all)
    with out outs(1,2) rest(2,3) \<open>response_ok j resp\<close> show ?case
      by (intro exI [of _ "out # outs"]) (simp add: response_lines_def)
  qed
  then show thesis using that by blast
qed

lemma responses_read:
  assumes "response_lines j resps outs"
  shows "read_records (length resps) (read_json_line (message_de j) ended) (concat outs @ rest) =
    (map (\<lambda>r. Ok (ResponseMessage r)) resps, rest)"
proof -
  have "list_all2 (\<lambda>m bs. line_ok (message_ser j) (message_de j) m \<and> line_of (message_ser j) m = Ok bs)
      (map ResponseMessage resps) outs"
    using assms unfolding response_lines_def list_all2_map1
    by (rule list_all2_mono)
      (auto simp: response_message_ok line_of_def write_json_line_def split: sum.splits)
  from ipc_lines.read_written [OF this, of ended rest] show ?thesis by (simp add: o_def)
qed

text \<open>One request of a client on a fresh connection.\<close>

lemma request_answered:
  assumes "request_ok j req" and "handle_request (w 0) req s = (Some resp, s', effs)" and "response_ok j resp"
  shows "client_request j None (daemon_peer j w (\<lambda>_. None) s) req = Some (Ok resp, [], False)"
    and "line_of (sd_ser (ij_request j)) req = Ok bs \<Longrightarrow>
      daemon_after j w (\<lambda>_. None) s bs = (s', effs)"
proof -
  obtain bs' where bs': "line_of (sd_ser (ij_request j)) req = Ok bs'"
    using ipc_lines.wr_sendable [OF assms(1) [unfolded request_ok_def]] by blast
  obtain out where out: "line_of (sd_ser (ij_response j)) resp = Ok out"
    using response_line [OF assms(3)] by blast
  have "serve j w (\<lambda>_. None) False 0 s (bs' @ []) = (out @ [], s', effs @ [], Awaiting [])"
    by (rule serve_request [where io = "\<lambda>_. None" and n = 0 and w = w, OF assms(1) bs' refl assms(2) out]) (simp_all add: serve_awaiting)
  then show "client_request j None (daemon_peer j w (\<lambda>_. None) s) req = Some (Ok resp, [], False)"
    and "line_of (sd_ser (ij_request j)) req = Ok bs \<Longrightarrow>
      daemon_after j w (\<lambda>_. None) s bs = (s', effs)"
    using bs' response_read [OF assms(3) out, of False "[]"]
    by (simp_all add: client_request_def daemon_peer_def daemon_after_def line_of_write)
qed

section \<open>A sample encoding\<close>

text \<open>
  A serde over a table: the i-th value is the i-fold letter a between braces. It serves to show that
  the hypotheses on the JSON writer can be met.
\<close>

definition table_text :: "'a list \<Rightarrow> 'a \<Rightarrow> bytes" where
  "table_text vs v = 123 # replicate (length (takeWhile (\<lambda>u. u \<noteq> v) vs)) 97 @ [125]"

definition table_serde :: "'a list \<Rightarrow> 'a serde" where
  "table_serde vs =
     \<lparr>sd_ser = (\<lambda>v. Ok (table_text vs v)),
      sd_de = (\<lambda>t. ok_or ''expected value'' (find (\<lambda>v. table_text vs v = t) vs))\<rparr>"

lemma table_text_inj:
  assumes "table_text vs u = table_text vs v" and "u \<in> set vs" and "v \<in> set vs"
  shows "u = v"
proof -
  have "length (takeWhile (\<lambda>x. x \<noteq> u) vs) = length (takeWhile (\<lambda>x. x \<noteq> v) vs)"
    using assms(1) by (simp add: table_text_def)
  moreover have "vs ! length (takeWhile (\<lambda>x. x \<noteq> w) vs) = w" if "w \<in> set vs" for w
    using that by (induction vs) auto
  ultimately show ?thesis using assms(2,3) by metis
qed

lemma utf8_valid_replicate: "utf8_valid (replicate n 97 @ bs) \<longleftrightarrow> utf8_valid bs"
  by (induction n) simp_all

lemma table_serde_ok:
  assumes "v \<in> set vs"
  shows "line_ok (sd_ser (table_serde vs)) (sd_de (table_serde vs)) v"
proof -
  have "find (\<lambda>u. table_text vs u = table_text vs v) vs = Some v"
  proof (cases "find (\<lambda>u. table_text vs u = table_text vs v) vs")
    case None
    with assms show ?thesis by (auto simp: find_None_iff)
  next
    case (Some u)
    then have "table_text vs u = table_text vs v" "u \<in> set vs"
      by (auto simp: find_Some_iff)
    with Some assms show ?thesis by (auto dest: table_text_inj)
  qed
  moreover have "space_at_end (table_text vs v) = None"
    by (simp add: space_at_end_def white_space_def table_text_def suffix_def append_eq_append_conv2)
  ultimately show ?thesis
    by (simp add: line_ok_def table_serde_def) (simp add: table_text_def utf8_valid_replicate)
qed

definition sample_json :: "IpcRequest list \<Rightarrow> IpcResponse list \<Rightarrow> IpcJson" where
  "sample_json reqs resps =
     \<lparr>ij_request = table_serde reqs, ij_response = table_serde resps, ij_event = table_serde []\<rparr>"

lemma sample_json_ok [simp]:
  "req \<in> set reqs \<Longrightarrow> request_ok (sample_json reqs resps) req"
  "resp \<in> set resps \<Longrightarrow> response_ok (sample_json reqs resps) resp"
  by (simp_all add: request_ok_def response_ok_def sample_json_def table_serde_ok)

lemma sample_line [simp]:
  "line_of (sd_ser (ij_request (sample_json reqs resps))) req = Ok (table_text reqs req @ [10])"
  by (simp add: line_of_def write_json_line_def sample_json_def table_serde_def)

lemma sample_lines:
  "set rs \<subseteq> set reqs \<Longrightarrow>
   request_lines (sample_json reqs resps) rs (map (\<lambda>r. table_text reqs r @ [10]) rs)"
  unfolding request_lines_def list_all2_map2 by (rule list.rel_refl_strong) auto

section \<open>Properties\<close>

text \<open>
  C18: The daemon and a client stay in step: to any sequence of requests other than a shutdown it
  answers with exactly one line each, in order, that of the request handled in the state the earlier
  ones left, and the client reads back just these responses; an incomplete line at the end waits and
  has no effect.
\<close>

theorem conversation_in_step:
  assumes "request_lines j reqs bss" and "Shutdown \<notin> set reqs" and "10 \<notin> set part"
    and "answer_all w 0 s reqs = (resps, s', effs)" and "list_all (response_ok j) resps"
  shows "\<exists>out. serve j w (\<lambda>_. None) False 0 s (concat bss @ part) = (out, s', effs, Awaiting part) \<and>
    length resps = length reqs \<and>
    read_records (length reqs) (read_json_line (message_de j) False) out =
      (map (\<lambda>r. Ok (ResponseMessage r)) resps, [])"
proof -
  obtain outs where outs: "response_lines j resps outs" "length resps = length reqs"
    "\<And>tail out' s2 effs' e. serve j w (\<lambda>_. None) False (0 + length reqs) s' tail = (out', s2, effs', e) \<Longrightarrow>
      serve j w (\<lambda>_. None) False 0 s (concat bss @ tail) = (concat outs @ out', s2, effs @ effs', e)"
    by (rule serve_sequence [OF assms(1,2,4,5)]) auto
  show ?thesis
    using outs(3) [OF serve_awaiting [OF assms(3)]] responses_read [OF outs(1), of False "[]"] outs(2) by simp
qed

theorem conversation_in_step_witness:
  "let reqs = [StartServer, GetLogs 3, StopServer];
       j = sample_json reqs [OkReply, Logs []];
       input = concat (map (\<lambda>r. table_text reqs r @ [10]) reqs) @ [123]
   in \<exists>out effs. serve j (\<lambda>_. quiet_world) (\<lambda>_. None) False 0 idle_server input = (out, idle_server, effs, Awaiting [123]) \<and>
        effs = [SpawnServerSession 0, CloseEndpoint 0, AbortTasks 0]"
proof -
  let ?reqs = "[StartServer, GetLogs 3, StopServer]"
  let ?j = "sample_json ?reqs [OkReply, Logs []]"
  let ?bss = "map (\<lambda>r. table_text ?reqs r @ [10]) ?reqs"
  let ?s1 = "start_commit 0 (Some ''0.0.0.0:24800'') idle_server"
  have stopped: "stop_clear ?s1 = (Some 0, idle_server)"
    by (simp add: stop_clear_def start_commit_def idle_server_fields DaemonState.equality)
  have lines: "request_lines ?j ?reqs ?bss"
    by (rule sample_lines) simp
  have all: "answer_all (\<lambda>_. quiet_world) 0 idle_server ?reqs =
      ([OkReply, Logs [], OkReply], idle_server, [SpawnServerSession 0, CloseEndpoint 0, AbortTasks 0])"
    by (simp add: start_server_def start_check_def idle_server_fields quiet_world_def reply_of_def
        stop_server_def stopped)
  from conversation_in_step [OF lines _ _ all, of "[123]"]
  show ?thesis by (auto simp: Let_def)
qed

text \<open>
  A line that is not a request ends the connection: whatever comes before it is answered as
  usual, but it is itself not answered, nothing behind it is read, and the daemon is as the requests
  before it left it.
\<close>

theorem bad_line_ends_connection:
  assumes "request_lines j reqs bss" and "Shutdown \<notin> set reqs"
    and "answer_all w 0 s reqs = (resps, s', effs)" and "list_all (response_ok j) resps"
    and "10 \<notin> set l" and "parse_line (sd_de (ij_request j)) (l @ [10]) = Err e"
  shows "\<exists>outs. serve j w (\<lambda>_. None) ended 0 s (concat bss @ l @ 10 # rest) = (concat outs, s', effs, ReadFailed e) \<and>
    response_lines j resps outs"
proof -
  obtain outs where outs: "response_lines j resps outs"
    "\<And>tail out' s2 effs' e. serve j w (\<lambda>_. None) ended (0 + length reqs) s' tail = (out', s2, effs', e) \<Longrightarrow>
      serve j w (\<lambda>_. None) ended 0 s (concat bss @ tail) = (concat outs @ out', s2, effs @ effs', e)"
    by (rule serve_sequence [OF assms(1-4)]) auto
  have "serve j w (\<lambda>_. None) ended (0 + length reqs) s' (l @ 10 # rest) = ([], s', [], ReadFailed e)"
    using take_line_line [OF assms(5)] assms(6) by (subst serve.simps) (simp add: read_json_line_def)
  from outs(2) [OF this] outs(1) show ?thesis by auto
qed

theorem bad_line_ends_connection_witness:
  "let j = sample_json [EmergencyStop] [OkReply];
       line = table_text [EmergencyStop] EmergencyStop
   in \<exists>outs e. serve j (\<lambda>_. quiet_world) (\<lambda>_. None) False 0 idle_server
        ((line @ [10]) @ [120] @ 10 # line @ [10]) = (concat outs, idle_server, [], ReadFailed e) \<and> length outs = 1"
proof -
  let ?j = "sample_json [EmergencyStop] [OkReply]"
  let ?line = "table_text [EmergencyStop] EmergencyStop"
  have lines: "request_lines ?j [EmergencyStop] [?line @ [10]]"
    using sample_lines [of "[EmergencyStop]" "[EmergencyStop]" "[OkReply]"] by simp
  have same: "idle_server\<lparr>ds_capturing := False\<rparr> = idle_server"
    by (simp add: idle_server_fields DaemonState.equality)
  have bad: "parse_line (sd_de (ij_request ?j)) ([120] @ [10]) =
      Err (''parse ipc message: expected value: '' @ bytes_string [120])"
  proof -
    have "trim_end [120, 10] = [120]"
      using trim_end_newline [of "[120]"] trim_end_same [of "[120]"]
      by (simp add: space_at_end_def white_space_def suffix_def)
    then show ?thesis
      by (simp add: parse_line_def Let_def sample_json_def table_serde_def table_text_def)
  qed
  have all: "answer_all (\<lambda>_. quiet_world) 0 idle_server [EmergencyStop] = ([OkReply], idle_server, [])"
    by (simp add: same)
  obtain outs where "serve ?j (\<lambda>_. quiet_world) (\<lambda>_. None) False 0 idle_server
      (concat [?line @ [10]] @ [120] @ 10 # ?line @ [10]) =
      (concat outs, idle_server, [], ReadFailed (''parse ipc message: expected value: '' @ bytes_string [120]))"
    "response_lines ?j [OkReply] outs"
    using bad_line_ends_connection [OF lines _ all _ _ bad, of False "?line @ [10]"] by auto
  moreover from this(2) have "length outs = 1"
    by (simp add: response_lines_def list_all2_lengthD [symmetric])
  ultimately show ?thesis by (fastforce simp: Let_def)
qed

text \<open>
  A shutdown is never answered: the daemon exits while it handles the request, and the client
  that asked for it is told that the peer disconnected.
\<close>

theorem shutdown_unanswered:
  assumes "request_ok j Shutdown" and "line_of (sd_ser (ij_request j)) Shutdown = Ok bs"
  shows "client_request j None (daemon_peer j w io s) Shutdown = Some (Err ''ipc peer disconnected'', [], True) \<and>
    daemon_after j w io s bs = (s, [ExitProcess])"
proof -
  have "serve j w io False 0 s (bs @ []) = ([], s, [ExitProcess], Exited)"
    by (rule serve_exit [OF assms]) simp
  then show ?thesis
    using assms(2)
    by (simp add: client_request_def daemon_peer_def daemon_after_def line_of_write read_json_line_def
        parse_line_def)
qed

theorem shutdown_unanswered_witness:
  "let j = sample_json [Shutdown] []
   in client_request j None (daemon_peer j (\<lambda>_. quiet_world) (\<lambda>_. None) idle_server) Shutdown =
        Some (Err ''ipc peer disconnected'', [], True)"
proof -
  let ?j = "sample_json [Shutdown] []"
  have "line_of (sd_ser (ij_request ?j)) Shutdown = Ok (table_text [Shutdown] Shutdown @ [10])" by simp
  with shutdown_unanswered [of ?j, OF _ this, of "\<lambda>_. quiet_world" "\<lambda>_. None" idle_server]
  show ?thesis by (simp add: Let_def)
qed

end
