(* ===== verification/CommandLine.thy ===== *)
theory CommandLine
  imports IpcConversation
begin

text \<open>
  The two command line programs: the front end that talks to a running daemon
  (\<open>crates/cli/src/main.rs\<close>) and the dispatch of the daemon's own commands
  (\<open>crates/daemon/src/main.rs\<close>, with the notices of \<open>crates/daemon/src/app.rs\<close>). Parsing the
  arguments is the work of clap, printing that of serde and toml: parameters.
\<close>

section \<open>The front end\<close>

datatype CliCommand =
    CmdStatus
  | CmdConfig
  | CmdFingerprint
  | CmdWatch
  | CmdEmergency
  | CmdShutdown
  | CmdConnect string
  | CmdDisconnect string

fun command_request :: "CliCommand \<Rightarrow> IpcRequest" where
  "command_request CmdStatus = GetStatus"
| "command_request CmdConfig = GetConfig"
| "command_request CmdFingerprint = GetStatus"
| "command_request CmdWatch = SubscribeEvents"
| "command_request CmdEmergency = EmergencyStop"
| "command_request CmdShutdown = Shutdown"
| "command_request (CmdConnect addr) = Connect addr None"
| "command_request (CmdDisconnect peer) = Disconnect peer"

record CliWorld =
  cw_default :: string
  cw_connect :: "string \<Rightarrow> string + (bytes \<Rightarrow> bytes \<times> bool)"
  cw_io :: io
  cw_json :: IpcJson
  cw_pretty :: "IpcResponse \<Rightarrow> string + string"
  cw_debug :: "IpcResponse \<Rightarrow> string"
  cw_toml :: "Config \<Rightarrow> string + string"

text \<open>The lines printed, and the result of the program - or it is still waiting.\<close>

datatype cli_result = CliEnds "string list" "string + unit" | CliWaits "string list"

fun cli_print :: "string \<Rightarrow> cli_result \<Rightarrow> cli_result" where
  "cli_print l (CliEnds ls r) = CliEnds (l # ls) r"
| "cli_print l (CliWaits ls) = CliWaits (l # ls)"

definition print_response :: "CliWorld \<Rightarrow> IpcResponse \<Rightarrow> string" where
  "print_response w r = (case cw_pretty w r of Inr s \<Rightarrow> s | Inl _ \<Rightarrow> cw_debug w r)"

text \<open>The loop of \<open>watch\<close>: only an error ends it.\<close>

function watch_loop :: "IpcJson \<Rightarrow> bool \<Rightarrow> bytes \<Rightarrow> cli_result" where
  "watch_loop j ended inbound =
     (case next_message j (inbound, ended) of
        None \<Rightarrow> CliWaits []
      | Some (Inl e, rest) \<Rightarrow> CliEnds [] (Err e)
      | Some (Inr m, rest) \<Rightarrow>
          (case message_ser j m of
             Inl e \<Rightarrow> CliEnds [] (Err e)
           | Inr t \<Rightarrow> cli_print (bytes_string t) (watch_loop j ended rest)))"
  by pat_completeness auto
termination
  by (relation "measure (\<lambda>(j, ended, inbound). length inbound)")
    (auto simp: next_message_def dest: read_json_line_shorter)

declare watch_loop.simps [simp del]

fun report :: "CliWorld \<Rightarrow> CliCommand \<Rightarrow> IpcResponse \<Rightarrow> cli_result" where
  "report w CmdConfig (ConfigReply c) =
     (case cw_toml w c of Inl e \<Rightarrow> CliEnds [] (Err e) | Inr t \<Rightarrow> CliEnds [t] (Ok ()))"
| "report w CmdFingerprint (Status s) = CliEnds [sr_local_fingerprint s] (Ok ())"
| "report w cmd resp = CliEnds [print_response w resp] (Ok ())"

definition cli_main :: "CliWorld \<Rightarrow> string option \<Rightarrow> CliCommand \<Rightarrow> cli_result" where
  "cli_main w socket cmd =
     (let path = (case socket of Some p \<Rightarrow> p | None \<Rightarrow> cw_default w) in
      case cw_connect w path of
        Inl e \<Rightarrow> CliEnds [] (Err (''connect to daemon at '' @ path @ '': '' @ e))
      | Inr peer \<Rightarrow>
          (case client_request (cw_json w) (cw_io w) peer (command_request cmd) of
             None \<Rightarrow> CliWaits []
           | Some (Inl e, st) \<Rightarrow> CliEnds [] (Err e)
           | Some (Inr resp, rest, ended) \<Rightarrow>
               (if cmd = CmdWatch then watch_loop (cw_json w) ended rest else report w cmd resp)))"

section \<open>The daemon's commands\<close>

datatype DaemonCommand =
    CmdRun "string option" "string option" "string option" "string list" bool
  | CmdInitConfig bool
  | CmdPrintFingerprint
  | CmdInstallService
  | CmdUninstallService

datatype daemon_action =
    AppRun RunArgs
  | AppInitConfig "string option" bool
  | AppPrintFingerprint "string option"
  | AppPrint string

definition install_notice :: string where
  "install_notice = ''service installation is a packaging-time step; see packaging/ in the repo.''"

definition uninstall_notice :: string where
  "uninstall_notice = ''service removal is a packaging-time step; see packaging/ in the repo.''"

fun daemon_main :: "string option \<Rightarrow> DaemonCommand \<Rightarrow> daemon_action" where
  "daemon_main config (CmdRun role listen connect pin no_ipc) =
     AppRun \<lparr>ra_config_path = config, ra_role_override = role, ra_listen_override = listen,
             ra_connect_override = connect, ra_pinned_fingerprints = pin, ra_ipc_enabled = (\<not> no_ipc)\<rparr>"
| "daemon_main config (CmdInitConfig force) = AppInitConfig config force"
| "daemon_main config CmdPrintFingerprint = AppPrintFingerprint config"
| "daemon_main config CmdInstallService = AppPrint install_notice"
| "daemon_main config CmdUninstallService = AppPrint uninstall_notice"

text \<open>
  The daemon's entry: the filter of its log, from the environment if it is set there and can be read, and
  its command on a runtime, if one can be built.
\<close>

definition log_filter :: "string + string \<Rightarrow> string" where
  "log_filter from_env = (case from_env of Inr f \<Rightarrow> f | Inl _ \<Rightarrow> ''info,inputsync_daemon=debug'')"

definition daemon_entry :: "string + unit \<Rightarrow> string option \<Rightarrow> DaemonCommand \<Rightarrow> string + daemon_action" where
  "daemon_entry build_runtime config cmd =
     (case build_runtime of
        Inl e \<Rightarrow> Err (''build tokio runtime: '' @ e)
      | Inr _ \<Rightarrow> Ok (daemon_main config cmd))"

section \<open>Facts\<close>

text \<open>The front end connected to a daemon in the state \<open>s\<close>.\<close>

definition connected_to ::
  "CliWorld \<Rightarrow> string option \<Rightarrow> (nat \<Rightarrow> RequestWorld) \<Rightarrow> DaemonState \<Rightarrow> bool" where
  "connected_to w socket rw s \<longleftrightarrow>
     cw_io w = None \<and>
     cw_connect w (case socket of Some p \<Rightarrow> p | None \<Rightarrow> cw_default w) =
       Ok (daemon_peer (cw_json w) rw (\<lambda>_. None) s)"

lemma cli_answered:
  assumes "connected_to w socket rw s" and "request_ok (cw_json w) (command_request cmd)"
    and "handle_request (rw 0) (command_request cmd) s = (Some resp, s', effs)"
    and "response_ok (cw_json w) resp" and "cmd \<noteq> CmdWatch"
  shows "cli_main w socket cmd = report w cmd resp"
  using request_answered(1) [where w = rw, OF assms(2-4)] assms(1,5)
  by (simp add: cli_main_def connected_to_def)

section \<open>Properties\<close>

definition sample_cli :: "IpcRequest list \<Rightarrow> IpcResponse list \<Rightarrow> DaemonState \<Rightarrow> CliWorld" where
  "sample_cli reqs resps s =
     (let j = sample_json reqs resps in
      \<lparr>cw_default = ''/tmp/inputsync.sock'', cw_connect = (\<lambda>_. Ok (daemon_peer j (\<lambda>_. quiet_world) (\<lambda>_. None) s)),
       cw_io = None, cw_json = j, cw_pretty = (\<lambda>_. Ok ''{}''), cw_debug = (\<lambda>_. []), cw_toml = (\<lambda>_. Ok [])\<rparr>)"

lemma sample_cli_simps [simp]:
  "connected_to (sample_cli reqs resps s) socket (\<lambda>_. quiet_world) s"
  "cw_json (sample_cli reqs resps s) = sample_json reqs resps"
  by (simp_all add: connected_to_def sample_cli_def Let_def)

text \<open>
  The emergency command does not stop anything: it succeeds and prints the daemon's Ok, and the
  status says from then on that nothing is captured; but the request reaches neither the session nor
  the endpoint, so a running server goes on listening with its session and its peers.
\<close>

theorem emergency_only_clears_flag:
  assumes "connected_to w socket rw s" and "request_ok (cw_json w) EmergencyStop"
    and "response_ok (cw_json w) OkReply" and "line_of (sd_ser (ij_request (cw_json w))) EmergencyStop = Ok bs"
  shows "cli_main w socket CmdEmergency = CliEnds [print_response w OkReply] (Ok ()) \<and>
    daemon_after (cw_json w) rw (\<lambda>_. None) s bs = (s\<lparr>ds_capturing := False\<rparr>, []) \<and>
    sr_listening (status_of v now (s\<lparr>ds_capturing := False\<rparr>)) = ds_listening s \<and>
    \<not> sr_capturing (status_of v now (s\<lparr>ds_capturing := False\<rparr>))"
  using cli_answered [OF assms(1), of CmdEmergency OkReply "s\<lparr>ds_capturing := False\<rparr>" "[]"]
    request_answered(2) [OF assms(2) _ assms(3) assms(4), of rw s "s\<lparr>ds_capturing := False\<rparr>" "[]"] assms(2,3)
  by (simp add: status_of_def)

theorem emergency_only_clears_flag_witness:
  "let s = start_commit 0 (Some ''0.0.0.0:24800'') idle_server;
       w = sample_cli [EmergencyStop] [OkReply] s
   in cli_main w None CmdEmergency = CliEnds [''{}''] (Ok ()) \<and>
      snd (daemon_after (cw_json w) (\<lambda>_. quiet_world) (\<lambda>_. None) s
        (table_text [EmergencyStop] EmergencyStop @ [10])) = []"
proof -
  let ?s = "start_commit 0 (Some ''0.0.0.0:24800'') idle_server"
  let ?w = "sample_cli [EmergencyStop] [OkReply] ?s"
  have "print_response ?w OkReply = ''{}''" by (simp add: print_response_def sample_cli_def Let_def)
  then show ?thesis
    using emergency_only_clears_flag [of ?w None "\<lambda>_. quiet_world" ?s
        "table_text [EmergencyStop] EmergencyStop @ [10]" "[]" 0]
    by (simp add: Let_def)
qed

text \<open>
  Watching shows nothing: the daemon answers the subscription with an error, which the front end
  ignores, and never sends an event; so the program prints no line and waits, as long as the daemon
  keeps the connection.
\<close>

theorem watch_waits_forever:
  assumes "connected_to w socket rw s" and "request_ok (cw_json w) SubscribeEvents"
    and "response_ok (cw_json w) (ErrorReply ''event streaming not yet implemented'')"
  shows "cli_main w socket CmdWatch = CliWaits []"
proof -
  have "next_message (cw_json w) ([], False) = None"
    by (simp add: next_message_def read_json_line_def)
  then have "watch_loop (cw_json w) False [] = CliWaits []" by (subst watch_loop.simps) simp
  with request_answered(1) [OF assms(2) _ assms(3), of rw s s "[]"] assms(1) show ?thesis
    by (simp add: cli_main_def connected_to_def)
qed

theorem watch_waits_forever_witness:
  "cli_main (sample_cli [SubscribeEvents] [ErrorReply ''event streaming not yet implemented''] idle_server)
     None CmdWatch = CliWaits []"
  by (rule watch_waits_forever [of _ _ "\<lambda>_. quiet_world" idle_server]) simp_all

text \<open>The shutdown command ends with an error although it worked.\<close>

theorem shutdown_command_fails:
  assumes "connected_to w socket rw s" and "request_ok (cw_json w) Shutdown"
  shows "cli_main w socket CmdShutdown = CliEnds [] (Err ''ipc peer disconnected'')"
proof -
  obtain bs where bs: "line_of (sd_ser (ij_request (cw_json w))) Shutdown = Ok bs"
    using ipc_lines.wr_sendable [OF assms(2) [unfolded request_ok_def]] by blast
  have "serve (cw_json w) rw (\<lambda>_. None) False 0 s (bs @ []) = ([], s, [ExitProcess], Exited)"
    by (rule serve_exit [OF assms(2) bs]) simp
  then have "client_request (cw_json w) None (daemon_peer (cw_json w) rw (\<lambda>_. None) s) Shutdown =
      Some (Err ''ipc peer disconnected'', [], True)"
    using bs by (simp add: client_request_def daemon_peer_def line_of_write read_json_line_def parse_line_def)
  with assms(1) show ?thesis by (simp add: cli_main_def connected_to_def)
qed

text \<open>The commands for peers, documented for the server, are refused by a server.\<close>

theorem peer_commands_refused_by_server:
  assumes "connected_to w socket rw s" and "\<not> ds_client_controller s"
    and "request_ok (cw_json w) (Disconnect peer)"
    and "response_ok (cw_json w) (ErrorReply ''not running as a client; nothing to disconnect'')"
  shows "cli_main w socket (CmdDisconnect peer) =
    CliEnds [print_response w (ErrorReply ''not running as a client; nothing to disconnect'')] (Ok ())"
  using cli_answered [OF assms(1), of "CmdDisconnect peer"] assms(2-4) by simp

end
