(* ===== verification/DaemonRun.thy ===== *)
theory DaemonRun
  imports CommandLine PeerConnection
begin

text \<open>
  The start of the daemon (\<open>run\<close>, \<open>cert_dir\<close>, \<open>print_fingerprint\<close> of \<open>crates/daemon/src/app.rs\<close>) with
  the session it creates (\<open>Session::new\<close>, \<open>spawn_client\<close>, \<open>default_drop_dir\<close> and the sink of
  \<open>crates/daemon/src/session.rs\<close>), the accept loops of the server and of the local socket, and name
  resolution. The directories of the operating system and the outcome of its calls are parameters; an
  error is its display with the contexts in front of it.
\<close>

section \<open>Directories\<close>

text \<open>The project directories: those of the configuration and of the data.\<close>

record ProjectDirs =
  pd_config_dir :: string
  pd_data_dir :: string

definition default_config_path :: "ProjectDirs option \<Rightarrow> Error + string" where
  "default_config_path dirs =
     (case dirs of
        None \<Rightarrow> Err (EConfig ''could not determine config directory'')
      | Some d \<Rightarrow> Ok (unix_join (pd_config_dir d) ''inputsync.toml''))"

definition exists_at_default_path :: "(string \<Rightarrow> bool) \<Rightarrow> ProjectDirs option \<Rightarrow> bool" where
  "exists_at_default_path exists_file dirs =
     (case default_config_path dirs of Inr p \<Rightarrow> exists_file p | Inl _ \<Rightarrow> False)"

definition cert_dir :: "ProjectDirs option \<Rightarrow> string + string" where
  "cert_dir dirs =
     (case dirs of
        None \<Rightarrow> Err ''could not locate project dirs''
      | Some d \<Rightarrow> Ok (unix_join (pd_data_dir d) ''certs''))"

definition default_drop_dir :: "string option \<Rightarrow> string" where
  "default_drop_dir download =
     (case download of Some d \<Rightarrow> unix_join d ''InputSync'' | None \<Rightarrow> ''./inputsync-drop'')"

definition context_err :: "string \<Rightarrow> string + 'a \<Rightarrow> string + 'a" where
  "context_err ctx r = map_err (\<lambda>e. ctx @ '': '' @ e) r"

lemma context_err_Ok [simp]: "context_err ctx r = Ok x \<longleftrightarrow> r = Ok x"
  by (simp add: context_err_def)

section \<open>The session\<close>

record Session =
  ss_role :: ServerRole
  ss_config :: Config
  ss_local_peer_id :: PeerId
  ss_drop_dir :: string

definition session_new :: "string option \<Rightarrow> ServerRole \<Rightarrow> Config \<Rightarrow> PeerId \<Rightarrow> Session" where
  "session_new download role c me =
     \<lparr>ss_role = role, ss_config = c, ss_local_peer_id = me,
      ss_drop_dir = (case ftc_drop_dir (cfg_file_transfer c) of
                       Some d \<Rightarrow> d | None \<Rightarrow> default_drop_dir download)\<rparr>"

definition spawn_client :: "Session \<Rightarrow> session_task list" where
  "spawn_client s =
     (if clc_enabled (cfg_clipboard (ss_config s)) then [ClipboardPollLoop] else []) @ [PeerEventTask]"

definition spawn_server_of :: "ScreenInfo option \<Rightarrow> Session \<Rightarrow> Server \<times> session_task list" where
  "spawn_server_of info s =
     spawn_server info (cfg_layout (ss_config s)) (clc_enabled (cfg_clipboard (ss_config s)))"

text \<open>The sink of the capture: an event that finds the channel full is dropped.\<close>

definition CAPTURE_CHANNEL :: nat where
  "CAPTURE_CHANNEL = 4096"

definition sink_send :: "InputEvent \<Rightarrow> InputEvent list \<Rightarrow> InputEvent list" where
  "sink_send ev queue = (if length queue < CAPTURE_CHANNEL then queue @ [ev] else queue)"

section \<open>The start\<close>

record RunWorld =
  rn_env :: "string \<Rightarrow> string option"
  rn_dirs :: "ProjectDirs option"
  rn_download :: "string option"
  rn_from_toml :: "string \<Rightarrow> string + Config"
  rn_blake3 :: "bytes \<Rightarrow> hash"
  rn_hex :: "bytes \<Rightarrow> string"
  rn_cert :: CertWorld
  rn_now :: nat
  rn_peer_id :: PeerId
  rn_platform :: "Error + unit"
  rn_socket_path :: "string + string"
  rn_listen :: "string \<Rightarrow> sockets \<Rightarrow> (string + unit) \<times> sockets"
  rn_client_endpoint :: "string + unit"

record RunFiles =
  rf_config :: "string \<Rightarrow> ConfigFile"
  rf_certs :: "string \<Rightarrow> CertDir"
  rf_sockets :: sockets

record Running =
  rg_state :: DaemonState
  rg_session :: Session
  rg_tasks :: "session_task list"
  rg_socket :: "string option"
  rg_effects :: "daemon_effect list"

text \<open>The configuration of the run: the file, or the defaults where there is none, under the overrides.\<close>

definition run_config :: "RunWorld \<Rightarrow> RunArgs \<Rightarrow> RunFiles \<Rightarrow> string + Config" where
  "run_config w args files =
     try_then
       (case ra_config_path args of
          Some p \<Rightarrow> Ok p
        | None \<Rightarrow> context_err ''default config path'' (map_err error_display (default_config_path (rn_dirs w))))
       (\<lambda>path. try_then
          (map_err error_display (base_config (rn_from_toml w) (rn_env w) path (rf_config files path)))
          (apply_overrides args))"

text \<open>The local socket, if it is wanted.\<close>

definition run_ipc :: "RunWorld \<Rightarrow> bool \<Rightarrow> sockets \<Rightarrow> (string + string option) \<times> sockets" where
  "run_ipc w enabled socks =
     (if enabled
      then (case context_err ''ipc socket path'' (rn_socket_path w) of
              Inl e \<Rightarrow> (Err e, socks)
            | Inr socket \<Rightarrow>
                (case rn_listen w socket socks of
                   (r, socks') \<Rightarrow> (map_sum (\<lambda>e. ''bind ipc: '' @ e) (\<lambda>_. Some socket) r, socks')))
      else (Ok None, socks))"

definition run :: "RunWorld \<Rightarrow> RunArgs \<Rightarrow> RunFiles \<Rightarrow> (string + Running) \<times> RunFiles" where
  "run w args files =
     (case run_config w args files of
        Inl e \<Rightarrow> (Err e, files)
      | Inr c \<Rightarrow>
     (case context_err ''locate cert dir'' (cert_dir (rn_dirs w)) of
        Inl e \<Rightarrow> (Err e, files)
      | Inr dir \<Rightarrow>
     (case load_or_generate (rn_blake3 w) (rn_hex w) (rn_cert w) (rf_certs files dir) of (cert_r, certs) \<Rightarrow>
     (let files1 = files\<lparr>rf_certs := (rf_certs files)(dir := certs)\<rparr> in
      case context_err ''load/generate cert'' (map_err error_display cert_r) of
        Inl e \<Rightarrow> (Err e, files1)
      | Inr cert \<Rightarrow>
     (case context_err ''platform init'' (map_err error_display (rn_platform w)) of
        Inl e \<Rightarrow> (Err e, files1)
      | Inr _ \<Rightarrow>
     (case run_ipc w (ra_ipc_enabled args) (rf_sockets files1) of (ipc_r, socks) \<Rightarrow>
     (let files2 = files1\<lparr>rf_sockets := socks\<rparr>;
          session = session_new (rn_download w) (cfg_role c) c (rn_peer_id w) in
      case ipc_r of
        Inl e \<Rightarrow> (Err e, files2)
      | Inr socket \<Rightarrow>
     (case (case cfg_role c of
              RoleServer \<Rightarrow> Ok []
            | RoleClient \<Rightarrow>
                try_then (context_err ''client controller bind'' (rn_client_endpoint w))
                  (\<lambda>_. Ok (spawn_client session))) of
        Inl e \<Rightarrow> (Err e, files2)
      | Inr tasks \<Rightarrow>
          (case daemon_start c (rn_peer_id w) cert (rn_now w) of (state, effs) \<Rightarrow>
             (Ok \<lparr>rg_state = state, rg_session = session, rg_tasks = tasks, rg_socket = socket,
                  rg_effects = effs\<rparr>, files2))))))))))"

definition print_fingerprint :: "RunWorld \<Rightarrow> RunFiles \<Rightarrow> (string + string) \<times> RunFiles" where
  "print_fingerprint w files =
     (case context_err ''locate cert dir'' (cert_dir (rn_dirs w)) of
        Inl e \<Rightarrow> (Err e, files)
      | Inr dir \<Rightarrow>
          (case load_or_generate (rn_blake3 w) (rn_hex w) (rn_cert w) (rf_certs files dir) of
             (r, certs) \<Rightarrow>
               (map_sum (\<lambda>e. ''load/generate cert: '' @ error_display e) cb_fingerprint_hex r,
                files\<lparr>rf_certs := (rf_certs files)(dir := certs)\<rparr>)))"

section \<open>Loops that accept\<close>

text \<open>
  The server's accept loop: each incoming connection whose TLS handshake succeeds is handled by a task
  of its own; the results are in the order of arrival.
\<close>

definition server_run ::
  "ServerConfig \<Rightarrow> (string + ServerWorld) list \<Rightarrow> ((Error + unit) \<times> Message list \<times> ServerEvent list) list" where
  "server_run cfg incoming =
     concat (map (\<lambda>i. case i of Inl e \<Rightarrow> [] | Inr w \<Rightarrow> [handle_connection cfg w]) incoming)"

text \<open>The accept loop of the local socket: a connection is served, a failure waits half a second.\<close>

datatype 'c ipc_accept = ServeConnection 'c | SleepMs nat

definition ipc_accept_loop :: "(string + 'c) list \<Rightarrow> 'c ipc_accept list" where
  "ipc_accept_loop accepted = map (\<lambda>a. case a of Inr c \<Rightarrow> ServeConnection c | Inl e \<Rightarrow> SleepMs 500) accepted"

text \<open>Resolving a host: the first of the addresses found.\<close>

definition client_resolve :: "(string \<Rightarrow> string + string list) \<Rightarrow> string \<Rightarrow> Error + string" where
  "client_resolve lookup host =
     (case lookup host of
        Inl e \<Rightarrow> Err (ENetwork (''resolve '' @ host @ '': '' @ e))
      | Inr [] \<Rightarrow> Err (ENetwork (''no addresses for '' @ host))
      | Inr (a # _) \<Rightarrow> Ok a)"

definition resolver_of :: "(string \<Rightarrow> string option) \<Rightarrow> (string \<Rightarrow> string + string list) \<Rightarrow> Resolver" where
  "resolver_of parse lookup =
     \<lparr>rs_from_str = parse, rs_resolve = (\<lambda>h. map_err error_display (client_resolve lookup h))\<rparr>"

text \<open>What the controller of the client sends its supervisor for an effect of a request.\<close>

fun controller_command :: "daemon_effect \<Rightarrow> ClientCommand option" where
  "controller_command (DialEffect cfg) = Some (Dial cfg)"
| "controller_command HangUpEffect = Some HangUp"
| "controller_command _ = None"

section \<open>Facts\<close>

lemma run_Ok:
  assumes "run w args files = (Inr g, files')"
  shows "\<exists>c dir cert certs. run_config w args files = Ok c \<and> cert_dir (rn_dirs w) = Ok dir \<and>
    load_or_generate (rn_blake3 w) (rn_hex w) (rn_cert w) (rf_certs files dir) = (Inr cert, certs) \<and>
    fst (run_ipc w (ra_ipc_enabled args) (rf_sockets files)) = Ok (rg_socket g) \<and>
    daemon_start c (rn_peer_id w) cert (rn_now w) = (rg_state g, rg_effects g) \<and>
    rg_session g = session_new (rn_download w) (cfg_role c) c (rn_peer_id w) \<and>
    rg_tasks g = (case cfg_role c of RoleServer \<Rightarrow> [] | RoleClient \<Rightarrow> spawn_client (rg_session g)) \<and>
    files' = files\<lparr>rf_certs := (rf_certs files)(dir := certs),
      rf_sockets := snd (run_ipc w (ra_ipc_enabled args) (rf_sockets files))\<rparr>"
  using assms
  by (auto simp: run_def context_err_def Let_def try_then_Ok split: sum.splits prod.splits ServerRole.splits)

lemma run_config_files: "fst (run w args files) = Err e \<or> is_ok (fst (run w args files)) \<Longrightarrow>
    rf_config (snd (run w args files)) = rf_config files"
  by (auto simp: run_def Let_def split: sum.splits prod.splits)

lemma apply_overrides_pins:
  "apply_overrides args c = Ok c' \<Longrightarrow> ra_pinned_fingerprints args \<noteq> [] \<Longrightarrow>
   nc_trusted_fingerprints (cfg_network c') = ra_pinned_fingerprints args"
  "apply_overrides args c = Ok c' \<Longrightarrow> ra_connect_override args = Some a \<Longrightarrow> nc_connect (cfg_network c') = Some a"
  by (auto simp: apply_overrides_def Let_def try_then_Ok split: option.splits)

lemma run_config_overrides:
  "run_config w args files = Ok c \<Longrightarrow> \<exists>c0. apply_overrides args c0 = Ok c"
  by (auto simp: run_config_def try_then_Ok)

lemma daemon_start_simps [simp]:
  "ds_listening (fst (daemon_start c me cert now)) = False"
  "ds_capturing (fst (daemon_start c me cert now)) = False"
  "ds_peers (fst (daemon_start c me cert now)) = []"
  "ds_fingerprint (fst (daemon_start c me cert now)) = cb_fingerprint_hex cert"
  by (simp_all add: daemon_start_def initial_state_def split: ServerRole.splits)

section \<open>Properties\<close>

text \<open>
  A daemon that starts is idle: it does not listen, does not capture, lists nobody, and has spawned
  no session that starts the capture. All it does on its own is to dial, once, when it is a client with
  an address, with the pins and the name of its configuration. The start writes no configuration.
\<close>

theorem daemon_starts_idle:
  assumes "run w args files = (Inr g, files')"
  shows "\<exists>c. run_config w args files = Ok c \<and>
    \<not> ds_listening (rg_state g) \<and> \<not> ds_capturing (rg_state g) \<and> ds_peers (rg_state g) = [] \<and>
    CaptureStart \<notin> set (rg_tasks g) \<and>
    rg_effects g = (case (cfg_role c, nc_connect (cfg_network c)) of
      (RoleClient, Some a) \<Rightarrow> [DialEffect ((client_base c (rn_peer_id w))\<lparr>cc_server_addr := a\<rparr>)]
    | _ \<Rightarrow> []) \<and>
    rf_config files' = rf_config files"
proof -
  obtain c cert dir certs where c: "run_config w args files = Ok c"
    "daemon_start c (rn_peer_id w) cert (rn_now w) = (rg_state g, rg_effects g)"
    "rg_tasks g = (case cfg_role c of RoleServer \<Rightarrow> [] | RoleClient \<Rightarrow> spawn_client (rg_session g))"
    "files' = files\<lparr>rf_certs := (rf_certs files)(dir := certs),
      rf_sockets := snd (run_ipc w (ra_ipc_enabled args) (rf_sockets files))\<rparr>"
    using run_Ok [OF assms] by blast
  have g: "rg_state g = fst (daemon_start c (rn_peer_id w) cert (rn_now w))"
    "rg_effects g = snd (daemon_start c (rn_peer_id w) cert (rn_now w))" by (simp_all add: c(2))
  then show ?thesis
    using c(1,3,4)
    by (auto simp: daemon_start_def initial_state_def spawn_client_def split: ServerRole.splits option.splits)
qed

text \<open>
  C21: The pins of the command line bind the first dial. When a daemon is started with fingerprints and
  dials, any server it becomes connected to by that dial has one of exactly these fingerprints, whatever
  the configuration file trusts; and an address on the command line is the one dialled.
\<close>

theorem command_line_pins_first_dial:
  assumes "run w args files = (Inr g, files')" and "ra_pinned_fingerprints args \<noteq> []"
    and "DialEffect cfg \<in> set (rg_effects g)"
    and "connect_once blake3 hex cfg kw = (r, msgs, evs)" and "evs \<noteq> []"
  shows "(\<forall>a. ra_connect_override args = Some a \<longrightarrow> cc_server_addr cfg = a) \<and>
    (\<exists>cert. kw_handshake kw = Ok cert \<and>
       (\<exists>p \<in> set (ra_pinned_fingerprints args). eq_ignore_ascii_case p (hex (blake3 cert))))"
proof -
  obtain c cert where c: "run_config w args files = Ok c"
    "daemon_start c (rn_peer_id w) cert (rn_now w) = (rg_state g, rg_effects g)"
    using run_Ok [OF assms(1)] by blast
  obtain c0 where c0: "apply_overrides args c0 = Ok c" using run_config_overrides [OF c(1)] by blast
  obtain a where a: "nc_connect (cfg_network c) = Some a"
    "cfg = (client_base c (rn_peer_id w))\<lparr>cc_server_addr := a\<rparr>"
  proof -
    have "DialEffect cfg \<in> set (snd (daemon_start c (rn_peer_id w) cert (rn_now w)))"
      using c(2) assms(3) by simp
    then show ?thesis
      using that by (cases "cfg_role c"; cases "nc_connect (cfg_network c)") (auto simp: daemon_start_def)
  qed
  then have pins: "cc_trusted_fingerprints cfg = ra_pinned_fingerprints args"
    using apply_overrides_pins(1) [OF c0 assms(2)] by (simp add: client_base_def)
  have "\<exists>cert. kw_handshake kw = Ok cert \<and>
       (\<exists>p \<in> set (ra_pinned_fingerprints args). eq_ignore_ascii_case p (hex (blake3 cert)))"
    using connect_once_events [OF assms(4,5)] pins assms(2)
    by (auto simp: verify_server_cert_def sha256_hex_def list_ex_iff Let_def split: if_splits)
  with a apply_overrides_pins(2) [OF c0] show ?thesis by auto
qed

text \<open>
  The fingerprint to give to a client is the one that is printed. Once a daemon has started, printing
  the fingerprint shows that of the certificate the daemon serves, and a client with just this pin accepts
  that certificate and no other whose hash is printed differently.
\<close>

theorem printed_fingerprint_pins:
  assumes "run w args files = (Inr g, files')"
    and "rn_dirs w' = rn_dirs w" "rn_blake3 w' = rn_blake3 w" "rn_hex w' = rn_hex w"
    and "is_ok (cw_create_dir (rn_cert w'))" "is_ok (cw_read_cert (rn_cert w'))" "is_ok (cw_read_key (rn_cert w'))"
  shows "print_fingerprint w' files' = (Ok (ds_fingerprint (rg_state g)), files') \<and>
    (\<forall>f. ds_server_factory (rg_state g) = Some f \<longrightarrow>
       verify_server_cert (rn_blake3 w) (rn_hex w) [ds_fingerprint (rg_state g)] (hd (cb_cert_chain (sc_cert f))) = Ok ()) \<and>
    (\<forall>cert. is_ok (verify_server_cert (rn_blake3 w) (rn_hex w) [ds_fingerprint (rg_state g)] cert) \<longleftrightarrow>
       eq_ignore_ascii_case (ds_fingerprint (rg_state g)) (rn_hex w (rn_blake3 w cert)))"
proof -
  obtain c dir cert certs where c: "cert_dir (rn_dirs w) = Ok dir"
    "load_or_generate (rn_blake3 w) (rn_hex w) (rn_cert w) (rf_certs files dir) = (Inr cert, certs)"
    "daemon_start c (rn_peer_id w) cert (rn_now w) = (rg_state g, rg_effects g)"
    "files' = files\<lparr>rf_certs := (rf_certs files)(dir := certs),
      rf_sockets := snd (run_ipc w (ra_ipc_enabled args) (rf_sockets files))\<rparr>"
    using run_Ok [OF assms(1)] by blast
  have kept: "load_or_generate (rn_blake3 w) (rn_hex w) (rn_cert w') certs = (Inr cert, certs)"
    "verify_server_cert (rn_blake3 w) (rn_hex w) [cb_fingerprint_hex cert] (hd (cb_cert_chain cert)) = Ok ()"
    using certificate_persists [OF c(2) assms(5-7)] by blast+
  have g: "rg_state g = fst (daemon_start c (rn_peer_id w) cert (rn_now w))" by (simp add: c(3))
  have "sc_cert f = cert" if "ds_server_factory (rg_state g) = Some f" for f
    using that by (auto simp: g daemon_start_def initial_state_def split: ServerRole.splits)
  moreover have "print_fingerprint w' files' = (Ok (cb_fingerprint_hex cert), files')"
    using kept(1) c(1,4) by (auto simp: print_fingerprint_def assms(2-4) context_err_def)
  ultimately show ?thesis
    using kept(2) by (auto simp: g verify_server_cert_def sha256_hex_def Let_def split: if_splits)
qed

text \<open>The settings that the daemon reads.\<close>

definition settings_used :: "Config \<Rightarrow>
  ServerRole \<times> string \<times> string \<times> string option \<times> u64 \<times> string list \<times> bool \<times> string option \<times> ScreenLayout" where
  "settings_used c =
     (cfg_role c, cfg_peer_name c, nc_listen (cfg_network c), nc_connect (cfg_network c),
      nc_heartbeat_interval_ms (cfg_network c), nc_trusted_fingerprints (cfg_network c),
      clc_enabled (cfg_clipboard c), ftc_drop_dir (cfg_file_transfer c), cfg_layout c)"

text \<open>
  Many settings have no effect. Two configurations that agree on role, name, addresses, heartbeat
  interval, pins, layout, drop directory and on whether the clipboard is shared make the daemon start
  alike, report alike and run the same sessions: the emergency hotkey, the heartbeat timeout, the reconnect
  times, the limits of clipboard and file transfer and the switch of file transfer change nothing.
\<close>

theorem settings_without_effect:
  assumes "settings_used c = settings_used c'"
  shows "snd (daemon_start c' me cert now) = snd (daemon_start c me cert now) \<and>
    fst (daemon_start c' me cert now) = (fst (daemon_start c me cert now))\<lparr>ds_config := c'\<rparr> \<and>
    status_of version t (fst (daemon_start c' me cert now)) = status_of version t (fst (daemon_start c me cert now)) \<and>
    spawn_server_of info (session_new dl (cfg_role c') c' me) = spawn_server_of info (session_new dl (cfg_role c) c me) \<and>
    spawn_client (session_new dl (cfg_role c') c' me) = spawn_client (session_new dl (cfg_role c) c me) \<and>
    ss_drop_dir (session_new dl (cfg_role c') c' me) = ss_drop_dir (session_new dl (cfg_role c) c me)"
proof -
  have eq: "cfg_role c' = cfg_role c" "cfg_peer_name c' = cfg_peer_name c" "cfg_layout c' = cfg_layout c"
    "nc_listen (cfg_network c') = nc_listen (cfg_network c)"
    "nc_connect (cfg_network c') = nc_connect (cfg_network c)"
    "clc_enabled (cfg_clipboard c') = clc_enabled (cfg_clipboard c)"
    "ftc_drop_dir (cfg_file_transfer c') = ftc_drop_dir (cfg_file_transfer c)"
    "client_base c' me = client_base c me"
    using assms by (simp_all add: settings_used_def client_base_def)
  show ?thesis
    by (cases "cfg_role c")
      (simp_all add: eq daemon_start_def initial_state_def status_of_def spawn_server_of_def spawn_client_def
        session_new_def split: option.split)
qed

section \<open>Examples\<close>

definition sample_run :: RunWorld where
  "sample_run =
     \<lparr>rn_env = Map.empty, rn_dirs = Some \<lparr>pd_config_dir = ''/c'', pd_data_dir = ''/d''\<rparr>, rn_download = None,
      rn_from_toml = (\<lambda>_. Err ''unexpected''), rn_blake3 = (\<lambda>b. b), rn_hex = (\<lambda>_. ''ab''),
      rn_cert = \<lparr>cw_create_dir = Ok (), cw_read_cert = Ok (), cw_read_key = Ok (),
        cw_generate = Ok ([1], [2]), cw_write_cert = None, cw_write_key = None\<rparr>,
      rn_now = 0, rn_peer_id = PeerId 1, rn_platform = Ok (), rn_socket_path = Ok ''/tmp/inputsync.sock'',
      rn_listen = (\<lambda>path socks. (Ok (), socks(path \<mapsto> 1))), rn_client_endpoint = Ok ()\<rparr>"

definition sample_files :: RunFiles where
  "sample_files = \<lparr>rf_config = (\<lambda>_. Absent), rf_certs = (\<lambda>_. \<lparr>cd_cert = None, cd_key = None\<rparr>), rf_sockets = Map.empty\<rparr>"

definition sample_args :: RunArgs where
  "sample_args = \<lparr>ra_config_path = Some ''/x'', ra_role_override = Some ''client'', ra_listen_override = None,
     ra_connect_override = Some ''10.0.0.1:24800'', ra_pinned_fingerprints = [''AB''], ra_ipc_enabled = False\<rparr>"

definition sample_run_config :: Config where
  "sample_run_config = (config_default Map.empty)\<lparr>cfg_role := RoleClient,
     cfg_network := network_default\<lparr>nc_connect := Some ''10.0.0.1:24800'', nc_trusted_fingerprints := [''AB'']\<rparr>\<rparr>"

definition sample_dial :: ClientConfig where
  "sample_dial = client_base sample_run_config (PeerId 1)"

lemma sample_client_role: "parse_role ''client'' = Ok RoleClient"
  by code_simp

lemma sample_run_config_eq: "run_config sample_run sample_args sample_files = Ok sample_run_config"
  by (simp add: run_config_def sample_args_def sample_run_def sample_files_def base_config_def config_load_def
      apply_overrides_def sample_client_role Let_def sample_run_config_def config_default_def)

lemma sample_run_starts:
  "\<exists>g files'. run sample_run sample_args sample_files = (Inr g, files') \<and> rg_effects g = [DialEffect sample_dial] \<and>
     ds_fingerprint (rg_state g) = ''ab''"
proof -
  have role: "cfg_role sample_run_config = RoleClient"
    "nc_connect (cfg_network sample_run_config) = Some ''10.0.0.1:24800''"
    by (simp_all add: sample_run_config_def)
  have "(client_base sample_run_config (PeerId 1))\<lparr>cc_server_addr := ''10.0.0.1:24800''\<rparr> = sample_dial"
    by (simp add: sample_dial_def client_base_def role(2))
  then show ?thesis
    unfolding run_def sample_run_config_eq
    by (simp add: role sample_run_def sample_files_def sample_args_def cert_dir_def context_err_def
        load_or_generate_def run_ipc_def Let_def daemon_start_def initial_state_def bundle_of_def sha256_hex_def)
qed

theorem daemon_starts_idle_witness:
  "\<exists>g files'. run sample_run sample_args sample_files = (Inr g, files') \<and> \<not> ds_listening (rg_state g) \<and>
     rf_config files' = rf_config sample_files"
proof -
  obtain g files' where run: "run sample_run sample_args sample_files = (Inr g, files')"
    using sample_run_starts by blast
  from daemon_starts_idle [OF run] run show ?thesis by auto
qed

theorem command_line_pins_first_dial_witness:
  "\<exists>g files' cert. run sample_run sample_args sample_files = (Inr g, files') \<and>
     kw_handshake demo_client_world = Ok cert \<and> cc_server_addr sample_dial = ''10.0.0.1:24800'' \<and>
     eq_ignore_ascii_case ''AB'' ''ab''"
proof -
  obtain g files' where run: "run sample_run sample_args sample_files = (Inr g, files')"
    "rg_effects g = [DialEffect sample_dial]" using sample_run_starts by blast
  let ?out = "connect_once (\<lambda>b. b) (\<lambda>_. ''ab'') sample_dial demo_client_world"
  have out: "?out = (fst ?out, fst (snd ?out), snd (snd ?out))" by simp
  have "cc_trusted_fingerprints sample_dial = [''AB'']"
    by (simp add: sample_dial_def client_base_def sample_run_config_def)
  then have "snd (snd ?out) \<noteq> []"
    by (simp add: connect_once_def demo_client_world_def demo_pin demo_welcome_def client_accept_def)
  moreover have "ra_pinned_fingerprints sample_args \<noteq> []" "ra_connect_override sample_args = Some ''10.0.0.1:24800''"
    "DialEffect sample_dial \<in> set (rg_effects g)" "ra_pinned_fingerprints sample_args = [''AB'']"
    by (simp_all add: sample_args_def run(2))
  ultimately show ?thesis
    using command_line_pins_first_dial [OF run(1) _ _ out] run(1) by auto
qed

theorem printed_fingerprint_pins_witness:
  "\<exists>g files'. run sample_run sample_args sample_files = (Inr g, files') \<and>
     print_fingerprint sample_run files' = (Ok ''ab'', files')"
proof -
  obtain g files' where run: "run sample_run sample_args sample_files = (Inr g, files')"
    "ds_fingerprint (rg_state g) = ''ab''" using sample_run_starts by blast
  have "is_ok (cw_create_dir (rn_cert sample_run))" "is_ok (cw_read_cert (rn_cert sample_run))"
    "is_ok (cw_read_key (rn_cert sample_run))" by (simp_all add: sample_run_def)
  from printed_fingerprint_pins [OF run(1) refl refl refl this] run show ?thesis by auto
qed

theorem settings_without_effect_witness:
  "let c = config_default Map.empty; c' = c\<lparr>cfg_emergency_hotkey := ''F12'', cfg_network := (cfg_network c)
         \<lparr>nc_heartbeat_timeout_ms := 1\<rparr>\<rparr>;
       cert = \<lparr>cb_cert_chain = [], cb_key = [], cb_fingerprint_hex = ''ab''\<rparr>
   in fst (daemon_start c' (PeerId 1) cert 0) = (fst (daemon_start c (PeerId 1) cert 0))\<lparr>ds_config := c'\<rparr>"
proof -
  let ?c = "config_default Map.empty"
  let ?c' = "?c\<lparr>cfg_emergency_hotkey := ''F12'', cfg_network := (cfg_network ?c)\<lparr>nc_heartbeat_timeout_ms := 1\<rparr>\<rparr>"
  have "settings_used ?c = settings_used ?c'" by (simp add: settings_used_def)
  from settings_without_effect [OF this] show ?thesis unfolding Let_def by blast
qed

end
