(* ===== verification/Endpoints.thy ===== *)
theory Endpoints
  imports DaemonRun
begin

text \<open>
  The objects around a connection: the TLS configurations of \<open>crates/network/src/tls.rs\<close>, binding the
  server (\<open>Server\<close> of \<open>crates/network/src/server.rs\<close>), the one-shot client and the controller with its
  channels (\<open>Client\<close>, \<open>ClientController\<close> of \<open>crates/network/src/client.rs\<close>), and the tasks that pass
  events on to the session (\<open>crates/daemon/src/app.rs\<close>). What rustls and quinn answer is a parameter.
\<close>

section \<open>TLS configurations\<close>

datatype SignatureScheme = RSA_PKCS1_SHA256 | ECDSA_NISTP256_SHA256 | ED25519

definition supported_verify_schemes :: "SignatureScheme list" where
  "supported_verify_schemes = [RSA_PKCS1_SHA256, ECDSA_NISTP256_SHA256, ED25519]"

text \<open>The server presents its chain and asks clients for none; the client has the pins.\<close>

record TlsServer =
  ts_client_auth :: bool
  ts_cert_chain :: "bytes list"
  ts_key :: bytes
  ts_alpn_protocols :: "string list"

record TlsClient =
  tc_pinned :: "string list"
  tc_alpn_protocols :: "string list"

definition server_rustls_config :: "(bytes list \<Rightarrow> bytes \<Rightarrow> string + unit) \<Rightarrow> CertBundle \<Rightarrow> Error + TlsServer" where
  "server_rustls_config with_single_cert b =
     (case with_single_cert (cb_cert_chain b) (cb_key b) of
        Inl e \<Rightarrow> Err (ENetwork (''rustls server config: '' @ e))
      | Inr _ \<Rightarrow> Ok \<lparr>ts_client_auth = False, ts_cert_chain = cb_cert_chain b, ts_key = cb_key b,
                     ts_alpn_protocols = [''inputsync/1'']\<rparr>)"

definition client_rustls_config :: "string list option \<Rightarrow> TlsClient" where
  "client_rustls_config pinned =
     \<lparr>tc_pinned = (case pinned of Some p \<Rightarrow> p | None \<Rightarrow> []), tc_alpn_protocols = [''inputsync/1'']\<rparr>"

section \<open>The server's endpoint\<close>

text \<open>The configuration given to quinn, and the outcome of its calls by their arguments.\<close>

record QuinnServer =
  qs_crypto :: TlsServer
  qs_max_uni_streams :: u32
  qs_max_bidi_streams :: u32

record BindWorld =
  bw_single_cert :: "bytes list \<Rightarrow> bytes \<Rightarrow> string + unit"
  bw_quic :: "TlsServer \<Rightarrow> string + unit"
  bw_endpoint :: "QuinnServer \<Rightarrow> string \<Rightarrow> string + nat"
  bw_local_addr :: "nat \<Rightarrow> string + string"

record QuicServer =
  se_endpoint :: nat
  se_fingerprint :: string
  se_cfg :: ServerConfig

text \<open>The endpoint is returned twice: in the server and as the handle that closes it.\<close>

definition server_bind :: "BindWorld \<Rightarrow> ServerConfig \<Rightarrow> Error + (QuicServer \<times> nat)" where
  "server_bind w cfg =
     try_then (server_rustls_config (bw_single_cert w) (sc_cert cfg)) (\<lambda>tls.
     try_then (map_err (\<lambda>e. ENetwork (''quic server: '' @ e)) (bw_quic w tls)) (\<lambda>_.
     try_then (map_err (\<lambda>e. ENetwork (''bind: '' @ e))
         (bw_endpoint w \<lparr>qs_crypto = tls, qs_max_uni_streams = 64, qs_max_bidi_streams = 64\<rparr> (sc_listen cfg)))
       (\<lambda>ep. Ok (\<lparr>se_endpoint = ep, se_fingerprint = cb_fingerprint_hex (sc_cert cfg), se_cfg = cfg\<rparr>, ep))))"

definition server_fingerprint :: "QuicServer \<Rightarrow> string" where
  "server_fingerprint srv = se_fingerprint srv"

definition server_local_addr :: "BindWorld \<Rightarrow> QuicServer \<Rightarrow> Error + string" where
  "server_local_addr w srv = map_err (\<lambda>e. ENetwork (''local_addr: '' @ e)) (bw_local_addr w (se_endpoint srv))"

text \<open>The binding step of \<open>start_server\<close>: an unknown local address is no failure.\<close>

definition bind_step :: "BindWorld \<Rightarrow> ServerConfig \<Rightarrow> string + nat \<times> string option" where
  "bind_step w cfg =
     (case server_bind w cfg of
        Inl e \<Rightarrow> Err (error_display e)
      | Inr (srv, ep) \<Rightarrow>
          Ok (ep, case server_local_addr w srv of Inr a \<Rightarrow> Some a | Inl _ \<Rightarrow> None))"

section \<open>The client's endpoints\<close>

text \<open>
  A socket address is its text; that of IPv6 begins with a bracket. The one-shot client binds for the
  family of the server's address.
\<close>

definition is_ipv6 :: "string \<Rightarrow> bool" where
  "is_ipv6 a \<longleftrightarrow> (case a of [] \<Rightarrow> False | c # _ \<Rightarrow> c = CHR ''['')"

definition client_bind_addr :: "ClientConfig \<Rightarrow> string" where
  "client_bind_addr cfg = (if is_ipv6 (cc_server_addr cfg) then ''[::]:0'' else ''0.0.0.0:0'')"

definition quic_client_run ::
  "(bytes \<Rightarrow> hash) \<Rightarrow> (bytes \<Rightarrow> string) \<Rightarrow> (string \<Rightarrow> string + unit) \<Rightarrow> ClientConfig \<Rightarrow>
   ClientWorld \<Rightarrow> (Error + unit) \<times> Message list \<times> ClientEvent list" where
  "quic_client_run blake3 hex bind cfg w =
     (case bind (client_bind_addr cfg) of
        Inl e \<Rightarrow> (Err (ENetwork (''client bind: '' @ e)), [], [])
      | Inr _ \<Rightarrow> connect_once blake3 hex cfg w)"

text \<open>
  The controller: the address its one endpoint is bound to, the commands its supervisor has not taken
  yet, and the receiver of the events (here just a name) until it is taken.
\<close>

record ClientController =
  ct_bound :: string
  ct_commands :: "ClientCommand list"
  ct_events_rx :: "nat option"

definition CONTROLLER_BIND :: string where
  "CONTROLLER_BIND = ''0.0.0.0:0''"

definition COMMAND_CHANNEL :: nat where
  "COMMAND_CHANNEL = 16"

definition controller_new :: "(string \<Rightarrow> string + unit) \<Rightarrow> nat \<Rightarrow> string + ClientController" where
  "controller_new bind rx =
     try_then (bind CONTROLLER_BIND)
       (\<lambda>_. Ok \<lparr>ct_bound = CONTROLLER_BIND, ct_commands = [], ct_events_rx = Some rx\<rparr>)"

definition take_events :: "ClientController \<Rightarrow> nat option \<times> ClientController" where
  "take_events c = (ct_events_rx c, c\<lparr>ct_events_rx := None\<rparr>)"

text \<open>A command waits while the channel is full; with the supervisor gone it is dropped.\<close>

definition controller_send :: "bool \<Rightarrow> ClientCommand \<Rightarrow> ClientController \<Rightarrow> ClientController option" where
  "controller_send supervisor_alive cmd c =
     (if \<not> supervisor_alive then Some c
      else if length (ct_commands c) < COMMAND_CHANNEL then Some (c\<lparr>ct_commands := ct_commands c @ [cmd]\<rparr>)
      else None)"

section \<open>Passing events on\<close>

text \<open>
  The fan-out tasks: an event is tracked and then sent to the session; when the session is gone the
  task ends. Each event comes with whether its sending succeeds.
\<close>

fun fanout_loop :: "('s \<Rightarrow> 'e \<Rightarrow> 's) \<Rightarrow> ('e \<times> bool) list \<Rightarrow> 's \<Rightarrow> 's \<times> 'e list" where
  "fanout_loop upd [] s = (s, [])"
| "fanout_loop upd ((ev, session_listens) # evs) s =
     (let s1 = upd s ev in
      if session_listens
      then (case fanout_loop upd evs s1 of (s2, sent) \<Rightarrow> (s2, ev # sent))
      else (s1, []))"

definition server_fanout ::
  "((nat \<times> ServerEvent) \<times> bool) list \<Rightarrow> DaemonState \<Rightarrow> DaemonState \<times> (nat \<times> ServerEvent) list" where
  "server_fanout = fanout_loop (\<lambda>s (now, ev). track_server_event now s ev)"

definition client_fanout ::
  "((nat \<times> ClientEvent) \<times> bool) list \<Rightarrow> TrackedPeer list \<Rightarrow> TrackedPeer list \<times> (nat \<times> ClientEvent) list" where
  "client_fanout = fanout_loop (\<lambda>ps (now, ev). track_client_event now ps ev)"

section \<open>Facts\<close>

lemma server_bind_Ok:
  "server_bind w cfg = Ok (srv, ep) \<Longrightarrow>
   \<exists>tls. server_rustls_config (bw_single_cert w) (sc_cert cfg) = Ok tls \<and> bw_quic w tls = Ok () \<and>
     bw_endpoint w \<lparr>qs_crypto = tls, qs_max_uni_streams = 64, qs_max_bidi_streams = 64\<rparr> (sc_listen cfg) = Ok ep \<and>
     srv = \<lparr>se_endpoint = ep, se_fingerprint = cb_fingerprint_hex (sc_cert cfg), se_cfg = cfg\<rparr>"
  by (auto simp: server_bind_def try_then_Ok)

lemma server_rustls_config_Ok:
  "server_rustls_config single b = Ok tls \<Longrightarrow>
   ts_cert_chain tls = cb_cert_chain b \<and> ts_alpn_protocols tls = [''inputsync/1'']"
  by (auto simp: server_rustls_config_def split: sum.splits)

lemma loaded_fingerprint:
  assumes "load_or_generate blake3 hex w d = (Inr b, d')"
  shows "cb_fingerprint_hex b = hex (blake3 (hd (cb_cert_chain b)))"
  using assms
  by (auto simp: load_or_generate_def bundle_of_def sha256_hex_def split: sum.splits option.splits prod.splits)

section \<open>Properties\<close>

text \<open>
  C22: A fingerprint copied from the server connects. When a started daemon binds its server, what its
  status shows as the fingerprint, pasted into a request to connect with white space around it, makes the
  client dial with exactly that pin; the certificate at the head of the chain which the bound endpoint
  presents passes the check of that dial; one with another hash does not; and both sides speak the
  same application protocol.
\<close>

theorem copied_fingerprint_connects:
  assumes "run w args files = (Inr g, files')" and "ds_server_factory (rg_state g) = Some f"
    and "server_rustls_config (bw_single_cert bw) (sc_cert f) = Ok tls"
    and "fp = sr_local_fingerprint (status_of v now (rg_state g))"
    and "trim fp = fp" and "fp \<noteq> []"
    and "blank pre" and "blank post"
    and "handle_request cw (Connect a (Some (pre @ fp @ post))) cs = (Some OkReply, cs', [DialEffect cfg])"
  shows "tc_pinned (client_rustls_config (Some (cc_trusted_fingerprints cfg))) = [fp] \<and>
    ts_alpn_protocols tls = tc_alpn_protocols (client_rustls_config (Some (cc_trusted_fingerprints cfg))) \<and>
    verify_server_cert (rn_blake3 w) (rn_hex w) (cc_trusted_fingerprints cfg) (hd (ts_cert_chain tls)) = Ok () \<and>
    (\<forall>cert. is_ok (verify_server_cert (rn_blake3 w) (rn_hex w) (cc_trusted_fingerprints cfg) cert) \<longrightarrow>
       eq_ignore_ascii_case (rn_hex w (rn_blake3 w (hd (ts_cert_chain tls)))) (rn_hex w (rn_blake3 w cert)))"
proof -
  obtain c dir cert certs where c:
    "load_or_generate (rn_blake3 w) (rn_hex w) (rn_cert w) (rf_certs files dir) = (Inr cert, certs)"
    "daemon_start c (rn_peer_id w) cert (rn_now w) = (rg_state g, rg_effects g)"
    using run_Ok [OF assms(1)] by blast
  have g: "rg_state g = fst (daemon_start c (rn_peer_id w) cert (rn_now w))" by (simp add: c(2))
  have f: "sc_cert f = cert"
    using assms(2) by (auto simp: g daemon_start_def initial_state_def split: ServerRole.splits)
  have fp: "fp = rn_hex w (rn_blake3 w (hd (ts_cert_chain tls)))"
    using loaded_fingerprint [OF c(1)] server_rustls_config_Ok [OF assms(3)]
    by (simp add: assms(4) status_of_def g f)
  have "cc_trusted_fingerprints cfg = [fp]"
    using assms(9) trim_surrounded [OF assms(7,8,5,6)] assms(6)
    by (auto simp: handle_connect_def Let_def split: sum.splits option.splits bool.splits prod.splits)
  then show ?thesis
    using server_rustls_config_Ok [OF assms(3)] fp
    by (auto simp: client_rustls_config_def verify_server_cert_def sha256_hex_def Let_def split: if_splits)
qed

text \<open>
  quinn refuses to connect an endpoint that is bound to an IPv4 address to an IPv6 one: this is all that
  is assumed of it, for any pair of addresses.
\<close>

definition refuses_other_family :: "(string \<Rightarrow> string \<Rightarrow> string + unit) \<Rightarrow> bool" where
  "refuses_other_family quic_connect \<longleftrightarrow>
     (\<forall>bound remote. is_ipv6 remote \<longrightarrow> \<not> is_ipv6 bound \<longrightarrow> \<not> is_ok (quic_connect bound remote))"

text \<open>
  C37: The address that a request to connect resolves to first decides, and an IPv6 one never connects.
  The request is answered Ok and the client dials the first address found; the one endpoint of the
  controller is bound to an IPv4 address, whatever is dialled, and quinn refuses to connect such an
  endpoint to an IPv6 address: the attempt ends without an event, also when a later address is an IPv4
  one. The one-shot client binds for the family, so this reason does not hold for it.
\<close>

theorem ipv6_address_never_connects:
  assumes "controller_new bind rx = Ok ct" and "refuses_other_family quic_connect"
    and "rw_resolver w = resolver_of parse lookup"
    and "parse host = Some a \<or> parse host = None \<and> lookup host = Ok (a # as)" and "is_ipv6 a"
    and "ds_client_controller s" and "ds_client_base s = Some base"
  shows "\<exists>cfg. handle_request w (Connect host fp) s = (Some OkReply, s, [DialEffect cfg]) \<and>
    cc_server_addr cfg = a \<and> is_ipv6 (client_bind_addr cfg) \<and>
    (\<forall>kw. kw_connect kw = quic_connect (ct_bound ct) a \<longrightarrow>
       \<not> is_ok (fst (connect_once blake3 hex cfg kw)) \<and> snd (connect_once blake3 hex cfg kw) = ([], []))"
proof -
  have t: "target_of (rw_resolver w) host = Ok a"
    using assms(4) by (auto simp: assms(3) target_of_def resolver_of_def client_resolve_def)
  obtain cfg where cfg: "handle_request w (Connect host fp) s = (Some OkReply, s, [DialEffect cfg])"
    "cc_server_addr cfg = a"
    using t assms(6,7) by (auto simp: handle_connect_def Let_def split: option.split)
  have "ct_bound ct = CONTROLLER_BIND" using assms(1) by (auto simp: controller_new_def try_then_Ok)
  then have "\<not> is_ipv6 (ct_bound ct)" by (simp add: CONTROLLER_BIND_def is_ipv6_def)
  then have "\<not> is_ok (quic_connect (ct_bound ct) a)"
    using assms(2,5) by (simp add: refuses_other_family_def)
  then obtain e where e: "quic_connect (ct_bound ct) a = Inl e"
    by (cases "quic_connect (ct_bound ct) a") auto
  have "\<not> is_ok (fst (connect_once blake3 hex cfg kw)) \<and> snd (connect_once blake3 hex cfg kw) = ([], [])"
    if "kw_connect kw = quic_connect (ct_bound ct) a" for kw
    using that e by (cases "kw_tls kw") (simp_all add: connect_once_def)
  moreover have "is_ipv6 (client_bind_addr cfg)"
    using assms(5) cfg(2) by (simp add: client_bind_addr_def) (simp add: is_ipv6_def)
  ultimately show ?thesis using cfg by blast
qed

section \<open>Examples\<close>

definition server_args :: RunArgs where
  "server_args = \<lparr>ra_config_path = Some ''/x'', ra_role_override = Some ''server'', ra_listen_override = None,
     ra_connect_override = None, ra_pinned_fingerprints = [], ra_ipc_enabled = False\<rparr>"

lemma server_run_starts:
  "\<exists>g files' f. run sample_run server_args sample_files = (Inr g, files') \<and>
     ds_server_factory (rg_state g) = Some f \<and> cb_cert_chain (sc_cert f) = [[1]] \<and> ds_fingerprint (rg_state g) = ''ab''"
proof -
  have role: "parse_role ''server'' = Ok RoleServer" by code_simp
  have "run_config sample_run server_args sample_files = Ok ((config_default Map.empty)\<lparr>cfg_role := RoleServer\<rparr>)"
    by (simp add: run_config_def server_args_def sample_run_def sample_files_def base_config_def config_load_def
        apply_overrides_def role Let_def config_default_def)
  then show ?thesis
    unfolding run_def
    by (simp add: sample_run_def sample_files_def server_args_def cert_dir_def context_err_def
        load_or_generate_def run_ipc_def Let_def daemon_start_def initial_state_def bundle_of_def sha256_hex_def)
qed

theorem copied_fingerprint_connects_witness:
  "\<exists>g files' cs' cfg. run sample_run server_args sample_files = (Inr g, files') \<and>
     handle_request quiet_world (Connect ''10.0.0.1:24800'' (Some '' ab '')) idle_client =
       (Some OkReply, cs', [DialEffect cfg]) \<and>
     verify_server_cert (\<lambda>b. b) (\<lambda>_. ''ab'') (cc_trusted_fingerprints cfg) [1] = Ok ()"
proof -
  obtain g files' f where run: "run sample_run server_args sample_files = (Inr g, files')"
    "ds_server_factory (rg_state g) = Some f" "cb_cert_chain (sc_cert f) = [[1]]" "ds_fingerprint (rg_state g) = ''ab''"
    using server_run_starts by blast
  have tls: "server_rustls_config (\<lambda>_ _. Ok ()) (sc_cert f) = Ok \<lparr>ts_client_auth = False,
      ts_cert_chain = [[1]], ts_key = cb_key (sc_cert f), ts_alpn_protocols = [''inputsync/1'']\<rparr>"
    by (simp add: server_rustls_config_def run(3))
  have fp: "''ab'' = sr_local_fingerprint (status_of ''0.1.0'' 5 (rg_state g))"
    by (simp add: status_of_def run(4))
  have c: "ds_client_controller idle_client" "\<exists>base. ds_client_base idle_client = Some base"
    by (simp_all add: idle_client_def daemon_start_def initial_state_def)
  have spaces: "trim ''ab'' = ''ab''" "blank '' ''" by code_simp+
  have trimmed: "trim '' ab '' = ''ab''" by code_simp
  obtain cfg where cfg: "handle_request quiet_world (Connect ''10.0.0.1:24800'' (Some ('' '' @ ''ab'' @ '' ''))) idle_client =
      (Some OkReply, idle_client, [DialEffect cfg])"
    using c by (auto simp: handle_connect_def target_of_def quiet_world_def Let_def trimmed)
  let ?bw = "\<lparr>bw_single_cert = (\<lambda>_ _. Ok ()), bw_quic = (\<lambda>_. Ok ()), bw_endpoint = (\<lambda>_ _. Ok 7),
     bw_local_addr = (\<lambda>_. Ok ''0.0.0.0:24800'')\<rparr>"
  have "server_rustls_config (bw_single_cert ?bw) (sc_cert f) = Ok \<lparr>ts_client_auth = False,
      ts_cert_chain = [[1]], ts_key = cb_key (sc_cert f), ts_alpn_protocols = [''inputsync/1'']\<rparr>"
    using tls by simp
  from copied_fingerprint_connects [OF run(1,2) this fp spaces(1) _ spaces(2,2) cfg] run(1) cfg show ?thesis
    by (auto simp: sample_run_def)
qed

theorem ipv6_address_never_connects_witness:
  "let w = quiet_world\<lparr>rw_resolver := resolver_of (\<lambda>_. None) (\<lambda>_. Ok [''[::1]:24800'', ''127.0.0.1:24800''])\<rparr>
   in \<exists>cfg. handle_request w (Connect ''localhost:24800'' None) idle_client = (Some OkReply, idle_client, [DialEffect cfg]) \<and>
        cc_server_addr cfg = ''[::1]:24800''"
proof -
  let ?lookup = "\<lambda>_ :: string. Ok [''[::1]:24800'', ''127.0.0.1:24800''] :: string + string list"
  let ?w = "quiet_world\<lparr>rw_resolver := resolver_of (\<lambda>_. None) ?lookup\<rparr>"
  let ?quic = "\<lambda>b r. if is_ipv6 r \<and> \<not> is_ipv6 b then Err ''invalid remote address'' else Ok ()"
  have ct: "controller_new (\<lambda>_. Ok ()) 0 = Ok \<lparr>ct_bound = CONTROLLER_BIND, ct_commands = [], ct_events_rx = Some 0\<rparr>"
    by (simp add: controller_new_def)
  have c: "ds_client_controller idle_client" "\<exists>base. ds_client_base idle_client = Some base"
    by (simp_all add: idle_client_def daemon_start_def initial_state_def)
  then obtain base where base: "ds_client_base idle_client = Some base" by blast
  have r: "rw_resolver ?w = resolver_of (\<lambda>_. None) ?lookup" by simp
  have q: "refuses_other_family ?quic" by (simp add: refuses_other_family_def)
  have a: "is_ipv6 ''[::1]:24800''" by (simp add: is_ipv6_def)
  from ipv6_address_never_connects [where as = "[''127.0.0.1:24800'']" and host = "''localhost:24800''" and fp = None and
      a = "''[::1]:24800''", OF ct q r _ a c(1) base]
  show ?thesis unfolding Let_def by (simp del: handle_request.simps) blast
qed

end
