(* ===== verification/GuiSupervisor.thy ===== *)
theory GuiSupervisor
  imports IpcTransport
begin

text \<open>
  The supervisor of the daemon process in the graphical interface
  (\<open>crates/gui/src/daemon.rs\<close>): finding the binary, the settings of the child, starting it,
  throttled or not, and stopping it. Time is in nanoseconds; a process is its number, and the
  processes that the supervisor started and that are still alive are a set of numbers.
\<close>

section \<open>The binary\<close>

definition DAEMON_BIN_NAME :: string where
  "DAEMON_BIN_NAME = ''inputsync-daemon''"

definition daemon_filename :: "bool \<Rightarrow> string" where
  "daemon_filename windows = (if windows then DAEMON_BIN_NAME @ ''.exe'' else DAEMON_BIN_NAME)"

text \<open>\<open>PathBuf::join\<close> on Windows with a relative path: no separator after a bare drive.\<close>

definition windows_join :: "string \<Rightarrow> string \<Rightarrow> string" where
  "windows_join base p =
     (if base = [] \<or> last base \<in> {CHR 0x5C, CHR ''/''} \<or> (length base = 2 \<and> last base = CHR '':'')
      then base @ p else base @ [CHR 0x5C] @ p)"

text \<open>
  What the search sees: the environment, which paths are files, the directory of the running
  program, and what \<open>which\<close> or \<open>where\<close> prints, if it could be run, with its success.
\<close>

record SearchWorld =
  sw_windows :: bool
  sw_env :: "string \<Rightarrow> string option"
  sw_is_file :: "string \<Rightarrow> bool"
  sw_exe_dir :: "string option"
  sw_lookup :: "(bool \<times> string) option"

definition join_path :: "SearchWorld \<Rightarrow> string \<Rightarrow> string \<Rightarrow> string" where
  "join_path w = (if sw_windows w then windows_join else unix_join)"

definition well_known_paths :: "SearchWorld \<Rightarrow> string list" where
  "well_known_paths w =
     (if sw_windows w
      then map (\<lambda>prog. windows_join (windows_join prog ''InputSync'') (DAEMON_BIN_NAME @ ''.exe''))
             ((case sw_env w ''ProgramFiles'' of Some p \<Rightarrow> [p] | None \<Rightarrow> []) @
              (case sw_env w ''ProgramFiles(x86)'' of Some p \<Rightarrow> [p] | None \<Rightarrow> []))
      else [unix_join ''/usr/bin'' DAEMON_BIN_NAME, unix_join ''/usr/local/bin'' DAEMON_BIN_NAME])"

text \<open>The first of \<open>str::lines\<close>.\<close>

definition first_line :: "string \<Rightarrow> string option" where
  "first_line s = (if s = [] then None else Some (takeWhile (\<lambda>c. c \<noteq> CHR 0x0A) s))"

definition lookup_on_path :: "SearchWorld \<Rightarrow> string option" where
  "lookup_on_path w =
     (case sw_lookup w of
        None \<Rightarrow> None
      | Some (success, stdout) \<Rightarrow>
          if \<not> success then None
          else (case first_line stdout of
                  None \<Rightarrow> None
                | Some l \<Rightarrow>
                    (let p = trim l in if p \<noteq> [] \<and> sw_is_file w p then Some p else None)))"

definition find_daemon_binary :: "SearchWorld \<Rightarrow> string option" where
  "find_daemon_binary w =
     (case find (sw_is_file w) (well_known_paths w) of
        Some c \<Rightarrow> Some c
      | None \<Rightarrow>
          (let sibling = map_option (\<lambda>dir. join_path w dir (daemon_filename (sw_windows w))) (sw_exe_dir w) in
           case sibling of
             Some s \<Rightarrow> if sw_is_file w s then Some s else lookup_on_path w
           | None \<Rightarrow> lookup_on_path w))"

section \<open>The child's settings\<close>

record ChildCommand =
  cm_program :: string
  cm_args :: "string list"
  cm_creation_flags :: "u32 option"
  cm_process_group :: "nat option"
  cm_stdout_null :: bool
  cm_stderr_file :: "string option"

definition command_new :: "string \<Rightarrow> ChildCommand" where
  "command_new bin =
     \<lparr>cm_program = bin, cm_args = [], cm_creation_flags = None, cm_process_group = None,
      cm_stdout_null = False, cm_stderr_file = None\<rparr>"

text \<open>The log beside the configuration: none without a project directory or when it cannot be made.\<close>

definition daemon_log_path :: "bool \<Rightarrow> string option \<Rightarrow> (string \<Rightarrow> bool) \<Rightarrow> string option" where
  "daemon_log_path windows config_dir make_dir =
     (case config_dir of
        None \<Rightarrow> None
      | Some dir \<Rightarrow>
          if make_dir dir
          then Some ((if windows then windows_join else unix_join) dir ''daemon.stderr.log'') else None)"

definition configure_detached :: "bool \<Rightarrow> string option \<Rightarrow> (string \<Rightarrow> bool) \<Rightarrow> ChildCommand \<Rightarrow> ChildCommand" where
  "configure_detached windows log can_open cmd =
     (let cmd1 = (if windows then cmd\<lparr>cm_creation_flags := Some 0x08000000\<rparr>
                  else cmd\<lparr>cm_process_group := Some 0\<rparr>);
          cmd2 = cmd1\<lparr>cm_stdout_null := True\<rparr>
      in case log of
           None \<Rightarrow> cmd2
         | Some p \<Rightarrow> if can_open p then cmd2\<lparr>cm_stderr_file := Some p\<rparr> else cmd2)"

section \<open>Processes\<close>

record Processes =
  pr_alive :: "nat set"
  pr_next :: nat

text \<open>
  What the operating system answers during a call: whether asking for the state of the child works,
  and the outcome of spawning. A spawned process gets a fresh number.
\<close>

record ProcWorld =
  pw_wait_ok :: bool
  pw_spawn :: "ChildCommand \<Rightarrow> string + unit"
  pw_configure :: "ChildCommand \<Rightarrow> ChildCommand"

record DaemonSupervisor =
  su_child :: "nat option"
  su_binary :: "string option"
  su_last_launch_attempt :: "nat option"

definition supervisor_new :: "SearchWorld \<Rightarrow> DaemonSupervisor" where
  "supervisor_new w =
     \<lparr>su_child = None, su_binary = find_daemon_binary w, su_last_launch_attempt = None\<rparr>"

definition is_running :: "ProcWorld \<Rightarrow> Processes \<Rightarrow> DaemonSupervisor \<Rightarrow> bool" where
  "is_running w ps sv =
     (case su_child sv of Some pid \<Rightarrow> pw_wait_ok w \<and> pid \<in> pr_alive ps | None \<Rightarrow> False)"

definition ensure_running ::
  "ProcWorld \<Rightarrow> nat \<Rightarrow> Processes \<times> DaemonSupervisor \<Rightarrow> (string + unit) \<times> Processes \<times> DaemonSupervisor" where
  "ensure_running w now st =
     (case st of (ps, sv) \<Rightarrow>
        if is_running w ps sv then (Ok (), ps, sv)
        else (let sv1 = sv\<lparr>su_last_launch_attempt := Some now\<rparr> in
              case su_binary sv of
                None \<Rightarrow> (Err ''daemon binary not found - install InputSync or run from a build output dir'', ps, sv1)
              | Some bin \<Rightarrow>
                  (let cmd = pw_configure w ((command_new bin)\<lparr>cm_args := [''run'']\<rparr>) in
                   case pw_spawn w cmd of
                     Inl e \<Rightarrow> (Err (''spawn daemon at '' @ bin @ '': '' @ e), ps, sv1)
                   | Inr _ \<Rightarrow>
                       (Ok (), ps\<lparr>pr_alive := insert (pr_next ps) (pr_alive ps), pr_next := Suc (pr_next ps)\<rparr>,
                        sv1\<lparr>su_child := Some (pr_next ps)\<rparr>))))"

text \<open>
  Killing and reaping: \<open>wait\<close> returns when the child is gone, and not before.
\<close>

definition supervisor_stop :: "Processes \<times> DaemonSupervisor \<Rightarrow> Processes \<times> DaemonSupervisor" where
  "supervisor_stop st =
     (case st of (ps, sv) \<Rightarrow>
        (case su_child sv of
           None \<Rightarrow> (ps, sv)
         | Some pid \<Rightarrow> (ps\<lparr>pr_alive := pr_alive ps - {pid}\<rparr>, sv\<lparr>su_child := None\<rparr>)))"

definition restart ::
  "ProcWorld \<Rightarrow> nat \<Rightarrow> Processes \<times> DaemonSupervisor \<Rightarrow> (string + unit) \<times> Processes \<times> DaemonSupervisor" where
  "restart w now st = ensure_running w now (supervisor_stop st)"

text \<open>\<open>last.elapsed().as_secs()\<close>.\<close>

definition elapsed_secs :: "nat \<Rightarrow> nat \<Rightarrow> nat" where
  "elapsed_secs now t = (now - t) div 10 ^ 9"

definition ensure_running_throttled ::
  "ProcWorld \<Rightarrow> nat \<Rightarrow> u64 \<Rightarrow> Processes \<times> DaemonSupervisor \<Rightarrow>
   (string + unit) \<times> Processes \<times> DaemonSupervisor" where
  "ensure_running_throttled w now cooldown_secs st =
     (case st of (ps, sv) \<Rightarrow>
        if is_running w ps sv then (Ok (), ps, sv)
        else (case su_last_launch_attempt sv of
                Some t \<Rightarrow>
                  if elapsed_secs now t < unat cooldown_secs then (Ok (), ps, sv)
                  else ensure_running w now (ps, sv)
              | None \<Rightarrow> ensure_running w now (ps, sv)))"

text \<open>The drop of the supervisor, when the interface closes.\<close>

definition supervisor_drop :: "Processes \<times> DaemonSupervisor \<Rightarrow> Processes" where
  "supervisor_drop st = fst (supervisor_stop st)"

section \<open>The life of the child\<close>

text \<open>
  What happens to the processes: a frame of the interface that may launch the daemon, a restart, and
  a process that ends by itself. The first component is the time of the last call; \<open>answers\<close> says which
  answers of the operating system are considered.
\<close>

type_synonym supervised = "nat \<times> Processes \<times> DaemonSupervisor"

inductive supervise :: "(ProcWorld \<Rightarrow> bool) \<Rightarrow> supervised \<Rightarrow> supervised \<Rightarrow> bool" for answers where
  frame: "answers w \<Longrightarrow> t \<le> now \<Longrightarrow> ensure_running_throttled w now 3 (ps, sv) = (r, ps', sv') \<Longrightarrow>
    supervise answers (t, ps, sv) (now, ps', sv')"
| restart: "answers w \<Longrightarrow> t \<le> now \<Longrightarrow> restart w now (ps, sv) = (r, ps', sv') \<Longrightarrow>
    supervise answers (t, ps, sv) (now, ps', sv')"
| exits: "supervise answers (t, ps, sv) (t, ps\<lparr>pr_alive := pr_alive ps - {pid}\<rparr>, sv)"

inductive_cases superviseE: "supervise answers (t, ps, sv) s'"

definition only_child :: "Processes \<Rightarrow> DaemonSupervisor \<Rightarrow> bool" where
  "only_child ps sv \<longleftrightarrow> pr_alive ps \<subseteq> set_option (su_child sv)"

lemma ensure_running_cases:
  assumes "ensure_running w now (ps, sv) = (r, ps', sv')"
  obtains (running) "is_running w ps sv" "r = Ok ()" "ps' = ps" "sv' = sv"
    | (failed) e where "\<not> is_running w ps sv" "r = Err e" "ps' = ps"
        "sv' = sv\<lparr>su_last_launch_attempt := Some now\<rparr>"
    | (launched) "\<not> is_running w ps sv" "r = Ok ()"
        "ps' = ps\<lparr>pr_alive := insert (pr_next ps) (pr_alive ps), pr_next := Suc (pr_next ps)\<rparr>"
        "sv' = sv\<lparr>su_last_launch_attempt := Some now, su_child := Some (pr_next ps)\<rparr>"
  using assms by (auto simp: ensure_running_def Let_def split: if_splits option.splits sum.splits)

lemma only_child_not_running:
  assumes "only_child ps sv" and "pw_wait_ok w" and "\<not> is_running w ps sv"
  shows "pr_alive ps = {}"
  using assms by (auto simp: only_child_def is_running_def split: option.splits)

lemma ensure_running_only_child:
  assumes "only_child ps sv" and "pw_wait_ok w" and "ensure_running w now (ps, sv) = (r, ps', sv')"
  shows "only_child ps' sv'"
  using assms(3)
proof (cases rule: ensure_running_cases)
  case launched
  with only_child_not_running [OF assms(1,2)] show ?thesis by (simp add: only_child_def)
qed (use assms(1) in \<open>simp_all add: only_child_def\<close>)

lemma stop_only_child:
  "only_child ps sv \<Longrightarrow> supervisor_stop (ps, sv) = (ps', sv') \<Longrightarrow> pr_alive ps' = {} \<and> only_child ps' sv'"
  by (auto simp: supervisor_stop_def only_child_def split: option.splits)

lemma throttled_cases:
  assumes "ensure_running_throttled w now c (ps, sv) = (r, ps', sv')"
  obtains (idle) "r = Ok ()" "ps' = ps" "sv' = sv"
    | (attempt) "\<not> is_running w ps sv" "ensure_running w now (ps, sv) = (r, ps', sv')"
        "\<And>t. su_last_launch_attempt sv = Some t \<Longrightarrow> unat c \<le> elapsed_secs now t"
proof (cases "is_running w ps sv \<or> (\<exists>t. su_last_launch_attempt sv = Some t \<and> elapsed_secs now t < unat c)")
  case True
  with assms show thesis
    by (intro idle) (auto simp: ensure_running_throttled_def split: if_splits)
next
  case False
  with assms show thesis
    by (intro attempt) (auto simp: ensure_running_throttled_def not_less split: option.splits)
qed

interpretation supervision: invariant_system
  "\<lambda>(t, ps, sv). pr_alive ps = {} \<and> su_child sv = None" "supervise pw_wait_ok" "\<lambda>(t, ps, sv). only_child ps sv"
proof
  show "case s of (t, ps, sv) \<Rightarrow> only_child ps sv"
    if "case s of (t, ps, sv) \<Rightarrow> pr_alive ps = {} \<and> su_child sv = None" for s :: supervised
    using that by (cases s) (simp add: only_child_def)
  show "case s' of (t, ps, sv) \<Rightarrow> only_child ps sv"
    if inv: "case s of (t, ps, sv) \<Rightarrow> only_child ps sv" and step: "supervise pw_wait_ok s s'" for s s'
  proof -
    obtain t ps sv where s: "s = (t, ps, sv)" by (cases s)
    from step [unfolded s] show ?thesis
    proof cases
      case (frame w now r ps' sv')
      from frame(4) show ?thesis
        by (cases rule: throttled_cases)
          (use inv s frame ensure_running_only_child [of ps sv w now r ps' sv'] in auto)
    next
      case (restart w now r ps' sv')
      obtain ps1 sv1 where stop: "supervisor_stop (ps, sv) = (ps1, sv1)" by force
      with stop_only_child [of ps sv ps1 sv1] inv s have "only_child ps1 sv1" by simp
      with restart stop show ?thesis
        using ensure_running_only_child [of ps1 sv1 w now r ps' sv'] by (simp add: restart_def)
    qed (use inv s in \<open>auto simp: only_child_def\<close>)
  qed
qed

section \<open>Properties\<close>

definition sample_proc :: ProcWorld where
  "sample_proc = \<lparr>pw_wait_ok = True, pw_spawn = (\<lambda>_. Ok ()), pw_configure = (\<lambda>c. c)\<rparr>"

definition sample_supervisor :: DaemonSupervisor where
  "sample_supervisor =
     \<lparr>su_child = None, su_binary = Some ''/usr/bin/inputsync-daemon'', su_last_launch_attempt = None\<rparr>"

definition no_processes :: Processes where
  "no_processes = \<lparr>pr_alive = {}, pr_next = 0\<rparr>"

text \<open>
  C30: However the interface launches, relaunches and restarts the daemon, and however its child dies
  meanwhile, there is never more than one living child, and none is left when the interface closes - as
  long as the operating system answers when it is asked whether the child is alive.
\<close>

theorem one_daemon_at_most:
  assumes "pr_alive ps0 = {}" and "su_child sv0 = None" and "(supervise pw_wait_ok)\<^sup>*\<^sup>* (t0, ps0, sv0) (t, ps, sv)"
  shows "card (pr_alive ps) \<le> 1 \<and> pr_alive (supervisor_drop (ps, sv)) = {}"
proof -
  have "only_child ps sv"
    using supervision.inv_reachable [OF _ assms(3)] assms(1,2) by simp
  moreover obtain ps' sv' where "supervisor_stop (ps, sv) = (ps', sv')" by force
  ultimately have "pr_alive (supervisor_drop (ps, sv)) = {}"
    using stop_only_child [of ps sv ps' sv'] by (simp add: supervisor_drop_def)
  moreover have "card (set_option (su_child sv)) \<le> 1" by (cases "su_child sv") simp_all
  then have "card (pr_alive ps) \<le> 1"
    using \<open>only_child ps sv\<close> card_mono [of "set_option (su_child sv)" "pr_alive ps"]
    by (simp add: only_child_def)
  ultimately show ?thesis by simp
qed

theorem one_daemon_at_most_witness:
  "let (r, ps, sv) = ensure_running_throttled sample_proc 0 3 (no_processes, sample_supervisor)
   in r = Ok () \<and> pr_alive ps = {0} \<and> pr_alive (supervisor_drop (ps, sv)) = {}"
proof -
  let ?ps = "no_processes\<lparr>pr_alive := {0}, pr_next := 1\<rparr>"
  let ?sv = "sample_supervisor\<lparr>su_last_launch_attempt := Some 0, su_child := Some 0\<rparr>"
  have f: "ensure_running_throttled sample_proc 0 3 (no_processes, sample_supervisor) = (Ok (), ?ps, ?sv)"
    by (simp add: ensure_running_throttled_def ensure_running_def is_running_def sample_proc_def
        sample_supervisor_def no_processes_def)
  have "supervise pw_wait_ok (0, no_processes, sample_supervisor) (0, ?ps, ?sv)"
    by (rule supervise.frame [OF _ _ f]) (simp_all add: sample_proc_def)
  then have "(supervise pw_wait_ok)\<^sup>*\<^sup>* (0, no_processes, sample_supervisor) (0, ?ps, ?sv)" by (rule r_into_rtranclp)
  from one_daemon_at_most [OF _ _ this] f show ?thesis
    by (simp add: no_processes_def sample_supervisor_def)
qed

text \<open>
  When that question fails, the child counts as gone although it lives: a frame launches a second daemon,
  and the first, whose handle is overwritten, is never stopped, not even when the interface closes.
\<close>

theorem failed_wait_second_daemon:
  "\<exists>ps sv. (supervise (\<lambda>w. True))\<^sup>*\<^sup>* (0, no_processes, sample_supervisor) (3 * 10 ^ 9, ps, sv) \<and>
     pr_alive ps = {0, 1} \<and> pr_alive (supervisor_drop (ps, sv)) = {0}"
proof -
  let ?ps1 = "no_processes\<lparr>pr_alive := {0}, pr_next := 1\<rparr>"
  let ?sv1 = "sample_supervisor\<lparr>su_last_launch_attempt := Some 0, su_child := Some 0\<rparr>"
  let ?ps2 = "no_processes\<lparr>pr_alive := {1, 0}, pr_next := 2\<rparr>"
  let ?sv2 = "sample_supervisor\<lparr>su_last_launch_attempt := Some (3 * 10 ^ 9), su_child := Some 1\<rparr>"
  note defs = ensure_running_throttled_def ensure_running_def is_running_def sample_proc_def
    sample_supervisor_def no_processes_def elapsed_secs_def
  have "ensure_running_throttled sample_proc 0 3 (no_processes, sample_supervisor) = (Ok (), ?ps1, ?sv1)"
    by (simp add: defs)
  from supervise.frame [OF _ _ this] have 1: "supervise (\<lambda>w. True) (0, no_processes, sample_supervisor) (0, ?ps1, ?sv1)"
    by simp
  have "ensure_running_throttled (sample_proc\<lparr>pw_wait_ok := False\<rparr>) (3 * 10 ^ 9) 3 (?ps1, ?sv1) = (Ok (), ?ps2, ?sv2)"
    by (simp add: defs)
  from supervise.frame [OF _ _ this] have 2: "supervise (\<lambda>w. True) (0, ?ps1, ?sv1) (3 * 10 ^ 9, ?ps2, ?sv2)"
    by simp
  from 1 2 have "(supervise (\<lambda>w. True))\<^sup>*\<^sup>* (0, no_processes, sample_supervisor) (3 * 10 ^ 9, ?ps2, ?sv2)"
    by (meson converse_rtranclp_into_rtranclp r_into_rtranclp)
  then show ?thesis
    by (intro exI [of _ ?ps2] exI [of _ ?sv2]) (auto simp: supervisor_drop_def supervisor_stop_def)
qed

text \<open>
  A sequence of frames: before each the child may have died. The attempts are the times at which a
  launch was tried.
\<close>

fun auto_frames ::
  "u64 \<Rightarrow> (bool \<times> ProcWorld \<times> nat) list \<Rightarrow> Processes \<times> DaemonSupervisor \<Rightarrow> nat list" where
  "auto_frames c [] st = []"
| "auto_frames c ((died, w, now) # fs) (ps, sv) =
     (let ps1 = (if died then ps\<lparr>pr_alive := pr_alive ps - set_option (su_child sv)\<rparr> else ps) in
      case ensure_running_throttled w now c (ps1, sv) of
        (r, ps2, sv2) \<Rightarrow>
          (if su_last_launch_attempt sv2 \<noteq> su_last_launch_attempt sv then [now] else []) @
          auto_frames c fs (ps2, sv2))"

lemma ensure_running_attempt:
  "ensure_running w now (ps, sv) = (r, ps', sv') \<Longrightarrow> \<not> is_running w ps sv \<Longrightarrow>
   su_last_launch_attempt sv' = Some now"
  by (erule ensure_running_cases) simp_all

lemma elapsed_secs_le: "k \<le> elapsed_secs now t \<Longrightarrow> 0 < k \<Longrightarrow> t + k * 10 ^ 9 \<le> now"
proof -
  assume "k \<le> elapsed_secs now t" "0 < k"
  then have "k * 10 ^ 9 \<le> now - t"
    by (simp add: elapsed_secs_def less_eq_div_iff_mult_less_eq)
  with \<open>0 < k\<close> show ?thesis by simp
qed

text \<open>
  The interface does not hammer on a daemon that will not start: two attempts to launch it from
  consecutive frames, or from any frames with no attempt in between, are at least the cooldown apart,
  whether the first one failed or its child died at once.
\<close>

theorem launches_spaced:
  assumes "0 < c"
  shows "sorted_wrt (\<lambda>a b. a + unat c * 10 ^ 9 \<le> b) (auto_frames c fs (ps, sv))"
proof -
  have pos: "0 < unat c" using assms by (simp add: word_greater_zero_iff unat_gt_0)
  have "sorted_wrt (\<lambda>a b. a + unat c * 10 ^ 9 \<le> b) (auto_frames c fs (ps, sv)) \<and>
      (\<forall>t. su_last_launch_attempt sv = Some t \<longrightarrow>
        (\<forall>b \<in> set (auto_frames c fs (ps, sv)). t + unat c * 10 ^ 9 \<le> b))"
  proof (induction fs arbitrary: ps sv)
    case (Cons f fs)
    obtain died w now where f: "f = (died, w, now)" by (cases f)
    let ?ps1 = "if died then ps\<lparr>pr_alive := pr_alive ps - set_option (su_child sv)\<rparr> else ps"
    obtain r ps2 sv2 where e: "ensure_running_throttled w now c (?ps1, sv) = (r, ps2, sv2)"
      by (metis prod.exhaust)
    from e show ?case
    proof (cases rule: throttled_cases)
      case idle
      with e f Cons.IH [of ps2 sv2] show ?thesis by (simp add: Let_def)
    next
      case attempt
      have last: "su_last_launch_attempt sv2 = Some now"
        by (rule ensure_running_attempt [OF attempt(2,1)])
      have old: "t + unat c * 10 ^ 9 \<le> now" if "su_last_launch_attempt sv = Some t" for t
        using elapsed_secs_le [OF attempt(3) [OF that] pos] .
      have later: "\<forall>b \<in> set (auto_frames c fs (ps2, sv2)). now + unat c * 10 ^ 9 \<le> b"
        using Cons.IH [of ps2 sv2] last by simp
      with old e f Cons.IH [of ps2 sv2] last show ?thesis
        by (fastforce simp: Let_def)
    qed
  qed simp
  then show ?thesis by blast
qed

theorem launches_spaced_witness:
  "auto_frames 3 [(False, sample_proc, 0), (True, sample_proc, 10 ^ 9), (True, sample_proc, 3 * 10 ^ 9)]
     (no_processes, sample_supervisor) = [0, 3 * 10 ^ 9] \<and>
   sorted_wrt (\<lambda>a b. a + unat (3 :: u64) * 10 ^ 9 \<le> b) (auto_frames 3
     [(False, sample_proc, 0), (True, sample_proc, 10 ^ 9), (True, sample_proc, 3 * 10 ^ 9)]
     (no_processes, sample_supervisor))"
proof
  show "auto_frames 3 [(False, sample_proc, 0), (True, sample_proc, 10 ^ 9), (True, sample_proc, 3 * 10 ^ 9)]
     (no_processes, sample_supervisor) = [0, 3 * 10 ^ 9]"
    by (simp add: ensure_running_throttled_def ensure_running_def is_running_def sample_proc_def
        sample_supervisor_def no_processes_def elapsed_secs_def)
qed (rule launches_spaced, simp)

lemma restart_outcome:
  assumes "only_child ps sv" and "pw_wait_ok w" and "\<forall>pid \<in> pr_alive ps. pid < pr_next ps"
    and "restart w now (ps, sv) = (r, ps', sv')"
  shows "(\<forall>pid. su_child sv = Some pid \<longrightarrow> pid \<in> pr_alive ps \<longrightarrow> pid \<notin> pr_alive ps') \<and>
    (is_ok r \<longleftrightarrow> is_running w ps' sv') \<and>
    (is_ok r \<longrightarrow> pr_alive ps' = {pr_next ps} \<and> su_child sv' = Some (pr_next ps)) \<and>
    (\<not> is_ok r \<longrightarrow> pr_alive ps' = {})"
proof -
  obtain ps1 sv1 where stop: "supervisor_stop (ps, sv) = (ps1, sv1)" by force
  then have e: "ensure_running w now (ps1, sv1) = (r, ps', sv')"
    using assms(4) by (simp add: restart_def)
  have none: "su_child sv1 = None" "pr_next ps1 = pr_next ps"
    using stop by (auto simp: supervisor_stop_def split: option.splits)
  have empty: "pr_alive ps1 = {}" using stop_only_child [OF assms(1) stop] by simp
  from e show ?thesis
  proof (cases rule: ensure_running_cases)
    case running
    with none show ?thesis by (simp add: is_running_def)
  next
    case failed
    with none empty show ?thesis by (simp add: is_running_def)
  next
    case launched
    with none empty assms(2,3) show ?thesis by (auto simp: is_running_def)
  qed
qed

text \<open>
  A restart ends the old daemon whatever its outcome: it succeeds exactly when a daemon runs
  afterwards, a new process and the only one; when it fails none is left.
\<close>

theorem restart_replaces_daemon:
  assumes "only_child ps sv" and "pw_wait_ok w" and "\<forall>pid \<in> pr_alive ps. pid < pr_next ps"
    and "restart w now (ps, sv) = (r, ps', sv')"
  shows "(\<forall>pid. su_child sv = Some pid \<longrightarrow> pid \<in> pr_alive ps \<longrightarrow> pid \<notin> pr_alive ps') \<and>
    (is_ok r \<longleftrightarrow> is_running w ps' sv') \<and>
    (is_ok r \<longrightarrow> pr_alive ps' = {pr_next ps} \<and> su_child sv' = Some (pr_next ps)) \<and>
    (\<not> is_ok r \<longrightarrow> pr_alive ps' = {})"
  using assms by (rule restart_outcome)

theorem restart_replaces_daemon_witness:
  "let ps = \<lparr>pr_alive = {4}, pr_next = 5\<rparr>; sv = sample_supervisor\<lparr>su_child := Some 4\<rparr>;
       (r, ps', sv') = restart sample_proc 7 (ps, sv)
   in is_running sample_proc ps' sv' \<and> pr_alive ps' = {5}"
proof -
  let ?ps = "\<lparr>pr_alive = {4}, pr_next = 5\<rparr>"
  let ?sv = "sample_supervisor\<lparr>su_child := Some 4\<rparr>"
  let ?r = "restart sample_proc 7 (?ps, ?sv)"
  have r: "?r = (fst ?r, fst (snd ?r), snd (snd ?r))" by simp
  have "fst ?r = Ok ()"
    by (simp add: restart_def supervisor_stop_def ensure_running_def is_running_def sample_proc_def sample_supervisor_def)
  then show ?thesis
    using restart_replaces_daemon [OF _ _ _ r]
    by (simp add: Let_def only_child_def sample_proc_def case_prod_unfold)
qed

text \<open>
  The interface knows its own child only: a daemon that was started in another way keeps running, but
  the new one takes its socket over, and no front end reaches the old one any more.
\<close>

theorem launch_takes_socket_over:
  assumes "su_child sv = None" and "su_binary sv = Some bin" and "pw_wait_ok w" and "pw_spawn w = (\<lambda>_. Ok ())"
    and "socks path = Some old" and "alive old" and "alive me"
    and "sw_remove lw = Ok ()" and "sw_create_dir lw = (\<lambda>_. Ok ())" and "sw_bind lw = Ok ()"
  shows "\<exists>ps' sv'. ensure_running w now (ps, sv) = (Ok (), ps', sv') \<and> su_child sv' = Some (pr_next ps)"
    and "\<exists>socks'. listen_unix lw me path socks = (Ok (), socks') \<and> connect_unix alive path socks' = Ok me"
  using assms
  by (simp_all add: ensure_running_def is_running_def Let_def listen_unix_def connect_unix_def split: option.split)

section \<open>The search\<close>

lemma lookup_on_path_file: "lookup_on_path w = Some p \<Longrightarrow> sw_is_file w p"
  by (auto simp: lookup_on_path_def Let_def split: option.splits if_splits prod.splits)

text \<open>What is found is a file, and an installed daemon is preferred to any other.\<close>

lemma find_daemon_binary_file: "find_daemon_binary w = Some p \<Longrightarrow> sw_is_file w p"
  by (auto simp: find_daemon_binary_def Let_def find_Some_iff dest: lookup_on_path_file
      split: option.splits if_splits)

lemma find_daemon_binary_installed:
  "c \<in> set (well_known_paths w) \<Longrightarrow> sw_is_file w c \<Longrightarrow>
   \<exists>p \<in> set (well_known_paths w). find_daemon_binary w = Some p"
proof -
  assume c: "c \<in> set (well_known_paths w)" "sw_is_file w c"
  then obtain p where p: "find (sw_is_file w) (well_known_paths w) = Some p"
    by (cases "find (sw_is_file w) (well_known_paths w)") (auto simp: find_None_iff)
  then have "p \<in> set (well_known_paths w)" by (auto simp: find_Some_iff)
  with p show ?thesis by (simp add: find_daemon_binary_def)
qed

end
