(* ===== verification/GuiApp.thy ===== *)
theory GuiApp
  imports GuiSupervisor CommandLine
begin

text \<open>
  The graphical interface (\<open>crates/gui/src/main.rs\<close>): its state, a frame of \<open>update\<close> as a function
  from the clicks of the user to what is shown and done, the background tasks that poll the daemon
  and send it requests, and the choice of the role. Of the drawing only what carries information is
  kept: which view is shown, its texts without their icons, and which buttons it has.
\<close>

section \<open>State\<close>

datatype Action =
    ActConnect string "string option"
  | ActDisconnect
  | ActStartServer
  | ActStopServer

record ActionResult =
  ar_ok :: bool
  ar_message :: string

record SharedState =
  sh_status :: "StatusReply option"
  sh_error :: "string option"
  sh_last_action :: "(ActionResult \<times> u64) option"
  sh_action_seq :: u64

definition shared_default :: SharedState where
  "shared_default = \<lparr>sh_status = None, sh_error = None, sh_last_action = None, sh_action_seq = 0\<rparr>"

record InputSyncApp =
  ap_socket_path :: string
  ap_state :: SharedState
  ap_poll_started :: bool
  ap_addr_input :: string
  ap_pin_input :: string
  ap_supervisor :: DaemonSupervisor
  ap_role_decided :: bool
  ap_supervisor_error :: "string option"

definition app_new :: "string \<Rightarrow> SearchWorld \<Rightarrow> bool \<Rightarrow> InputSyncApp" where
  "app_new socket w config_exists =
     \<lparr>ap_socket_path = socket, ap_state = shared_default, ap_poll_started = False, ap_addr_input = [],
      ap_pin_input = [], ap_supervisor = supervisor_new w, ap_role_decided = config_exists,
      ap_supervisor_error = None\<rparr>"

section \<open>Talking to the daemon\<close>

text \<open>
  A connection leads to a peer as in \<open>client_request\<close>; a failure to connect is reported by the path
  alone. \<open>None\<close> is a task that still waits for the answer.
\<close>

type_synonym gui_connect = "string \<Rightarrow> string + (bytes \<Rightarrow> bytes \<times> bool)"

definition send_request ::
  "IpcJson \<Rightarrow> io \<Rightarrow> gui_connect \<Rightarrow> string \<Rightarrow> IpcRequest \<Rightarrow> (string + IpcResponse) option" where
  "send_request j io conn socket req =
     (case conn socket of
        Inl e \<Rightarrow> Some (Err (''connect '' @ socket))
      | Inr peer \<Rightarrow> map_option fst (client_request j io peer req))"

definition poll_once ::
  "IpcJson \<Rightarrow> io \<Rightarrow> gui_connect \<Rightarrow> (IpcResponse \<Rightarrow> string) \<Rightarrow> string \<Rightarrow> (string + StatusReply) option" where
  "poll_once j io conn debug socket =
     (case send_request j io conn socket GetStatus of
        None \<Rightarrow> None
      | Some (Inl e) \<Rightarrow> Some (Err e)
      | Some (Inr (Status s)) \<Rightarrow> Some (Ok s)
      | Some (Inr other) \<Rightarrow> Some (Err (''unexpected response: '' @ debug other)))"

text \<open>What a turn of the poll loop leaves in the shared state: a failure keeps the old status.\<close>

fun poll_update :: "string + StatusReply \<Rightarrow> SharedState \<Rightarrow> SharedState" where
  "poll_update (Inr status) s = s\<lparr>sh_status := Some status, sh_error := None\<rparr>"
| "poll_update (Inl e) s = s\<lparr>sh_error := Some e\<rparr>"

fun action_request :: "Action \<Rightarrow> IpcRequest" where
  "action_request (ActConnect addr fingerprint) = Connect addr fingerprint"
| "action_request ActDisconnect = Disconnect []"
| "action_request ActStartServer = StartServer"
| "action_request ActStopServer = StopServer"

fun action_label :: "Action \<Rightarrow> string" where
  "action_label (ActConnect _ _) = ''Connect''"
| "action_label ActDisconnect = ''Disconnect''"
| "action_label ActStartServer = ''Start server''"
| "action_label ActStopServer = ''Stop server''"

definition action_result :: "(IpcResponse \<Rightarrow> string) \<Rightarrow> Action \<Rightarrow> string + IpcResponse \<Rightarrow> ActionResult" where
  "action_result debug action r =
     (case r of
        Inr OkReply \<Rightarrow> \<lparr>ar_ok = True, ar_message = action_label action @ '' accepted by daemon.''\<rparr>
      | Inr (ErrorReply message) \<Rightarrow> \<lparr>ar_ok = False, ar_message = message\<rparr>
      | Inr other \<Rightarrow> \<lparr>ar_ok = False, ar_message = ''unexpected response: '' @ debug other\<rparr>
      | Inl e \<Rightarrow> \<lparr>ar_ok = False, ar_message = action_label action @ '' failed: '' @ e\<rparr>)"

definition finish_action :: "u64 \<Rightarrow> ActionResult \<Rightarrow> SharedState \<Rightarrow> SharedState" where
  "finish_action now_ms res s =
     s\<lparr>sh_last_action := Some (res, now_ms), sh_action_seq := sh_action_seq s + 1\<rparr>"

section \<open>The role\<close>

text \<open>
  The address of the interface that leads to the outside: the local address of a UDP socket
  connected to a far one, unless it is a loopback or unspecified address.
\<close>

record LanWorld =
  lw_bind :: bool
  lw_connect :: bool
  lw_local_ip :: "string option"
  lw_loopback :: bool
  lw_unspecified :: bool

definition local_lan_ip :: "LanWorld \<Rightarrow> string" where
  "local_lan_ip w =
     (if lw_bind w \<and> lw_connect w
      then (case lw_local_ip w of
              Some ip \<Rightarrow> if \<not> lw_loopback w \<and> \<not> lw_unspecified w then ip else ''unknown''
            | None \<Rightarrow> ''unknown'')
      else ''unknown'')"

record GuiWorld =
  gw_proc :: ProcWorld
  gw_config_path :: "Error + string"
  gw_from_toml :: "string \<Rightarrow> string + Config"
  gw_to_toml :: "Config \<Rightarrow> string + string"
  gw_env :: "string \<Rightarrow> string option"
  gw_save :: SaveWorld
  gw_log :: "string option"
  gw_lan :: LanWorld

record Gui =
  gu_app :: InputSyncApp
  gu_procs :: Processes
  gu_file :: ConfigFile

text \<open>The inner closure of \<open>apply_role_choice\<close>: it stops at the first error.\<close>

definition write_role :: "GuiWorld \<Rightarrow> ServerRole \<Rightarrow> ConfigFile \<Rightarrow> (string + unit) \<times> ConfigFile" where
  "write_role w role file_state =
     (case gw_config_path w of
        Inl e \<Rightarrow> (Err (''config path: '' @ error_display e), file_state)
      | Inr path \<Rightarrow>
          (let cfg = config_load_or_default (gw_from_toml w) (gw_env w) path file_state in
           case config_save (gw_to_toml w) (gw_save w) (cfg\<lparr>cfg_role := role\<rparr>) file_state of
             (r, file_state') \<Rightarrow> (map_err (\<lambda>e. ''save config: '' @ error_display e) r, file_state')))"

definition apply_role_choice :: "GuiWorld \<Rightarrow> nat \<Rightarrow> ServerRole \<Rightarrow> Gui \<Rightarrow> Gui" where
  "apply_role_choice w now role g =
     (case write_role w role (gu_file g) of
        (Inl e, file_state) \<Rightarrow>
          g\<lparr>gu_file := file_state, gu_app := (gu_app g)\<lparr>ap_supervisor_error := Some e\<rparr>\<rparr>
      | (Inr _, file_state) \<Rightarrow>
          (case restart (gw_proc w) now (gu_procs g, ap_supervisor (gu_app g)) of
             (r, ps, sv) \<Rightarrow>
               g\<lparr>gu_file := file_state, gu_procs := ps,
                 gu_app :=
                   (case r of
                      Inr _ \<Rightarrow> (gu_app g)\<lparr>ap_supervisor := sv, ap_role_decided := True, ap_supervisor_error := None\<rparr>
                    | Inl e \<Rightarrow> (gu_app g)\<lparr>ap_supervisor := sv, ap_supervisor_error := Some e\<rparr>)\<rparr>))"

section \<open>The panels\<close>

text \<open>The buttons of all views; a view looks at its own.\<close>

record Clicks =
  ck_change_role :: bool
  ck_server_card :: bool
  ck_client_card :: bool
  ck_retry :: bool
  ck_restart :: bool
  ck_connect :: bool
  ck_disconnect :: bool
  ck_run_or_stop :: bool
  ck_copy :: bool

definition no_clicks :: Clicks where
  "no_clicks = \<lparr>ck_change_role = False, ck_server_card = False, ck_client_card = False, ck_retry = False,
     ck_restart = False, ck_connect = False, ck_disconnect = False, ck_run_or_stop = False, ck_copy = False\<rparr>"

datatype gui_effect = StartPollLoop | Dispatch Action | CopyText string

text \<open>Digits and units: hours only when there are any, then minutes likewise.\<close>

definition humantime :: "u64 \<Rightarrow> string" where
  "humantime secs =
     (let h = secs div 3600; m = (secs mod 3600) div 60; s = secs mod 60 in
      if h > 0 then show_nat (unat h) @ ''h '' @ show_nat (unat m) @ ''m '' @ show_nat (unat s) @ ''s''
      else if m > 0 then show_nat (unat m) @ ''m '' @ show_nat (unat s) @ ''s''
      else show_nat (unat s) @ ''s'')"

text \<open>A long fingerprint with its middle replaced by an ellipsis.\<close>

definition abbreviate :: "nat \<Rightarrow> string \<Rightarrow> string" where
  "abbreviate n fp =
     (if 24 < length fp then take n fp @ ''...'' @ drop (length fp - 8) fp else fp)"

text \<open>The connected peers: a card for each of them, or a notice that there is none.\<close>

record PeerCard =
  pc_name :: string
  pc_peer_id :: PeerId
  pc_rtt :: string
  pc_remote :: string
  pc_connected :: string

definition peer_card :: "PeerSummary \<Rightarrow> PeerCard" where
  "peer_card p =
     \<lparr>pc_name = ps_name p, pc_peer_id = ps_peer_id p,
      pc_rtt = ''rtt '' @ show_nat (unat (ps_last_rtt_ms p)) @ ''ms'',
      pc_remote = ''remote '' @ ps_remote_addr p,
      pc_connected = ''connected '' @ humantime (of_nat (ps_connected_secs p))\<rparr>"

datatype peers_view = NoPeers string | PeerCards "PeerCard list"

definition peers_section :: "string \<Rightarrow> string \<Rightarrow> PeerSummary list \<Rightarrow> string \<times> peers_view" where
  "peers_section heading notice peers =
     (heading @ '' ('' @ show_nat (length peers) @ '')'',
      if peers = [] then NoPeers notice else PeerCards (map peer_card peers))"

datatype panel =
    ClientPanel "string \<times> peers_view"
  | ServerPanel bool string string string "string \<times> peers_view"

text \<open>
  The client's form: the effects of its buttons and the shared state, with the message of an empty
  address.
\<close>

definition client_panel ::
  "u64 \<Rightarrow> Clicks \<Rightarrow> InputSyncApp \<Rightarrow> StatusReply \<Rightarrow> panel \<times> gui_effect list \<times> InputSyncApp" where
  "client_panel now_ms ck app status =
     (let addr = trim (ap_addr_input app);
          fp = (let t = trim (ap_pin_input app) in if t = [] then None else Some t);
          missing = ck_connect ck \<and> addr = [];
          app1 = (if missing
                  then app\<lparr>ap_state := (ap_state app)\<lparr>sh_last_action :=
                         Some (\<lparr>ar_ok = False, ar_message = ''Enter a server address first.''\<rparr>, now_ms)\<rparr>\<rparr>
                  else app)
      in (ClientPanel (peers_section ''Connection'' ''Not connected - fill the form and click Connect.''
             (sr_connected_peers status)),
          (if ck_connect ck \<and> \<not> missing then [Dispatch (ActConnect addr fp)] else []) @
          (if ck_disconnect ck then [Dispatch ActDisconnect] else []),
          app1))"

definition server_panel ::
  "string \<Rightarrow> u64 \<Rightarrow> Clicks \<Rightarrow> InputSyncApp \<Rightarrow> StatusReply \<Rightarrow> panel \<times> gui_effect list \<times> InputSyncApp" where
  "server_panel lan_ip now_ms ck app status =
     (let run = (if ck_run_or_stop ck
                 then [Dispatch (if sr_listening status then ActStopServer else ActStartServer)] else []);
          ip = (case sr_listen_addr status of Some a \<Rightarrow> a | None \<Rightarrow> lan_ip @ ''  (click Run)'');
          app1 = (if ck_copy ck
                  then app\<lparr>ap_state := (ap_state app)\<lparr>sh_last_action :=
                         Some (\<lparr>ar_ok = True, ar_message = ''Fingerprint copied to clipboard.''\<rparr>, now_ms)\<rparr>\<rparr>
                  else app)
      in (ServerPanel (sr_listening status) ip ''24800'' (abbreviate 12 (sr_local_fingerprint status))
            (peers_section ''Clients''
               (if sr_listening status then ''Waiting for a client to connect...''
                else ''Server is not running. Click Run to start.'')
               (sr_connected_peers status)),
          run @ (if ck_copy ck then [CopyText (sr_local_fingerprint status)] else []),
          app1))"

text \<open>The result of the last action, for eight seconds; the snapshot was taken before the panel.\<close>

definition action_status :: "u64 \<Rightarrow> (ActionResult \<times> u64) option \<Rightarrow> ActionResult option" where
  "action_status now_ms last_action =
     (case last_action of
        None \<Rightarrow> None
      | Some (r, ts) \<Rightarrow> (let age = (if ts \<le> now_ms then now_ms - ts else 0) in if age > 8000 then None else Some r))"

definition footer :: "StatusReply \<Rightarrow> string \<times> string" where
  "footer status = (''InputSync v'' @ sr_version status, abbreviate 8 (sr_local_fingerprint status))"

section \<open>A frame\<close>

datatype view =
    RolePicker "string option"
  | LaunchErrorView string
  | UnreachableView string "string option"
  | ConnectingView
  | PanelView panel "ActionResult option" "string \<times> string"

definition role_picked :: "Clicks \<Rightarrow> ServerRole option" where
  "role_picked ck =
     (if ck_client_card ck then Some RoleClient else if ck_server_card ck then Some RoleServer else None)"

definition auto_launch :: "GuiWorld \<Rightarrow> nat \<Rightarrow> Gui \<Rightarrow> Gui" where
  "auto_launch w now g =
     (if ap_role_decided (gu_app g)
      then (case ensure_running_throttled (gw_proc w) now 3 (gu_procs g, ap_supervisor (gu_app g)) of
              (Inl e, ps, sv) \<Rightarrow>
                g\<lparr>gu_procs := ps,
                  gu_app := (gu_app g)\<lparr>ap_supervisor := sv, ap_supervisor_error := Some e\<rparr>\<rparr>
            | (Inr _, ps, sv) \<Rightarrow>
                g\<lparr>gu_procs := ps,
                  gu_app := (gu_app g)\<lparr>ap_supervisor := sv, ap_supervisor_error :=
                    (if is_running (gw_proc w) ps sv then None else ap_supervisor_error (gu_app g))\<rparr>\<rparr>)
      else g)"

text \<open>The two buttons that restart the daemon: one forgets the outcome, one keeps it.\<close>

definition retry_launch :: "GuiWorld \<Rightarrow> nat \<Rightarrow> Gui \<Rightarrow> Gui" where
  "retry_launch w now g =
     (case restart (gw_proc w) now (gu_procs g, ap_supervisor (gu_app g)) of
        (r, ps, sv) \<Rightarrow>
          g\<lparr>gu_procs := ps, gu_app := (gu_app g)\<lparr>ap_supervisor := sv, ap_supervisor_error := None\<rparr>\<rparr>)"

definition restart_daemon :: "GuiWorld \<Rightarrow> nat \<Rightarrow> Gui \<Rightarrow> Gui" where
  "restart_daemon w now g =
     (case restart (gw_proc w) now (gu_procs g, ap_supervisor (gu_app g)) of
        (r, ps, sv) \<Rightarrow>
          g\<lparr>gu_procs := ps, gu_app := (gu_app g)\<lparr>ap_supervisor := sv, ap_supervisor_error :=
              (case r of Inr _ \<Rightarrow> None | Inl e \<Rightarrow> Some e)\<rparr>\<rparr>)"

definition central_panel ::
  "GuiWorld \<Rightarrow> nat \<Rightarrow> u64 \<Rightarrow> Clicks \<Rightarrow> Gui \<Rightarrow> view \<times> gui_effect list \<times> Gui" where
  "central_panel w now now_ms ck g =
     (let app = gu_app g; st = ap_state app in
      case ap_supervisor_error app of
        Some err \<Rightarrow> (LaunchErrorView err, [], if ck_retry ck then retry_launch w now g else g)
      | None \<Rightarrow>
          (case sh_error st of
             Some err \<Rightarrow>
               (UnreachableView err (gw_log w), [], if ck_restart ck then restart_daemon w now g else g)
           | None \<Rightarrow>
               (case sh_status st of
                  None \<Rightarrow> (ConnectingView, [], g)
                | Some status \<Rightarrow>
                    (case (if sr_role status = ''client'' then client_panel now_ms ck app status
                           else server_panel (local_lan_ip (gw_lan w)) now_ms ck app status) of
                       (p, effs, app1) \<Rightarrow>
                         (PanelView p (action_status now_ms (sh_last_action st)) (footer status), effs,
                          g\<lparr>gu_app := app1\<rparr>)))))"

definition gui_update ::
  "GuiWorld \<Rightarrow> nat \<Rightarrow> u64 \<Rightarrow> Clicks \<Rightarrow> Gui \<Rightarrow> view \<times> gui_effect list \<times> Gui" where
  "gui_update w now now_ms ck g =
     (let poll = (if ap_poll_started (gu_app g) then [] else [StartPollLoop]);
          g1 = auto_launch w now (g\<lparr>gu_app := (gu_app g)\<lparr>ap_poll_started := True\<rparr>\<rparr>);
          g2 = (if ck_change_role ck then g1\<lparr>gu_app := (gu_app g1)\<lparr>ap_role_decided := False\<rparr>\<rparr> else g1)
      in if \<not> ap_role_decided (gu_app g2)
         then (RolePicker (ap_supervisor_error (gu_app g2)), poll,
               case role_picked ck of Some role \<Rightarrow> apply_role_choice w now role g2 | None \<Rightarrow> g2)
         else (case central_panel w now now_ms ck g2 of
                 (v, effs, g3) \<Rightarrow> (v, poll @ effs, g3)))"

section \<open>Facts\<close>

lemma auto_launch_running:
  assumes "ap_role_decided (gu_app g)" and "is_running (gw_proc w) (gu_procs g) (ap_supervisor (gu_app g))"
  shows "auto_launch w now g = g\<lparr>gu_app := (gu_app g)\<lparr>ap_supervisor_error := None\<rparr>\<rparr>"
  using assms by (simp add: auto_launch_def ensure_running_throttled_def)

text \<open>A frame of a healthy interface: the daemon runs and the last poll succeeded.\<close>

definition healthy :: "GuiWorld \<Rightarrow> Gui \<Rightarrow> StatusReply \<Rightarrow> bool" where
  "healthy w g status \<longleftrightarrow>
     ap_role_decided (gu_app g) \<and> ap_poll_started (gu_app g) \<and>
     is_running (gw_proc w) (gu_procs g) (ap_supervisor (gu_app g)) \<and>
     sh_error (ap_state (gu_app g)) = None \<and> sh_status (ap_state (gu_app g)) = Some status"

definition panel_of ::
  "GuiWorld \<Rightarrow> u64 \<Rightarrow> Clicks \<Rightarrow> InputSyncApp \<Rightarrow> StatusReply \<Rightarrow> panel \<times> gui_effect list \<times> InputSyncApp" where
  "panel_of w now_ms ck app status =
     (if sr_role status = ''client'' then client_panel now_ms ck app status
      else server_panel (local_lan_ip (gw_lan w)) now_ms ck app status)"

lemma update_healthy:
  assumes "healthy w g status" and "\<not> ck_change_role ck"
    and "panel_of w now_ms ck ((gu_app g)\<lparr>ap_supervisor_error := None\<rparr>) status = (p, effs, app1)"
  shows "gui_update w now now_ms ck g =
    (PanelView p (action_status now_ms (sh_last_action (ap_state (gu_app g)))) (footer status), effs,
     g\<lparr>gu_app := app1\<rparr>)"
proof -
  have same: "g\<lparr>gu_app := gu_app g\<lparr>ap_poll_started := True\<rparr>\<rparr> = g"
    using assms(1) by (simp add: healthy_def)
  show ?thesis
    unfolding gui_update_def same
    using assms auto_launch_running [of g w now]
    by (simp add: healthy_def central_panel_def panel_of_def Let_def)
qed

lemma send_request_answered:
  assumes "request_ok j req" and "handle_request (rw 0) req s = (Some resp, s', effs)" and "response_ok j resp"
  shows "send_request j None (\<lambda>_. Ok (daemon_peer j rw (\<lambda>_. None) s)) socket req = Some (Ok resp)"
  using request_answered(1) [where w = rw, OF assms] by (simp add: send_request_def)

section \<open>Properties\<close>

text \<open>
  C17: The Run button, all the way: on a healthy interface of an idle server a click on Run sends
  exactly the request to start; the daemon starts its session once and answers Ok; the next poll
  brings a status that says so; and the frame after that shows the bound address, offers Stop, and
  reports that the request was accepted.
\<close>

theorem run_button_starts_server:
  assumes "healthy w g st" and "sr_role st \<noteq> ''client''" and "\<not> sr_listening st"
    and "ck = no_clicks\<lparr>ck_run_or_stop := True\<rparr>"
    and "ds_server_controller s = None" and "ds_server_factory s = Some fac"
    and "cfg_role (ds_config s) = RoleServer" and "rw_bind (rw 0) = Ok (ep, Some addr)"
    and "request_ok j StartServer" and "request_ok j GetStatus" and "response_ok j OkReply"
    and "s1 = start_commit ep (Some addr) s" and "st1 = status_of (rw_version (rw 0)) (rw_now (rw 0)) s1"
    and "response_ok j (Status st1)"
    and "gui_update w now ms ck g = (v, effs, g1)"
    and "shared = poll_update (Ok st1) (finish_action ms (action_result debug ActStartServer (Ok OkReply)) (ap_state (gu_app g1)))"
    and "ms \<le> later" and "later - ms \<le> 8000"
  shows "effs = [Dispatch ActStartServer] \<and>
    send_request j None (\<lambda>_. Ok (daemon_peer j rw (\<lambda>_. None) s)) socket (action_request ActStartServer) = Some (Ok OkReply) \<and>
    handle_request (rw 0) (action_request ActStartServer) s = (Some OkReply, s1, [SpawnServerSession ep]) \<and>
    poll_once j None (\<lambda>_. Ok (daemon_peer j rw (\<lambda>_. None) s1)) debug socket = Some (Ok st1) \<and>
    (\<exists>fp peers foot. fst (gui_update w now2 later no_clicks (g1\<lparr>gu_app := (gu_app g1)\<lparr>ap_state := shared\<rparr>\<rparr>)) =
      PanelView (ServerPanel True addr ''24800'' fp peers)
        (Some \<lparr>ar_ok = True, ar_message = ''Start server accepted by daemon.''\<rparr>) foot)"
proof -
  have start: "handle_request (rw 0) StartServer s = (Some OkReply, s1, [SpawnServerSession ep])"
    using assms(5,6,8,12) by (simp add: start_server_def start_check_def reply_of_def)
  have g1: "effs = [Dispatch ActStartServer]" "g1 = g\<lparr>gu_app := (gu_app g)\<lparr>ap_supervisor_error := None\<rparr>\<rparr>"
    using update_healthy [OF assms(1), of ck ms _ _ _ now] assms(2-4,15)
    by (simp_all add: panel_of_def server_panel_def no_clicks_def Let_def)
  let ?g2 = "g1\<lparr>gu_app := (gu_app g1)\<lparr>ap_state := shared\<rparr>\<rparr>"
  have st1: "sr_listening st1" "sr_listen_addr st1 = Some addr" "sr_role st1 = ''server''"
    using assms(7,12,13) by (simp_all add: status_of_def start_commit_def)
  have shared: "sh_error shared = None" "sh_status shared = Some st1"
    "sh_last_action shared = Some (\<lparr>ar_ok = True, ar_message = ''Start server accepted by daemon.''\<rparr>, ms)"
    using assms(16) by (simp_all add: finish_action_def action_result_def)
  have "healthy w ?g2 st1" using assms(1) g1(2) shared by (simp add: healthy_def)
  then have "gui_update w now2 later no_clicks ?g2 =
      (PanelView (ServerPanel True addr ''24800'' (abbreviate 12 (sr_local_fingerprint st1))
          (peers_section ''Clients'' ''Waiting for a client to connect...'' (sr_connected_peers st1)))
        (Some \<lparr>ar_ok = True, ar_message = ''Start server accepted by daemon.''\<rparr>) (footer st1), [],
       ?g2\<lparr>gu_app := (gu_app ?g2)\<lparr>ap_supervisor_error := None\<rparr>\<rparr>)"
    using update_healthy [of w ?g2 st1 no_clicks later _ _ _ now2] st1 shared assms(17,18)
    by (simp add: panel_of_def server_panel_def no_clicks_def action_status_def not_less)
  then show ?thesis
    using g1(1) start send_request_answered [where rw = rw, OF assms(9) start assms(11), of socket]
      send_request_answered [where rw = rw, OF assms(10) _ assms(14), of s1 s1 "[]" socket] assms(13)
    by (auto simp: poll_once_def)
qed

definition sample_gui_world :: GuiWorld where
  "sample_gui_world =
     \<lparr>gw_proc = sample_proc, gw_config_path = Ok ''c.toml'',
      gw_from_toml = (\<lambda>t. if t = ''client'' then Ok ((config_default Map.empty)\<lparr>cfg_role := RoleClient\<rparr>)
                         else Err ''invalid''),
      gw_to_toml = (\<lambda>c. if c = (config_default Map.empty)\<lparr>cfg_role := RoleClient\<rparr> then Ok ''client'' else Err ''no''),
      gw_env = Map.empty, gw_save = \<lparr>svw_create_dir = Ok (), svw_write = None\<rparr>,
      gw_log = None,
      gw_lan = \<lparr>lw_bind = True, lw_connect = True, lw_local_ip = Some ''10.0.0.2'', lw_loopback = False,
                lw_unspecified = False\<rparr>\<rparr>"

text \<open>An interface with a running daemon whose status was just polled.\<close>

definition sample_gui :: "StatusReply \<Rightarrow> Gui" where
  "sample_gui status =
     \<lparr>gu_app = \<lparr>ap_socket_path = ''s'', ap_state = shared_default\<lparr>sh_status := Some status\<rparr>,
        ap_poll_started = True, ap_addr_input = '' 10.0.0.1:24800 '', ap_pin_input = '' AB '',
        ap_supervisor = sample_supervisor\<lparr>su_child := Some 0\<rparr>, ap_role_decided = True,
        ap_supervisor_error = None\<rparr>,
      gu_procs = \<lparr>pr_alive = {0}, pr_next = 1\<rparr>, gu_file = Absent\<rparr>"

lemma sample_gui_healthy: "healthy sample_gui_world (sample_gui status) status"
  by (simp add: healthy_def sample_gui_def sample_gui_world_def is_running_def sample_proc_def
      shared_default_def)

lemma idle_server_role: "cfg_role (ds_config idle_server) = RoleServer"
  by (simp add: idle_server_def daemon_start_def initial_state_def config_default_def)

theorem run_button_starts_server_witness:
  "let st = status_of ''0.1.0'' 5 idle_server; s1 = start_commit 0 (Some ''0.0.0.0:24800'') idle_server;
       j = sample_json [StartServer, GetStatus] [OkReply, Status (status_of ''0.1.0'' 5 s1)]
   in fst (snd (gui_update sample_gui_world 0 0 (no_clicks\<lparr>ck_run_or_stop := True\<rparr>) (sample_gui st))) =
        [Dispatch ActStartServer] \<and>
      poll_once j None (\<lambda>_. Ok (daemon_peer j (\<lambda>_. quiet_world) (\<lambda>_. None) s1)) (\<lambda>_. []) ''s'' =
        Some (Ok (status_of ''0.1.0'' 5 s1))"
proof -
  let ?st = "status_of ''0.1.0'' 5 idle_server"
  let ?s1 = "start_commit 0 (Some ''0.0.0.0:24800'') idle_server"
  let ?j = "sample_json [StartServer, GetStatus] [OkReply, Status (status_of ''0.1.0'' 5 ?s1)]"
  let ?u = "gui_update sample_gui_world 0 0 (no_clicks\<lparr>ck_run_or_stop := True\<rparr>) (sample_gui ?st)"
  have st: "sr_role ?st \<noteq> ''client''" "\<not> sr_listening ?st"
    by (simp_all add: status_of_def idle_server_role idle_server_fields)
  have u: "?u = (fst ?u, fst (snd ?u), snd (snd ?u))" by simp
  have rw: "rw_bind quiet_world = Ok (0, Some ''0.0.0.0:24800'')" "rw_version quiet_world = ''0.1.0''"
    "rw_now quiet_world = 5"
    by (simp_all add: quiet_world_def)
  have json: "request_ok ?j StartServer" "request_ok ?j GetStatus" "response_ok ?j OkReply"
    "response_ok ?j (Status (status_of ''0.1.0'' 5 ?s1))"
    by simp_all
  have st1: "status_of ''0.1.0'' 5 ?s1 = status_of (rw_version quiet_world) (rw_now quiet_world) ?s1"
    by (simp add: rw)
  note r = run_button_starts_server [where rw = "\<lambda>_. quiet_world" and later = 0 and debug = "\<lambda>_. []"
      and socket = "''s''", OF sample_gui_healthy st refl idle_server_fields(1,6) idle_server_role rw(1)
      json(1-3) refl st1 json(4) u refl]
  have "(0 :: u64) \<le> 0" "(0 :: u64) - 0 \<le> 8000" by simp_all
  from r [OF this] show ?thesis unfolding Let_def by blast
qed

text \<open>
  What is typed into the connection form reaches the dial unchanged but for surrounding blanks:
  with an address, Connect sends one request; the daemon of a client dials that address, pinned to
  exactly the fingerprint that was typed, or with the configured pins when the field is blank. With
  no address nothing is sent, and the user is told.
\<close>

theorem connect_button_dials:
  assumes "healthy w g st" and "sr_role st = ''client''" and "ck = no_clicks\<lparr>ck_connect := True\<rparr>"
    and "gui_update w now ms ck g = (v, effs, g1)"
    and "ds_client_controller s" and "ds_client_base s = Some cfg"
    and "addr = trim (ap_addr_input (gu_app g))" and "pin = trim (ap_pin_input (gu_app g))"
    and "target_of (rw_resolver rw) addr = Ok target"
  shows "if addr = [] then effs = [] \<and>
      sh_last_action (ap_state (gu_app g1)) = Some (\<lparr>ar_ok = False, ar_message = ''Enter a server address first.''\<rparr>, ms)
    else \<exists>act. effs = [Dispatch act] \<and>
      handle_request rw (action_request act) s = (Some OkReply, s,
        [DialEffect (cfg\<lparr>cc_server_addr := target,
           cc_trusted_fingerprints := (if pin = [] then cc_trusted_fingerprints cfg else [pin])\<rparr>)])"
  using update_healthy [OF assms(1), of ck ms _ _ _ now] assms(2-9)
  by (auto simp: panel_of_def client_panel_def no_clicks_def Let_def handle_connect_def)

theorem connect_button_dials_witness:
  "let st = status_of ''0.1.0'' 5 idle_client
   in \<exists>act. fst (snd (gui_update sample_gui_world 0 0 (no_clicks\<lparr>ck_connect := True\<rparr>) (sample_gui st))) = [Dispatch act] \<and>
      action_request act = Connect ''10.0.0.1:24800'' (Some ''AB'')"
proof -
  let ?st = "status_of ''0.1.0'' 5 idle_client"
  let ?ck = "no_clicks\<lparr>ck_connect := True\<rparr>"
  let ?u = "gui_update sample_gui_world 0 0 ?ck (sample_gui ?st)"
  let ?base = "client_base ((config_default Map.empty)\<lparr>cfg_role := RoleClient\<rparr>) (PeerId 1)"
  have trims: "trim '' 10.0.0.1:24800 '' = ''10.0.0.1:24800''" "trim '' AB '' = ''AB''"
    by code_simp+
  have c: "sr_role ?st = ''client''" "ds_client_controller idle_client" "ds_client_base idle_client = Some ?base"
    by (simp_all add: status_of_def idle_client_def daemon_start_def initial_state_def)
  have u: "?u = (fst ?u, fst (snd ?u), snd (snd ?u))" by simp
  have in_: "ap_addr_input (gu_app (sample_gui ?st)) = '' 10.0.0.1:24800 ''"
    "ap_pin_input (gu_app (sample_gui ?st)) = '' AB ''" by (simp_all add: sample_gui_def)
  have t: "target_of (rw_resolver quiet_world) ''10.0.0.1:24800'' = Ok ''10.0.0.1:24800''"
    by (simp add: target_of_def quiet_world_def)
  obtain act where act: "fst (snd ?u) = [Dispatch act]"
    using connect_button_dials [OF sample_gui_healthy c(1) refl u c(2,3) refl refl, of quiet_world "''10.0.0.1:24800''"]
      trims in_ t by auto
  moreover have "fst (snd ?u) = [Dispatch (ActConnect ''10.0.0.1:24800'' (Some ''AB''))]"
    using update_healthy [OF sample_gui_healthy, of ?ck 0 ?st _ _ _ 0] c(1) trims in_
    by (simp add: panel_of_def client_panel_def no_clicks_def Let_def)
  ultimately show ?thesis by (auto simp: Let_def)
qed

text \<open>
  C35: Choosing a role, when it succeeds: the configuration on disk is the one there was, or the
  default one, with the role replaced; the daemon is restarted, one process and no other; the choice
  is remembered; and a daemon that starts from that file has that role. It succeeds exactly when no
  error is left to show.
\<close>

theorem role_choice_applied:
  assumes "only_child (gu_procs g) (ap_supervisor (gu_app g))" and "pw_wait_ok (gw_proc w)"
    and "\<forall>pid \<in> pr_alive (gu_procs g). pid < pr_next (gu_procs g)"
    and "\<And>c t. gw_to_toml w c = Ok t \<Longrightarrow> gw_from_toml w t = Ok c"
    and "g' = apply_role_choice w now role g" and "ap_supervisor_error (gu_app g') = None"
  shows "\<exists>path cfg. gw_config_path w = Ok path \<and>
    cfg = (config_load_or_default (gw_from_toml w) (gw_env w) path (gu_file g))\<lparr>cfg_role := role\<rparr> \<and>
    base_config (gw_from_toml w) (gw_env w) path (gu_file g') = Ok cfg \<and>
    (ds_client_controller (fst (daemon_start cfg me cert t0)) \<longleftrightarrow> role = RoleClient) \<and>
    ap_role_decided (gu_app g') \<and> is_running (gw_proc w) (gu_procs g') (ap_supervisor (gu_app g')) \<and>
    pr_alive (gu_procs g') = {pr_next (gu_procs g)}"
proof -
  obtain u file' where wr: "write_role w role (gu_file g) = (Inr u, file')"
    using assms(5,6) by (auto simp: apply_role_choice_def split: sum.splits prod.splits)
  then obtain path where path: "gw_config_path w = Ok path"
    by (auto simp: write_role_def split: sum.splits)
  let ?cfg = "(config_load_or_default (gw_from_toml w) (gw_env w) path (gu_file g))\<lparr>cfg_role := role\<rparr>"
  have "config_save (gw_to_toml w) (gw_save w) ?cfg (gu_file g) = (Inr u, file')"
    using wr path by (auto simp: write_role_def Let_def split: prod.splits)
  then obtain t where t: "gw_to_toml w ?cfg = Ok t" "file' = Contents t"
    by (auto simp: config_save_def split: sum.splits option.splits)
  then have cfg: "base_config (gw_from_toml w) (gw_env w) path file' = Ok ?cfg"
    using assms(4) by (simp add: base_config_def config_load_def)
  obtain r ps sv where rs: "restart (gw_proc w) now (gu_procs g, ap_supervisor (gu_app g)) = (r, ps, sv)"
    by (metis prod.exhaust)
  then have g': "is_ok r" "gu_file g' = file'" "gu_procs g' = ps" "ap_supervisor (gu_app g') = sv"
    "ap_role_decided (gu_app g')"
    using assms(5,6) wr by (auto simp: apply_role_choice_def split: sum.splits)
  have "ds_client_controller (fst (daemon_start ?cfg me cert t0)) \<longleftrightarrow> role = RoleClient"
    by (cases role) (simp_all add: daemon_start_def initial_state_def)
  with restart_outcome [OF assms(1-3) rs] g' cfg path show ?thesis by auto
qed

theorem role_choice_applied_witness:
  "let g' = apply_role_choice sample_gui_world 0 RoleClient
       \<lparr>gu_app = app_new ''s'' \<lparr>sw_windows = False, sw_env = Map.empty, sw_is_file = (\<lambda>_. True),
            sw_exe_dir = None, sw_lookup = None\<rparr> False,
        gu_procs = no_processes, gu_file = Absent\<rparr>
   in ap_role_decided (gu_app g') \<and> pr_alive (gu_procs g') = {0}"
proof -
  let ?g = "\<lparr>gu_app = app_new ''s'' \<lparr>sw_windows = False, sw_env = Map.empty, sw_is_file = (\<lambda>_. True),
            sw_exe_dir = None, sw_lookup = None\<rparr> False,
        gu_procs = no_processes, gu_file = Absent\<rparr>"
  let ?g' = "apply_role_choice sample_gui_world 0 RoleClient ?g"
  have "ap_supervisor_error (gu_app ?g') = None"
    by (simp add: apply_role_choice_def write_role_def sample_gui_world_def config_load_or_default_def
        config_load_def config_save_def restart_def supervisor_stop_def ensure_running_def is_running_def
        sample_proc_def app_new_def supervisor_new_def find_daemon_binary_def well_known_paths_def Let_def)
  moreover have "only_child (gu_procs ?g) (ap_supervisor (gu_app ?g))" "pw_wait_ok (gw_proc sample_gui_world)"
    "\<forall>pid \<in> pr_alive (gu_procs ?g). pid < pr_next (gu_procs ?g)" "pr_next (gu_procs ?g) = 0"
    by (simp_all add: only_child_def no_processes_def sample_gui_world_def sample_proc_def)
  moreover have "gw_from_toml sample_gui_world t = Ok c" if "gw_to_toml sample_gui_world c = Ok t" for c t
    using that by (auto simp: sample_gui_world_def split: if_splits)
  ultimately show ?thesis
    using role_choice_applied [of ?g sample_gui_world ?g' 0 RoleClient] unfolding Let_def by metis
qed

text \<open>A configuration that cannot be read is replaced by the default one when the role is chosen.\<close>

theorem role_choice_discards_bad_config:
  assumes "gw_config_path w = Ok path" and "gw_from_toml w t = Err e" and "gu_file g = Contents t"
    and "gw_save w = \<lparr>svw_create_dir = Ok (), svw_write = None\<rparr>"
    and "gw_to_toml w ((config_default (gw_env w))\<lparr>cfg_role := role\<rparr>) = Ok t'"
  shows "gu_file (apply_role_choice w now role g) = Contents t'"
  using assms
  by (simp add: apply_role_choice_def write_role_def config_load_or_default_def config_load_def
      config_save_def split: prod.split)

text \<open>
  Without a binary of its own the interface never gets past the launch error, even if a daemon that was
  started in another way answers its polls.
\<close>

theorem launch_error_hides_daemon:
  assumes "ap_role_decided (gu_app g)" and "su_child (ap_supervisor (gu_app g)) = None"
    and "su_binary (ap_supervisor (gu_app g)) = None" and "ap_supervisor_error (gu_app g) = Some e"
    and "\<not> ck_change_role ck"
  shows "\<exists>e' effs g'. gui_update w now ms ck g = (LaunchErrorView e', effs, g')"
  using assms
  by (simp add: gui_update_def auto_launch_def ensure_running_throttled_def ensure_running_def is_running_def
      central_panel_def Let_def split: option.split)

section \<open>Times\<close>

text \<open>The number that a text of digits stands for, and the time that a text of \<open>humantime\<close> does.\<close>

definition digits_value :: "string \<Rightarrow> nat" where
  "digits_value ds = foldl (\<lambda>n c. 10 * n + (of_char c - 48)) 0 ds"

definition word_secs :: "string \<Rightarrow> nat" where
  "word_secs v =
     digits_value (butlast v) * (if last v = CHR ''h'' then 3600 else if last v = CHR ''m'' then 60 else 1)"

definition read_humantime :: "string \<Rightarrow> nat" where
  "read_humantime s = sum_list (map word_secs (split_on CHR '' '' s))"

lemma digit_char_value: "d < 10 \<Longrightarrow> (of_char (digit_char d) :: nat) = 48 + d"
  by (simp add: digit_char_def)

lemma digits_value_show [simp]: "digits_value (show_nat n) = n"
proof (induction n rule: less_induct)
  case (less n)
  show ?case
  proof (cases "n < 10")
    case True
    then show ?thesis by (subst show_nat.simps) (simp add: digits_value_def digit_char_value)
  next
    case False
    then have "digits_value (show_nat (n div 10)) = n div 10" by (intro less) simp
    with False show ?thesis
      by (subst show_nat.simps) (simp add: digits_value_def digit_char_value)
  qed
qed

lemma show_nat_digits: "c \<in> set (show_nat n) \<Longrightarrow> \<exists>d<10. c = digit_char d"
proof (induction n rule: less_induct)
  case (less n)
  show ?case
  proof (cases "n < 10")
    case True
    with less.prems show ?thesis by (subst (asm) show_nat.simps) auto
  next
    case False
    with less.prems have "c \<in> set (show_nat (n div 10)) \<or> c = digit_char (n mod 10)"
      by (subst (asm) show_nat.simps) auto
    with less.IH [of "n div 10"] False show ?thesis by (auto intro: exI [of _ "n mod 10"])
  qed
qed

lemma show_nat_no_space: "CHR '' '' \<notin> set (show_nat n)"
proof
  assume "CHR '' '' \<in> set (show_nat n)"
  then obtain d where "d < 10" "CHR '' '' = digit_char d" using show_nat_digits by blast
  then have "(of_char CHR '' '' :: nat) = 48 + d" using digit_char_value by metis
  then show False by simp
qed

lemma split_on_word: "c \<notin> set a \<Longrightarrow> split_on c (a @ c # b) = a # split_on c b"
  by (induction a) auto

lemma split_on_last: "c \<notin> set a \<Longrightarrow> split_on c a = [a]"
  by (induction a) auto

lemma word_secs_unit [simp]:
  "word_secs (show_nat n @ ''h'') = n * 3600" "word_secs (show_nat n @ ''m'') = n * 60"
  "word_secs (show_nat n @ ''s'') = n"
  by (simp_all add: word_secs_def)

text \<open>
  No connection time is shown ambiguously: the text that stands for a number of seconds can be
  read back to that number, for all of the 64 bits.
\<close>

theorem humantime_read: "read_humantime (humantime secs) = unat secs"
proof -
  let ?h = "unat (secs div 3600)" and ?m = "unat ((secs mod 3600) div 60)" and ?s = "unat (secs mod 60)"
  have split3: "split_on CHR '' '' (show_nat a @ ''h '' @ show_nat b @ ''m '' @ show_nat c @ ''s'') =
      [show_nat a @ ''h'', show_nat b @ ''m'', show_nat c @ ''s'']" for a b c
    using split_on_word [of "CHR '' ''" "show_nat a @ ''h''" "show_nat b @ ''m '' @ show_nat c @ ''s''"]
      split_on_word [of "CHR '' ''" "show_nat b @ ''m''" "show_nat c @ ''s''"]
      split_on_last [of "CHR '' ''" "show_nat c @ ''s''"]
    by (simp add: show_nat_no_space)
  have split2: "split_on CHR '' '' (show_nat b @ ''m '' @ show_nat c @ ''s'') = [show_nat b @ ''m'', show_nat c @ ''s'']"
    for b c
    using split_on_word [of "CHR '' ''" "show_nat b @ ''m''" "show_nat c @ ''s''"]
      split_on_last [of "CHR '' ''" "show_nat c @ ''s''"]
    by (simp add: show_nat_no_space)
  have split1: "split_on CHR '' '' (show_nat c @ ''s'') = [show_nat c @ ''s'']" for c
    by (rule split_on_last) (simp add: show_nat_no_space)
  have "unat (secs div 3600) = unat secs div 3600" "unat ((secs mod 3600) div 60) = (unat secs mod 3600) div 60"
    "unat (secs mod 60) = unat secs mod 60"
    by (simp_all add: unat_div unat_mod)
  moreover have "(n div 3600) * 3600 + ((n mod 3600) div 60) * 60 + n mod 60 = n" for n :: nat
  proof -
    have "n mod 60 = n mod 3600 mod 60" by (simp add: mod_mod_cancel)
    then have "(n mod 3600) div 60 * 60 + n mod 60 = n mod 3600" by (metis div_mult_mod_eq)
    then show ?thesis by (metis add.assoc div_mult_mod_eq)
  qed
  ultimately have total: "?h * 3600 + ?m * 60 + ?s = unat secs" by metis
  have pos: "0 < secs div 3600 \<longleftrightarrow> ?h \<noteq> 0" "0 < (secs mod 3600) div 60 \<longleftrightarrow> ?m \<noteq> 0"
    by (simp_all only: word_greater_zero_iff unat_eq_zero)
  obtain h m c where hmc: "h = ?h" "m = ?m" "c = ?s" by blast
  have shown: "humantime secs =
      (if h \<noteq> 0 then show_nat h @ ''h '' @ show_nat m @ ''m '' @ show_nat c @ ''s''
       else if m \<noteq> 0 then show_nat m @ ''m '' @ show_nat c @ ''s''
       else show_nat c @ ''s'')"
    by (simp only: humantime_def Let_def pos hmc)
  have "h * 3600 + m * 60 + c = unat secs" using total by (simp only: hmc)
  then show ?thesis
    by (cases "h = 0"; cases "m = 0") (simp_all add: shown read_humantime_def split1 split2 split3 del: append.simps)
qed

end
