(* ===== verification/GuiView.thy ===== *)
theory GuiView
  imports GuiApp
begin

text \<open>
  What a frame of the interface draws (\<open>crates/gui/src/theme.rs\<close> and the rendering functions of
  \<open>crates/gui/src/main.rs\<close>): the palette, and each view as a tree of widgets in the order in which
  they are added. Icons in texts are left out; sizes are in points, the widths of strokes in tenths, factors in percent.
\<close>

section \<open>Colours\<close>

record Color32 =
  co_red :: "8 word"
  co_green :: "8 word"
  co_blue :: "8 word"

definition from_rgb :: "8 word \<Rightarrow> 8 word \<Rightarrow> 8 word \<Rightarrow> Color32" where
  "from_rgb r g b = \<lparr>co_red = r, co_green = g, co_blue = b\<rparr>"

text \<open>A colour as it is used: itself, faded to a part (\<open>linear_multiply\<close>), or no colour.\<close>

datatype paint = Solid Color32 | Faded Color32 nat | Transparent

definition BG_DARK :: paint where "BG_DARK = Solid (from_rgb 13 17 23)"
definition BG_CARD :: paint where "BG_CARD = Solid (from_rgb 22 27 34)"
definition BG_INSET :: paint where "BG_INSET = Solid (from_rgb 11 15 21)"
definition BORDER :: paint where "BORDER = Solid (from_rgb 48 54 61)"
definition TEXT_PRIMARY :: paint where "TEXT_PRIMARY = Solid (from_rgb 230 237 243)"
definition TEXT_DIM :: paint where "TEXT_DIM = Solid (from_rgb 139 148 158)"
definition ACCENT :: paint where "ACCENT = Solid (from_rgb 45 212 191)"
definition ACCENT_DIM :: paint where "ACCENT_DIM = Solid (from_rgb 20 184 166)"
definition SUCCESS :: paint where "SUCCESS = Solid (from_rgb 74 222 128)"
definition WARNING :: paint where "WARNING = Solid (from_rgb 251 191 36)"
definition DANGER :: paint where "DANGER = Solid (from_rgb 248 113 113)"
definition WHITE :: paint where "WHITE = Solid (from_rgb 255 255 255)"
definition HOVER :: paint where "HOVER = Solid (from_rgb 28 35 48)"

lemmas palette_defs = BG_DARK_def BG_CARD_def BG_INSET_def BORDER_def TEXT_PRIMARY_def TEXT_DIM_def
  ACCENT_def ACCENT_DIM_def SUCCESS_def WARNING_def DANGER_def WHITE_def HOVER_def from_rgb_def

fun linear_multiply :: "paint \<Rightarrow> nat \<Rightarrow> paint" where
  "linear_multiply (Solid c) percent = Faded c percent"
| "linear_multiply p percent = p"

text \<open>The width of a stroke is in tenths of a point.\<close>

record Stroke =
  sk_width :: nat
  sk_color :: paint

definition stroke :: "nat \<Rightarrow> paint \<Rightarrow> Stroke" where
  "stroke w c = \<lparr>sk_width = 10 * w, sk_color = c\<rparr>"

section \<open>The visuals\<close>

text \<open>The parts of egui's visuals that the program sets, starting from egui's dark ones.\<close>

record WidgetVisuals =
  wv_bg_fill :: paint
  wv_bg_stroke :: Stroke
  wv_fg_stroke :: Stroke
  wv_rounding :: nat

record Visuals =
  vi_panel_fill :: paint
  vi_window_fill :: paint
  vi_extreme_bg_color :: paint
  vi_faint_bg_color :: paint
  vi_hyperlink_color :: paint
  vi_selection_bg_fill :: paint
  vi_selection_stroke :: Stroke
  vi_inactive :: WidgetVisuals
  vi_hovered :: WidgetVisuals
  vi_active :: WidgetVisuals
  vi_noninteractive :: WidgetVisuals
  vi_window_stroke :: Stroke

definition visuals :: "Visuals \<Rightarrow> Visuals" where
  "visuals dark = dark\<lparr>
     vi_panel_fill := BG_DARK, vi_window_fill := BG_CARD, vi_extreme_bg_color := BG_INSET,
     vi_faint_bg_color := BG_CARD, vi_hyperlink_color := ACCENT,
     vi_selection_bg_fill := linear_multiply ACCENT 30, vi_selection_stroke := stroke 1 ACCENT,
     vi_inactive := (vi_inactive dark)\<lparr>wv_bg_fill := BG_INSET, wv_bg_stroke := stroke 1 BORDER, wv_rounding := 6\<rparr>,
     vi_hovered := (vi_hovered dark)\<lparr>wv_bg_fill := HOVER, wv_bg_stroke := stroke 1 ACCENT, wv_rounding := 6\<rparr>,
     vi_active := (vi_active dark)\<lparr>wv_bg_fill := ACCENT_DIM, wv_bg_stroke := stroke 1 ACCENT, wv_rounding := 6\<rparr>,
     vi_noninteractive := (vi_noninteractive dark)\<lparr>wv_bg_fill := BG_DARK, wv_fg_stroke := stroke 1 TEXT_DIM,
       wv_bg_stroke := stroke 1 BORDER, wv_rounding := 8\<rparr>,
     vi_window_stroke := stroke 1 BORDER\<rparr>"

text \<open>
  The style: the fonts by text style, with sizes of a type of their own (the factor 1.05 is rounded as
  the machine does it, by \<open>enlarge\<close>), and the spacing.
\<close>

datatype FontFamily = Proportional | Monospace

record 'f FontId =
  fi_size :: 'f
  fi_family :: FontFamily

record 'f EguiStyle =
  st_text_styles :: "string \<rightharpoonup> 'f FontId"
  st_item_spacing :: "nat \<times> nat"
  st_button_padding :: "nat \<times> nat"
  st_window_margin :: nat

definition style :: "('f \<Rightarrow> 'f) \<Rightarrow> (nat \<Rightarrow> 'f) \<Rightarrow> 'f EguiStyle \<Rightarrow> 'f EguiStyle" where
  "style enlarge points st = st\<lparr>
     st_text_styles := (\<lambda>t. map_option (\<lambda>f. f\<lparr>fi_size := enlarge (fi_size f)\<rparr>) (st_text_styles st t))
       (''Heading'' \<mapsto> \<lparr>fi_size = points 24, fi_family = Proportional\<rparr>),
     st_item_spacing := (8, 8), st_button_padding := (14, 8), st_window_margin := 16\<rparr>"

text \<open>The window that \<open>main\<close> opens, and what it sets up before the first frame.\<close>

record NativeOptions =
  no_title :: string
  no_inner_size :: "nat \<times> nat"
  no_min_inner_size :: "nat \<times> nat"

definition native_options :: NativeOptions where
  "native_options = \<lparr>no_title = ''InputSync'', no_inner_size = (820, 600), no_min_inner_size = (560, 420)\<rparr>"

definition creation_context ::
  "('f \<Rightarrow> 'f) \<Rightarrow> (nat \<Rightarrow> 'f) \<Rightarrow> Visuals \<Rightarrow> 'f EguiStyle \<Rightarrow> string \<Rightarrow> SearchWorld \<Rightarrow> bool \<Rightarrow>
   Visuals \<times> 'f EguiStyle \<times> InputSyncApp" where
  "creation_context enlarge points dark st socket w config_exists =
     (visuals dark, style enlarge points st, app_new socket w config_exists)"

section \<open>Widgets\<close>

record RichText =
  rt_text :: string
  rt_color :: paint
  rt_strong :: bool
  rt_small :: bool
  rt_monospace :: bool
  rt_heading :: bool
  rt_size :: "nat option"

definition rich :: "string \<Rightarrow> paint \<Rightarrow> RichText" where
  "rich t c = \<lparr>rt_text = t, rt_color = c, rt_strong = False, rt_small = False, rt_monospace = False,
     rt_heading = False, rt_size = None\<rparr>"

text \<open>The buttons of the interface; a selection card counts as one.\<close>

datatype button =
    ChangeRole | ServerCard | ClientCard | RetryLaunch | RestartDaemon
  | ConnectButton | DisconnectButton | RunButton | StopButton | CopyButton

record ButtonStyle =
  bt_text :: RichText
  bt_fill :: paint
  bt_stroke :: Stroke
  bt_rounding :: nat
  bt_min_size :: "(nat \<times> nat) option"

text \<open>A frame: its margins are left, right, top and bottom.\<close>

record CardFrame =
  fr_fill :: paint
  fr_stroke :: Stroke
  fr_rounding :: nat
  fr_margin :: "nat \<times> nat \<times> nat \<times> nat"

datatype widget =
    Label RichText
  | ButtonWidget button ButtonStyle
  | SelectCard button paint Stroke "RichText list"
  | TextEdit string string nat
  | CodeEdit string string nat
  | Circle nat paint
  | Ring nat Stroke
  | Pill RichText paint
  | Mono RichText paint
  | Spinner
  | Separator
  | Space nat
  | Framed CardFrame "widget list"
  | Horizontal "widget list"
  | Vertical "widget list"
  | RightToLeft "widget list"
  | Centered "widget list"
  | Grid string nat "widget list list"

fun buttons_of :: "widget \<Rightarrow> button list" where
  "buttons_of (ButtonWidget b s) = [b]"
| "buttons_of (SelectCard b p k ts) = [b]"
| "buttons_of (Framed f ws) = concat (map buttons_of ws)"
| "buttons_of (Horizontal ws) = concat (map buttons_of ws)"
| "buttons_of (Vertical ws) = concat (map buttons_of ws)"
| "buttons_of (RightToLeft ws) = concat (map buttons_of ws)"
| "buttons_of (Centered ws) = concat (map buttons_of ws)"
| "buttons_of (Grid n c rows) = concat (map (\<lambda>ws. concat (map buttons_of ws)) rows)"
| "buttons_of _ = []"

section \<open>Helpers of the theme\<close>

definition theme_card :: "widget list \<Rightarrow> widget" where
  "theme_card ws = Framed \<lparr>fr_fill = BG_CARD, fr_stroke = stroke 1 BORDER, fr_rounding = 10,
     fr_margin = (16, 16, 14, 14)\<rparr> ws"

definition card_hover :: "bool \<Rightarrow> widget list \<Rightarrow> widget" where
  "card_hover hovered ws = Framed \<lparr>fr_fill = (if hovered then HOVER else BG_CARD),
     fr_stroke = (if hovered then \<lparr>sk_width = 15, sk_color = ACCENT\<rparr> else stroke 1 BORDER),
     fr_rounding = 12, fr_margin = (16, 16, 16, 16)\<rparr> ws"

definition accent_button_sized :: "button \<Rightarrow> string \<Rightarrow> nat \<times> nat \<Rightarrow> widget" where
  "accent_button_sized b t min_size =
     ButtonWidget b \<lparr>bt_text = (rich t BG_DARK)\<lparr>rt_strong := True\<rparr>, bt_fill = ACCENT,
       bt_stroke = stroke 1 ACCENT_DIM, bt_rounding = 8, bt_min_size = Some min_size\<rparr>"

definition accent_button :: "button \<Rightarrow> string \<Rightarrow> widget" where
  "accent_button b t = accent_button_sized b t (130, 38)"

definition danger_button :: "button \<Rightarrow> string \<Rightarrow> widget" where
  "danger_button b t =
     ButtonWidget b \<lparr>bt_text = (rich t WHITE)\<lparr>rt_strong := True\<rparr>, bt_fill = DANGER,
       bt_stroke = stroke 1 (linear_multiply DANGER 70), bt_rounding = 8, bt_min_size = Some (130, 38)\<rparr>"

definition ghost_button :: "button \<Rightarrow> string \<Rightarrow> widget" where
  "ghost_button b t =
     ButtonWidget b \<lparr>bt_text = rich t TEXT_DIM, bt_fill = Transparent, bt_stroke = stroke 1 BORDER,
       bt_rounding = 6, bt_min_size = None\<rparr>"

text \<open>A dot and, with its radius in tenths of a point, the ring around it.\<close>

definition status_dot :: "paint \<Rightarrow> string \<Rightarrow> widget" where
  "status_dot c t =
     Horizontal [Circle 4 c, Ring 55 (stroke 1 (linear_multiply c 40)), Label ((rich t c)\<lparr>rt_strong := True\<rparr>)]"

definition mono :: "string \<Rightarrow> widget" where
  "mono t = Mono ((rich t TEXT_PRIMARY)\<lparr>rt_monospace := True, rt_size := Some 13\<rparr>) BG_INSET"

definition pill :: "string \<Rightarrow> paint \<Rightarrow> widget" where
  "pill t c = Pill ((rich t c)\<lparr>rt_size := Some 13\<rparr>) (linear_multiply c 15)"

definition heading :: "string \<Rightarrow> widget" where
  "heading t = Label ((rich t TEXT_PRIMARY)\<lparr>rt_heading := True\<rparr>)"

definition dim_label :: "string \<Rightarrow> widget" where
  "dim_label t = Label (rich t TEXT_DIM)"

lemma buttons_of_helpers [simp]:
  "buttons_of (theme_card ws) = concat (map buttons_of ws)"
  "buttons_of (accent_button b t) = [b]" "buttons_of (danger_button b t) = [b]"
  "buttons_of (ghost_button b t) = [b]" "buttons_of (pill t c) = []"
  "buttons_of (card_hover hv ws) = concat (map buttons_of ws)"
  "buttons_of (status_dot c t) = []" "buttons_of (mono t) = []"
  "buttons_of (heading t) = []" "buttons_of (dim_label t) = []"
  by (simp_all add: theme_card_def card_hover_def status_dot_def mono_def accent_button_def accent_button_sized_def danger_button_def ghost_button_def
      pill_def heading_def dim_label_def)

section \<open>The views\<close>

definition error_card :: "string \<Rightarrow> string \<Rightarrow> string option \<Rightarrow> widget" where
  "error_card title detail hint =
     Framed \<lparr>fr_fill = linear_multiply DANGER 8, fr_stroke = stroke 1 (linear_multiply DANGER 50),
       fr_rounding = 10, fr_margin = (16, 16, 16, 16)\<rparr>
       [Horizontal
         [Label ((rich [] DANGER)\<lparr>rt_size := Some 20\<rparr>),
          Vertical
           ([Label ((rich title DANGER)\<lparr>rt_strong := True\<rparr>), Label (rich detail TEXT_PRIMARY)] @
            (case hint of Some h \<Rightarrow> [Space 2, Label ((rich h TEXT_DIM)\<lparr>rt_small := True\<rparr>)] | None \<Rightarrow> []))]]"

text \<open>A selection card under the pointer is drawn lifted; icon, title and description follow.\<close>

definition role_card :: "bool \<Rightarrow> button \<Rightarrow> string \<Rightarrow> string \<Rightarrow> paint \<Rightarrow> widget" where
  "role_card hovered b title desc accent =
     SelectCard b (if hovered then HOVER else BG_CARD) (if hovered then stroke 2 accent else stroke 1 BORDER)
       [(rich [] accent)\<lparr>rt_size := Some 34\<rparr>, (rich title TEXT_PRIMARY)\<lparr>rt_size := Some 18\<rparr>,
        (rich desc TEXT_DIM)\<lparr>rt_size := Some 12\<rparr>]"

definition render_role_picker :: "(button \<Rightarrow> bool) \<Rightarrow> string option \<Rightarrow> widget" where
  "render_role_picker hovered supervisor_error =
     Centered
       ([Space 50, heading ''Welcome to InputSync'', Space 4,
         dim_label ''Share one keyboard and mouse across two computers.'', Space 32,
         dim_label ''How should this computer be used?'', Space 20,
         Horizontal
           [Space 20,
            role_card (hovered ServerCard) ServerCard ''Server''
              (''This computer's keyboard and mouse'' @ CHR 0x0A # ''will control others. Run this on'' @
               CHR 0x0A # ''the machine you sit at.'') ACCENT,
            Space 16,
            role_card (hovered ClientCard) ClientCard ''Client''
              (''This computer will be controlled'' @ CHR 0x0A # ''by a remote server. Run this on'' @
               CHR 0x0A # ''the machine whose screen you want'' @ CHR 0x0A # ''to reach.'') TEXT_DIM]] @
        (case supervisor_error of Some err \<Rightarrow> [Space 20, Label (rich err DANGER)] | None \<Rightarrow> []))"

text \<open>The display of a peer's identifier, a UUID, is the parameter \<open>show_id\<close>.\<close>

definition peer_card_widget :: "(PeerId \<Rightarrow> string) \<Rightarrow> PeerCard \<Rightarrow> widget" where
  "peer_card_widget show_id p =
     theme_card
       [Horizontal
         [Circle 4 SUCCESS, Space 12, Label ((rich (pc_name p) TEXT_PRIMARY)\<lparr>rt_strong := True\<rparr>),
          Label ((rich (show_id (pc_peer_id p)) TEXT_DIM)\<lparr>rt_small := True, rt_monospace := True\<rparr>),
          RightToLeft [Label ((rich (pc_rtt p) TEXT_DIM)\<lparr>rt_small := True\<rparr>)]],
        Space 2,
        Label ((rich (pc_remote p @ ''  -  '' @ pc_connected p) TEXT_DIM)\<lparr>rt_small := True\<rparr>)]"

fun peers_widgets :: "(PeerId \<Rightarrow> string) \<Rightarrow> string \<times> peers_view \<Rightarrow> widget list" where
  "peers_widgets show_id (title, NoPeers notice) = [heading title, Space 6, theme_card [dim_label notice]]"
| "peers_widgets show_id (title, PeerCards ps) =
     [heading title, Space 6] @ concat (map (\<lambda>p. [peer_card_widget show_id p, Space 6]) ps)"

definition render_client_panel ::
  "(PeerId \<Rightarrow> string) \<Rightarrow> InputSyncApp \<Rightarrow> string \<times> peers_view \<Rightarrow> widget list" where
  "render_client_panel show_id app peers =
     [heading ''Client'', dim_label ''Connect to a server to be controlled remotely.'', Space 16,
      theme_card
        [Grid ''conn_form'' 2
          [[dim_label ''Server address'', TextEdit (ap_addr_input app) ''192.168.1.50:24800'' 280],
           [dim_label ''Fingerprint'', CodeEdit (ap_pin_input app) ''paste the server's fingerprint hex'' 280]],
         Space 8,
         Horizontal [accent_button ConnectButton ''Connect'', danger_button DisconnectButton ''Disconnect'']],
      Space 12] @ peers_widgets show_id peers"

definition monospace_label :: "string \<Rightarrow> widget" where
  "monospace_label t = Label ((rich t TEXT_PRIMARY)\<lparr>rt_monospace := True\<rparr>)"

definition render_server_panel ::
  "(PeerId \<Rightarrow> string) \<Rightarrow> bool \<Rightarrow> string \<Rightarrow> string \<Rightarrow> string \<Rightarrow> string \<times> peers_view \<Rightarrow> widget list" where
  "render_server_panel show_id listening ip port fp peers =
     [heading ''Server'', dim_label ''Share this keyboard & mouse with other computers.'', Space 16,
      theme_card
        [Horizontal
          [if listening then pill ''Scanning for clients'' SUCCESS else pill ''Idle'' WARNING,
           RightToLeft [if \<not> listening then accent_button RunButton ''Run'' else danger_button StopButton ''Stop'']]],
      Space 12,
      theme_card
        [Grid ''server_info'' 2
          [[dim_label ''Your IP address'', monospace_label ip],
           [dim_label ''Port'', monospace_label port],
           [dim_label ''Fingerprint'', Horizontal [monospace_label fp, ghost_button CopyButton ''Copy'']]]],
      Space 12] @ peers_widgets show_id peers"

fun render_action_status :: "ActionResult option \<Rightarrow> widget list" where
  "render_action_status None = []"
| "render_action_status (Some r) =
     (let color = (if ar_ok r then SUCCESS else DANGER) in
      [Space 8, Horizontal [Label ((rich [] color)\<lparr>rt_strong := True\<rparr>), Label (rich (ar_message r) color)]])"

fun render_footer :: "string \<times> string \<Rightarrow> widget list" where
  "render_footer (version, fp) =
     [Separator, Space 4,
      Horizontal
        [Label ((rich version TEXT_DIM)\<lparr>rt_small := True\<rparr>),
         RightToLeft
           [Label ((rich fp TEXT_DIM)\<lparr>rt_small := True, rt_monospace := True\<rparr>),
            Label ((rich ''fingerprint:'' TEXT_DIM)\<lparr>rt_small := True\<rparr>)]]]"

fun render_panel :: "(PeerId \<Rightarrow> string) \<Rightarrow> InputSyncApp \<Rightarrow> panel \<Rightarrow> widget list" where
  "render_panel show_id app (ClientPanel peers) = render_client_panel show_id app peers"
| "render_panel show_id app (ServerPanel listening ip port fp peers) =
     render_server_panel show_id listening ip port fp peers"

definition top_panel :: "widget list" where
  "top_panel =
     [Space 8,
      Horizontal
        [Label ((rich ''InputSync'' ACCENT)\<lparr>rt_strong := True, rt_size := Some 19\<rparr>),
         RightToLeft [ghost_button ChangeRole ''Change role'']],
      Space 4]"

fun render_view :: "(button \<Rightarrow> bool) \<Rightarrow> (PeerId \<Rightarrow> string) \<Rightarrow> InputSyncApp \<Rightarrow> view \<Rightarrow> widget list" where
  "render_view hovered show_id app (RolePicker err) = [render_role_picker hovered err]"
| "render_view hovered show_id app (LaunchErrorView err) =
     [Space 8,
      error_card ''Daemon launch error'' err (Some (''Could not start the daemon automatically. '' @
        ''Install InputSync, or if running from a build dir, make sure inputsync-daemon is next to inputsync-gui.'')),
      ghost_button RetryLaunch ''Retry launch'']"
| "render_view hovered show_id app (UnreachableView err log) =
     [Space 8,
      error_card ''Daemon unreachable'' err
        (Some ''The daemon isn't responding to the GUI. You can try restarting it.''),
      Space 8, accent_button RestartDaemon ''Restart daemon''] @
     (case log of Some path \<Rightarrow> [Space 8, dim_label (''Daemon log: '' @ path)] | None \<Rightarrow> [])"
| "render_view hovered show_id app ConnectingView =
     [Space 8, Space 40, Centered [Spinner, Space 8, dim_label ''Connecting to daemon...'']]"
| "render_view hovered show_id app (PanelView p last_action foot) =
     [Space 8, Space 8] @ render_panel show_id app p @ render_action_status last_action @
     [Space 12] @ render_footer foot"

text \<open>All that is on the screen after a frame.\<close>

definition gui_frame ::
  "(button \<Rightarrow> bool) \<Rightarrow> (PeerId \<Rightarrow> string) \<Rightarrow> GuiWorld \<Rightarrow> nat \<Rightarrow> u64 \<Rightarrow> Clicks \<Rightarrow> Gui \<Rightarrow> widget list" where
  "gui_frame hovered show_id w now now_ms ck g =
     top_panel @ render_view hovered show_id (gu_app g) (fst (gui_update w now now_ms ck g))"

section \<open>The buttons that are drawn\<close>

definition frame_buttons :: "widget list \<Rightarrow> button list" where
  "frame_buttons ws = concat (map buttons_of ws)"

fun clicked :: "Clicks \<Rightarrow> button \<Rightarrow> bool" where
  "clicked ck ChangeRole = ck_change_role ck"
| "clicked ck ServerCard = ck_server_card ck"
| "clicked ck ClientCard = ck_client_card ck"
| "clicked ck RetryLaunch = ck_retry ck"
| "clicked ck RestartDaemon = ck_restart ck"
| "clicked ck ConnectButton = ck_connect ck"
| "clicked ck DisconnectButton = ck_disconnect ck"
| "clicked ck RunButton = ck_run_or_stop ck"
| "clicked ck StopButton = ck_run_or_stop ck"
| "clicked ck CopyButton = ck_copy ck"

lemma frame_buttons_simps [simp]:
  "frame_buttons [] = []"
  "frame_buttons (x # ws) = buttons_of x @ frame_buttons ws"
  "frame_buttons (vs @ ws) = frame_buttons vs @ frame_buttons ws"
  by (simp_all add: frame_buttons_def)

lemma buttons_of_parts [simp]:
  "buttons_of (error_card t d h) = []" "buttons_of (monospace_label t) = []"
  "buttons_of (role_card hv b t d a) = [b]" "buttons_of (peer_card_widget show_id p) = []"
  "buttons_of (render_role_picker hovered err) = [ServerCard, ClientCard]"
  "frame_buttons top_panel = [ChangeRole]"
  by (cases h; cases err;
      simp add: error_card_def monospace_label_def role_card_def peer_card_widget_def render_role_picker_def
        top_panel_def)+

lemma frame_buttons_peers [simp]: "frame_buttons (peers_widgets show_id (title, v)) = []"
  by (cases v) (auto simp: frame_buttons_def)

lemma frame_buttons_action [simp]: "frame_buttons (render_action_status r) = []"
  by (cases r) (simp_all add: Let_def)

lemma frame_buttons_view:
  "frame_buttons (render_view hovered show_id app v) =
     (case v of
        RolePicker err \<Rightarrow> [ServerCard, ClientCard]
      | LaunchErrorView err \<Rightarrow> [RetryLaunch]
      | UnreachableView err log \<Rightarrow> [RestartDaemon]
      | ConnectingView \<Rightarrow> []
      | PanelView (ClientPanel peers) act foot \<Rightarrow> [ConnectButton, DisconnectButton]
      | PanelView (ServerPanel listening ip port fp peers) act foot \<Rightarrow>
          [if listening then StopButton else RunButton, CopyButton])"
  by (auto simp: render_client_panel_def render_server_panel_def split: view.split panel.split option.split)

text \<open>The panels and the central panel alone.\<close>

lemma client_panel_clicks:
  assumes "client_panel ms ck app status = (p, effs, app')"
  shows "frame_buttons (render_view hovered show_id a (PanelView p act foot)) = [ConnectButton, DisconnectButton]"
    and "ck_connect ck = ck_connect ck' \<Longrightarrow> ck_disconnect ck = ck_disconnect ck' \<Longrightarrow>
      client_panel ms ck' app status = client_panel ms ck app status"
  using assms by (auto simp: client_panel_def Let_def frame_buttons_view simp del: render_view.simps)

lemma server_panel_clicks:
  assumes "server_panel ip ms ck app status = (p, effs, app')"
  shows "frame_buttons (render_view hovered show_id a (PanelView p act foot)) =
      [if sr_listening status then StopButton else RunButton, CopyButton]"
    and "ck_run_or_stop ck = ck_run_or_stop ck' \<Longrightarrow> ck_copy ck = ck_copy ck' \<Longrightarrow>
      server_panel ip ms ck' app status = server_panel ip ms ck app status"
  using assms by (auto simp: server_panel_def Let_def frame_buttons_view simp del: render_view.simps)

lemma central_panel_clicks:
  assumes "\<forall>b \<in> set (frame_buttons (render_view hovered show_id app (fst (central_panel w now ms ck g)))).
    clicked ck b = clicked ck' b"
  shows "central_panel w now ms ck' g = central_panel w now ms ck g"
proof -
  let ?st = "ap_state (gu_app g)"
  consider (launch) err where "ap_supervisor_error (gu_app g) = Some err"
    | (unreachable) err where "ap_supervisor_error (gu_app g) = None" "sh_error ?st = Some err"
    | (connecting) "ap_supervisor_error (gu_app g) = None" "sh_error ?st = None" "sh_status ?st = None"
    | (panel) status where "ap_supervisor_error (gu_app g) = None" "sh_error ?st = None" "sh_status ?st = Some status"
    by (metis not_None_eq)
  then show ?thesis
  proof cases
    case launch
    with assms show ?thesis by (simp add: central_panel_def frame_buttons_view Let_def)
  next
    case unreachable
    with assms show ?thesis by (simp add: central_panel_def frame_buttons_view Let_def)
  next
    case connecting
    then show ?thesis by (simp add: central_panel_def Let_def)
  next
    case panel
    define p where "p = (if sr_role status = ''client'' then client_panel ms ck (gu_app g) status
      else server_panel (local_lan_ip (gw_lan w)) ms ck (gu_app g) status)"
    define p' where "p' = (if sr_role status = ''client'' then client_panel ms ck' (gu_app g) status
      else server_panel (local_lan_ip (gw_lan w)) ms ck' (gu_app g) status)"
    obtain q effs app' where q: "p = (q, effs, app')" by (cases p) auto
    have "fst (central_panel w now ms ck g) =
        PanelView q (action_status ms (sh_last_action ?st)) (footer status)"
      using panel q by (simp add: central_panel_def p_def)
    note agree = assms [unfolded this]
    have "p' = p"
    proof (cases "sr_role status = ''client''")
      case True
      then have c: "client_panel ms ck (gu_app g) status = (q, effs, app')" using q by (simp add: p_def)
      have "client_panel ms ck' (gu_app g) status = client_panel ms ck (gu_app g) status"
        using agree unfolding client_panel_clicks(1) [OF c] by (intro client_panel_clicks(2) [OF c]) simp_all
      with True show ?thesis by (simp add: p_def p'_def)
    next
      case False
      then have c: "server_panel (local_lan_ip (gw_lan w)) ms ck (gu_app g) status = (q, effs, app')"
        using q by (simp add: p_def)
      have "server_panel (local_lan_ip (gw_lan w)) ms ck' (gu_app g) status =
          server_panel (local_lan_ip (gw_lan w)) ms ck (gu_app g) status"
        using agree unfolding server_panel_clicks(1) [OF c]
        by (intro server_panel_clicks(2) [OF c]) (auto split: if_splits)
      with False show ?thesis by (simp add: p_def p'_def)
    qed
    with panel show ?thesis by (simp add: central_panel_def p_def p'_def)
  qed
qed

text \<open>
  Nothing acts that is not drawn: two frames in which the same buttons were clicked among those that the
  first one draws do and show the same.
\<close>

theorem only_drawn_buttons_act:
  assumes "\<forall>b \<in> set (frame_buttons (gui_frame hovered show_id w now ms ck g)). clicked ck b = clicked ck' b"
  shows "gui_update w now ms ck' g = gui_update w now ms ck g"
proof -
  define v where "v = fst (gui_update w now ms ck g)"
  have agree: "clicked ck b = clicked ck' b"
    if "b \<in> {ChangeRole} \<union> set (frame_buttons (render_view hovered show_id (gu_app g) v))" for b
    using assms that by (auto simp: gui_frame_def v_def)
  have change: "ck_change_role ck = ck_change_role ck'" using agree [of ChangeRole] by simp
  let ?g1 = "auto_launch w now (g\<lparr>gu_app := (gu_app g)\<lparr>ap_poll_started := True\<rparr>\<rparr>)"
  let ?g2 = "if ck_change_role ck then ?g1\<lparr>gu_app := (gu_app ?g1)\<lparr>ap_role_decided := False\<rparr>\<rparr> else ?g1"
  show ?thesis
  proof (cases "ap_role_decided (gu_app ?g2)")
    case False
    then have "v = RolePicker (ap_supervisor_error (gu_app ?g2))"
      by (simp add: v_def gui_update_def Let_def)
    then have "role_picked ck' = role_picked ck"
      using agree [of ServerCard] agree [of ClientCard] by (simp add: frame_buttons_view role_picked_def)
    with False change show ?thesis by (simp add: gui_update_def Let_def)
  next
    case True
    then have v: "v = fst (central_panel w now ms ck ?g2)"
      by (simp add: v_def gui_update_def Let_def split: prod.split)
    have "central_panel w now ms ck' ?g2 = central_panel w now ms ck ?g2"
      using central_panel_clicks [of hovered show_id "gu_app g" w now ms ck ?g2 ck'] agree v by blast
    with True change show ?thesis by (simp add: gui_update_def Let_def)
  qed
qed

theorem only_drawn_buttons_act_witness:
  "let g = sample_gui (status_of ''0.1.0'' 5 idle_client) in
   gui_update sample_gui_world 0 0 (no_clicks\<lparr>ck_run_or_stop := True, ck_client_card := True\<rparr>) g =
   gui_update sample_gui_world 0 0 no_clicks g"
proof -
  let ?st = "status_of ''0.1.0'' 5 idle_client"
  let ?g = "sample_gui ?st"
  let ?app = "(gu_app ?g)\<lparr>ap_supervisor_error := None\<rparr>"
  have "sr_role ?st = ''client''"
    by (simp add: status_of_def idle_client_def daemon_start_def initial_state_def)
  then have p: "panel_of sample_gui_world 0 no_clicks ?app ?st = client_panel 0 no_clicks ?app ?st"
    by (simp add: panel_of_def)
  obtain q effs app' where q: "client_panel 0 no_clicks ?app ?st = (q, effs, app')" by (metis prod.exhaust)
  have buttons: "frame_buttons (gui_frame hovered show_id sample_gui_world 0 0 no_clicks ?g) =
      [ChangeRole, ConnectButton, DisconnectButton]" for hovered show_id
    using update_healthy [OF sample_gui_healthy _ p [unfolded q]] client_panel_clicks(1) [OF q]
    by (simp add: gui_frame_def no_clicks_def del: render_view.simps)
  show ?thesis
    unfolding Let_def
    by (rule only_drawn_buttons_act [where hovered = "\<lambda>_. False" and show_id = "\<lambda>_. []"], unfold buttons)
      (simp add: no_clicks_def)
qed

end
