(* ===== verification/Spec2Isabelle.thy ===== *)
theory Spec2Isabelle
  imports WireProperties RoutingProperties Heartbeat FileSender ClipboardSync DaemonControl
    EndToEnd CaptureLifecycle Backends PeerConnection InputPipeline DaemonRun Endpoints GuiApp GuiView
begin

text \<open>
  Verification of InputSync (the \<open>my-deskflow\<close> workspace): software that shares one keyboard and
  mouse between machines. One machine, the server, captures its input; when the pointer crosses an
  edge of its screen the input goes to another machine, the client, over a QUIC connection, until
  an emergency hotkey brings it back. Besides, the machines synchronise their clipboards and send
  files, and a daemon on each is driven over a local socket by a command line and a graphical front
  end. The sources are the Rust crates under \<open>src/crates/\<close>.

  \<^bold>\<open>Conventions.\<close> Structs are records with a short field prefix, enums are datatypes, \<open>Result\<close> is a
  sum with the error on the left, machine integers are words (arithmetic wraps as in the release
  profile; signed readings are explicit), text is a list of characters and paths are lists of names.
  Asynchronous code and threads are modelled at the granularity of their critical sections: an
  operation is the function of what happens under one lock, its effects on the outside are the list
  it returns, and tasks that share state are step relations whose rules are those sections. What the
  program gets from outside - the bincode and JSON serialisers, blake3, hex, the toml codec, the image
  codec, the system clipboard, the constants and calls of the Windows API and of uinput, the outcome
  of file, process, socket and TLS calls - is a parameter, and no law is assumed of it except where a
  theorem states it. Shared by several theorems are \<open>wire_ok\<close> (the serialiser reads back what it
  wrote, message by message, within the size cap), \<open>line_ok\<close> (the same for a line of JSON), and that
  the virtual key codes in use are distinct. \<open>table_ser\<close>, \<open>sample_json\<close> and \<open>sample_vk\<close> satisfy them.

  \<^bold>\<open>Theories, from the bottom up.\<close>

  \<^item> \<open>Prelude\<close>: integers, byte order, results, decimal printing; the interfaces \<open>key_store\<close> (a map
    with insert and lookup), \<open>record_channel\<close> (records written and read back one behind the other) and
    \<open>invariant_system\<close> (a step relation with an inductive invariant). \<open>StdText\<close>: the parts of the
    standard library about text, lines and paths that several components use.
  \<^item> \<open>CoreTypes\<close>, \<open>InputEvents\<close> (\<open>core/src/id.rs\<close>, \<open>screen.rs\<close>, \<open>error.rs\<close>, \<open>event.rs\<close>): identifiers,
    screens and layouts, errors, keys, modifiers as a bounded lattice of flag sets, input events.
  \<^item> \<open>WireHeader\<close>, \<open>WireMessage\<close>, \<open>FrameCodec\<close> (\<open>protocol/src/header.rs\<close>, \<open>message.rs\<close>, \<open>codec.rs\<close>): the
    frame header, the messages, capability negotiation as a meet, and the codec as an instance of
    the interface \<open>frame_codec\<close>.
  \<^item> \<open>MessageStream\<close> (\<open>network/src/stream.rs\<close>, \<open>peer_loop.rs\<close>): reading and writing messages on a
    stream, the reader and writer loops; the interface \<open>message_channel\<close>, an extension of
    \<open>record_channel\<close>. \<open>WireProperties\<close> states what the wire promises.
  \<^item> \<open>EdgeRouting\<close> (\<open>daemon/src/edge.rs\<close>): the edge detector as an instance of the interface \<open>router\<close>,
    with the integer reading of its geometry.
  \<^item> \<open>SessionServer\<close>, \<open>SessionClient\<close> (\<open>daemon/src/session.rs\<close>): the drain loop, the peer events and
    their interleaving on the server (\<open>server_step\<close>, \<open>server_inv\<close>); the dispatch of inbound
    messages and the specification \<open>held_after\<close> of the keys held on the client. \<open>RoutingProperties\<close>
    states what they promise together; \<open>Heartbeat\<close> is \<open>daemon/src/heartbeat.rs\<close>.
  \<^item> \<open>Platform\<close>, \<open>KeyTables\<close> (\<open>platform/src/lib.rs\<close>, \<open>stub.rs\<close>, \<open>windows/keymap.rs\<close>, the \<open>mod.rs\<close> and
    \<open>monitor.rs\<close> of both back ends, the mapping of \<open>linux/inject.rs\<close>): monitors and the logical screen,
    the fallback back end, the key tables.
  \<^item> \<open>WindowsCapture\<close>, \<open>CaptureThreads\<close> (\<open>platform/src/windows/capture.rs\<close>): the hook procedures, the
    bounded queue, the drain thread, and the hook thread, drain thread and \<open>stop\<close> as a step relation.
    \<open>CaptureLifecycle\<close> joins them with the requests that spawn sessions.
  \<^item> \<open>KeyInjection\<close>, \<open>WindowsInject\<close>, \<open>LinuxInject\<close> (\<open>platform/src/windows/inject.rs\<close>,
    \<open>linux/inject.rs\<close>, \<open>linux/mod.rs\<close>): what the injectors write to the system; both are instances of
    the interface \<open>key_injector\<close>, which proves once that the keys down are those the session
    specifies. \<open>Backends\<close> (\<open>platform/src/traits.rs\<close>) has the objects of the platform traits over the
    three back ends. \<open>EndToEnd\<close> follows input from the hooks of one machine to the system calls of the other.
  \<^item> \<open>FilePaths\<close>, \<open>FileReceiver\<close>, \<open>FileSender\<close> (\<open>filetransfer/src/lib.rs\<close>,
    \<open>daemon/src/filetransfer_mgr.rs\<close>): path components and sanitising over a file system whose calls
    can fail, manifests, the receiver as an instance of the interface \<open>chunk_receiver\<close>, the sender,
    whole transfers, and confinement of everything a peer can cause to the drop directory.
  \<^item> \<open>ClipboardSync\<close> (\<open>clipboard/src/lib.rs\<close>, \<open>daemon/src/clipboard_mgr.rs\<close>): the originator registry,
    the backends (interface \<open>clipboard_backend\<close>), one turn of the poll loop, the inbound handler.
  \<^item> \<open>DaemonConfig\<close> (\<open>core/src/config.rs\<close>, the start of \<open>run\<close> in \<open>daemon/src/app.rs\<close>), \<open>Handshake\<close>
    (\<open>network/src/tls.rs\<close>, \<open>server.rs\<close>, \<open>client.rs\<close>), \<open>ClientSupervisor\<close> (\<open>ClientController\<close>),
    \<open>DaemonControl\<close> (\<open>daemon/src/app.rs\<close>, \<open>ipc_server.rs\<close>, \<open>ipc/src/lib.rs\<close>): configuration,
    connection set-up with the pin check, the supervisor of the client's one connection, the state
    of the daemon, its requests, and the interleaving of requests and peer events.
  \<^item> \<open>PeerConnection\<close> (\<open>network/src/peer.rs\<close>, \<open>run_peer_loop\<close> of \<open>network/src/peer_loop.rs\<close>, the ends of
    \<open>connect_once\<close> and \<open>handle_connection\<close>): the handle of a peer with its bounded channel, and the tasks
    of an established connection as a step relation with an invariant: writer, readers of the control
    stream and of the auxiliary streams, acceptor, session, and the function that runs them.
  \<^item> \<open>InputPipeline\<close> (the sends of \<open>drain_capture\<close> and \<open>apply_decision\<close> in \<open>daemon/src/session.rs\<close>): the
    server's session joined with a connection, its effects performed one by one on the bounded channel
    (\<open>link_step\<close>, \<open>link_inv\<close>), up to what the client on the other machine injects.
  \<^item> \<open>IpcTransport\<close>, \<open>IpcConversation\<close> (\<open>ipc/src/transport.rs\<close>, the connection loop of
    \<open>daemon/src/ipc_server.rs\<close>): the socket path, listening and connecting, lines of JSON as an
    instance of \<open>record_channel\<close>, the loop over the bytes of a connection and the client of it.
    Named pipes, which replace the socket on Windows, as far as accepting and connecting go.
  \<^item> \<open>CommandLine\<close> (\<open>cli/src/main.rs\<close>, \<open>daemon/src/main.rs\<close>, \<open>logging.rs\<close>): the commands of both programs.
    \<open>DaemonRun\<close> (\<open>run\<close> and \<open>print_fingerprint\<close> of \<open>daemon/src/app.rs\<close>, the creation of sessions in
    \<open>daemon/src/session.rs\<close>, the accept loops): the start of the daemon from files and arguments.
    \<open>Endpoints\<close> (\<open>network/src/tls.rs\<close>, \<open>Server\<close>, \<open>Client\<close> and \<open>ClientController\<close> of \<open>network/src\<close>, the
    fan-out tasks of \<open>daemon/src/app.rs\<close>): the TLS configurations, binding, and the channels around them.
  \<^item> \<open>GuiSupervisor\<close>, \<open>GuiApp\<close> (\<open>gui/src/daemon.rs\<close>, \<open>gui/src/main.rs\<close>): the supervisor of the daemon
    process, as a step relation with an invariant; the state of the interface, a frame of it as a
    function of the user's clicks, its polling and actions, and the choice of the role. \<open>GuiView\<close>
    (\<open>gui/src/theme.rs\<close> and the rendering of \<open>main.rs\<close>): the palette and what a frame draws, as a tree
    of widgets.

  \<^bold>\<open>How the parts meet.\<close> A raw event of the hooks goes through \<open>drain_queue\<close> to the session's
  \<open>drain_step\<close> (which asks \<open>edge_observe\<close>), becomes a message on the first peer's channel, is written
  by \<open>write_loop\<close>, read by \<open>read_loop\<close> on the other side, dispatched by \<open>inbound_step\<close> and injected by
  \<open>windows_inject\<close> or \<open>linux_inject\<close>; the theorem below and those of \<open>EndToEnd\<close> follow that path, and
  \<open>InputPipeline\<close> follows it in every interleaving of the tasks, with the channel's bound.
  Clipboard and file messages leave \<open>inbound_step\<close> towards \<open>handle_inbound\<close> of \<open>ClipboardSync\<close> and
  \<open>handle_offer\<close>, \<open>handle_chunk\<close> of \<open>FileSender\<close>. A click in \<open>gui_update\<close> or a command of \<open>cli_main\<close>
  becomes a request of \<open>client_request\<close>, is answered by \<open>serve\<close> through \<open>handle_request\<close>; a request to
  connect ends in \<open>connect_once\<close> with the pins that \<open>handle_connect\<close> chose, one to start in a session
  and its \<open>capture_start\<close>.

  \<^bold>\<open>What the theorems show\<close>, in the order of their numbers: input arrives as it was captured (1), in
  any interleaving as it was routed, with gaps only where a full channel refused a message (2), which
  can leave a key down (3); the emergency hotkey undoes everything (4); the capture switch, the route
  and the pointer (5 - 8); frames, and what the tasks of a connection do to the order of messages (9,
  10); files stay in the drop directory and arrive intact (11, 12); hanging up leaves the connection in
  place (13); keys from the hooks to the injected codes, the modifiers announced at a crossing and the
  session the capture belongs to (14 - 16); a click on Run carried through to the daemon and back (17);
  the local socket as the sequence of handlers (18); the handshake and the pins of requests, of the
  command line and of a copied fingerprint (19 - 22); the reported status (23); what the hooks deliver,
  in which shape, and how capture stops (24 - 26); the injectors refine the session's specification
  (27 - 29); the supervised process (30); the clipboard (31 - 33); digests (34); the role choice (35); a
  message that fits no frame and an address of the other family (36, 37); peers, stopping and scaling
  (38 - 40). Several state behaviour the documentation does not promise: 3, 6, 13, 15, 16, 32, 34, 36, 37
  and 39. So do theorems without a number, for example \<open>hang_up_keeps_peer\<close>,
  \<open>chunk_before_offer_loses_file\<close>, \<open>parking_jump_forwarded\<close>, \<open>disconnect_drops_reconnection\<close>,
  \<open>stale_peer_after_stop\<close>, \<open>second_shift_release_clears_flag\<close>, \<open>swallowed_release_lost\<close>,
  \<open>failed_start_is_final\<close>, \<open>linux_key_codes\<close>, \<open>linux_server_reports_capture\<close>, \<open>wheel_units_differ\<close>,
  \<open>emergency_only_clears_flag\<close>, \<open>watch_waits_forever\<close>, \<open>shutdown_command_fails\<close>,
  \<open>launch_takes_socket_over\<close>, \<open>pipe_turns_second_client_away\<close>, \<open>role_choice_discards_bad_config\<close> and
  \<open>settings_without_effect\<close>. Further ones round off a component: \<open>resync_exact\<close>,
  \<open>bad_line_ends_connection\<close>, \<open>daemon_starts_idle\<close>, \<open>printed_fingerprint_pins\<close>,
  \<open>only_drawn_buttons_act\<close>.

  \<^bold>\<open>Bounds and termination.\<close> There is no fuel: every loop is structural over its input or has a
  measure (\<open>read_loop\<close>, \<open>serve\<close> and \<open>watch_loop\<close>: each turn consumes bytes; \<open>full_reads\<close>: each read
  shortens the file; \<open>trim_end\<close>: the text). The threads of the capture run as long as they are
  scheduled; that they come to their ends after \<open>stop\<close>, or do not, is 26 and 39. Theorems about
  positions bound what the words need: files below 2 to the 64 bytes, at most 2 to the 32 files,
  screens of at least one or four pixels, desktops of at most 65535 pixels.

  \<^bold>\<open>Not modelled.\<close> QUIC and TLS themselves; the capacity of the channels for events between the
  tasks of the daemon, while the capture queue and the channels of a connection have theirs; time,
  except in the launches of the interface and the times of the status; links in the file system and
  path syntax other than that of Unix, except joining paths on Windows; the icons of the interface and
  the layout of its widgets; the text of a UUID; parsing of command lines; tracing. On Linux the capture
  is a stub in the code, so the capture is that of Windows. Overflow checks of debug builds,
  where arithmetic panics instead of wrapping, are left out too.
\<close>

section \<open>Input from end to end\<close>

text \<open>
  C1: Input arrives as it was made. While the route is remote, a captured sequence of key, button, wheel
  and relative motion events - anything but absolute positions and the emergency hotkey - is sent to the
  first peer; if its channel, empty and open at first, is emptied by the writer in time for each message
  to find room, then what the writer took and what still waits for it, framed and read back on the other
  machine, is injected there as exactly the same sequence, nothing lost, added or reordered.
\<close>

theorem input_end_to_end:
  assumes "ed_route (ds_edge st) = Remote s"
    and "list_all (\<lambda>ev. (\<exists>k. ev = Key k) \<or> (\<exists>m. ev = Mouse m \<and> move_target ev = None)) evs"
    and "list_all (\<lambda>ev. \<not> is_emergency ev) evs"
    and "drain_capture (h # hs) st evs = (effs, st')"
    and "length ns = length effs" and "keeps_room 0 ns"
    and "list_all (wire_ok ser de) (map from_input evs)"
  shows "\<exists>taken out. perform_all display (ph_chan h) (zip ns effs) \<lparr>oc_queue = [], oc_open = True\<rparr> = Some (taken, out) \<and>
    inbound_loop True (read_loop eof de (write_loop ser (taken @ oc_queue out))) = map Inject evs"
proof -
  have "list_all (\<lambda>ev. \<not> is_emergency ev \<and> move_target ev = None) evs"
    using assms(2,3) by (auto simp: list_all_iff move_target_def)
  then have "effs = map (TrySend (ph_chan h)) (map from_input evs)"
    using drain_capture_forward [OF assms(1) _ assms(4)] by simp
  then obtain taken out where sent:
    "perform_all display (ph_chan h) (zip ns effs) \<lparr>oc_queue = [], oc_open = True\<rparr> = Some (taken, out)"
    "taken @ oc_queue out = map from_input evs"
    using perform_all_room [of "\<lparr>oc_queue = [], oc_open = True\<rparr>" ns "map from_input evs" display "ph_chan h"]
      assms(5,6) by (auto simp del: map_map)
  have "read_loop eof de (write_loop ser (taken @ oc_queue out)) = map from_input evs"
    unfolding sent(2) using read_write_loop_append [OF assms(7), of eof "[]"] by (simp add: read_loop_Nil)
  with sent(1) inbound_loop_from_input [OF assms(2)] show ?thesis by simp
qed

theorem input_end_to_end_witness:
  "let evs = [Mouse (MButton BtnLeft Pressed), Mouse (MScroll \<lparr>sd_horizontal = 0, sd_vertical = 1\<rparr>),
         Mouse (MoveRelative 3 4)];
       ms = map from_input evs
   in \<exists>taken out. perform_all (\<lambda>_. ''full'') 0 (zip [0, 0, 2] (fst (drain_capture [sample_peer] sample_remote evs)))
          \<lparr>oc_queue = [], oc_open = True\<rparr> = Some (taken, out) \<and>
        inbound_loop True (read_loop ''eof'' (table_de ms) (write_loop (table_ser ms) (taken @ oc_queue out))) =
          map Inject evs"
proof -
  let ?evs = "[Mouse (MButton BtnLeft Pressed), Mouse (MScroll \<lparr>sd_horizontal = 0, sd_vertical = 1\<rparr>),
     Mouse (MoveRelative 3 4)]"
  let ?ms = "map from_input ?evs"
  let ?d = "drain_capture [sample_peer] sample_remote ?evs"
  have d: "?d = (fst ?d, snd ?d)" by simp
  have ok: "list_all (wire_ok (table_ser ?ms) (table_de ?ms)) ?ms"
    unfolding list_all_iff by (intro ballI table_wire_ok) (simp_all add: MAX_PAYLOAD_SIZE_def)
  have remote: "ed_route (ds_edge sample_remote) = Remote (ScreenId 1)" by (simp add: sample_remote_def)
  have "list_all (\<lambda>ev. \<not> is_emergency ev \<and> move_target ev = None) ?evs" by (simp add: move_target_def)
  then have "length [0, 0, 2 :: nat] = length (fst ?d)" using drain_capture_forward [OF remote _ d] by simp
  from input_end_to_end [OF remote _ _ d this _ ok, of "\<lambda>_. ''full''" "''eof''"]
  show ?thesis
    by (simp add: move_target_def sample_peer_def CHANNEL_BOUND_def Let_def
        del: perform_all.simps drain_capture.simps table_ser.simps table_de.simps)
qed

end
